(* ===== verification/Stub_Prelude.thy ===== *)
theory Stub_Prelude
  imports Main "HOL-Library.Word" "HOL-Library.Monad_Syntax" "HOL-Library.Sublist"
begin

text \<open>
  Shared vocabulary of the development: bytes and C strings, the C library functions the
  program uses on them (strchr, strlen, strncmp, strstr, isspace, isxdigit, strtol and
  snprintf with hexadecimal conversions), the conversion to a 32-bit \<open>int\<close>, and
  the lemmas about them that the components share.

  A value of type option in the model says whether the C execution is defined:
  \<open>None\<close> is an access outside an array, an over-wide shift, or a loop that never
  ends. A \<open>const char *\<close> into an array is the part of the array from that position
  on, so that reading past the end of the array is meeting the empty list.
\<close>

unbundle bit_operations_syntax

named_theorems frame_simps \<open>what an operation leaves unchanged\<close>
named_theorems eval_simps \<open>evaluation of the definitions on concrete input\<close>

type_synonym byte = "8 word"

abbreviation NUL :: char where "NUL \<equiv> CHR 0x00"

lemma map_option_bind_Some: "map_option f x = Option.bind x (\<lambda>y. Some (f y))"
  by (cases x) simp_all

subsection \<open>Bytes and characters\<close>

text \<open>The cast from \<open>char\<close> to \<open>uint8_t\<close> and back.\<close>

definition u8 :: "char \<Rightarrow> byte" where
  "u8 c = word_of_nat (of_char c)"

definition ch :: "byte \<Rightarrow> char" where
  "ch b = char_of (unat b)"

lemma unat_u8 [simp]: "unat (u8 c) = of_char c"
  by (simp add: u8_def unat_of_nat)

lemma unat_byte_mod [simp]: "unat (b :: byte) mod 256 = unat b"
  using unsigned_less [of b, where 'a = nat] by simp

lemma u8_ch [simp]: "u8 (ch b) = b"
  by (simp add: u8_def ch_def)

lemma ch_u8 [simp]: "ch (u8 c) = c"
  by (simp add: ch_def)

lemma u8_inject: "u8 c = u8 d \<longleftrightarrow> c = d"
  using ch_u8 by metis

text \<open>A zero extension keeps the value.\<close>

lemma unat_ucast_up:
  assumes "LENGTH('a::len) \<le> LENGTH('b::len)"
  shows "unat (ucast (a :: 'a word) :: 'b word) = unat a"
proof -
  have "unat a < 2 ^ LENGTH('a)" by (rule unsigned_less)
  also have "(2 :: nat) ^ LENGTH('a) \<le> 2 ^ LENGTH('b)" using assms by (intro power_increasing) auto
  finally show ?thesis by (simp add: unsigned_ucast_eq take_bit_nat_eq_self)
qed

subsection \<open>C strings\<close>

text \<open>
  The string at a pointer: the characters before the first NUL. The pointer has no string
  when the array ends before a NUL.
\<close>

definition cstr :: "char list \<Rightarrow> string option" where
  "cstr p = (if NUL \<in> set p then Some (takeWhile (\<lambda>c. c \<noteq> NUL) p) else None)"

lemma cstr_app: "NUL \<notin> set s \<Longrightarrow> cstr (s @ NUL # r) = Some s"
  by (induction s) (auto simp: cstr_def split: if_splits)

lemma cstr_SomeE:
  assumes "cstr p = Some s"
  obtains r where "p = s @ NUL # r" and "NUL \<notin> set s"
proof -
  from assms have n: "NUL \<in> set p" and s: "s = takeWhile (\<lambda>c. c \<noteq> NUL) p"
    by (auto simp: cstr_def split: if_splits)
  from n have "dropWhile (\<lambda>c. c \<noteq> NUL) p \<noteq> []" by auto
  then obtain x r where d: "dropWhile (\<lambda>c. c \<noteq> NUL) p = x # r" by (cases "dropWhile (\<lambda>c. c \<noteq> NUL) p") auto
  then have "x = NUL" using hd_dropWhile [of "\<lambda>c. c \<noteq> NUL" p] by simp
  with d s have "p = s @ NUL # r" by (metis takeWhile_dropWhile_id)
  moreover have "NUL \<notin> set s" using s set_takeWhileD by fastforce
  ultimately show thesis by (rule that)
qed

lemma cstr_None_iff: "cstr p = None \<longleftrightarrow> NUL \<notin> set p"
  by (simp add: cstr_def)

text \<open>Evaluation of the string at a pointer, piece by piece.\<close>

lemma cstr_Nil [simp]: "cstr [] = None"
  by (simp add: cstr_def)

lemma cstr_Cons [simp]: "cstr (c # p) = (if c = NUL then Some [] else map_option ((#) c) (cstr p))"
  by (simp add: cstr_def)

lemma cstr_append [simp]: "NUL \<notin> set s \<Longrightarrow> cstr (s @ p) = map_option ((@) s) (cstr p)"
  by (cases "cstr p") (induction s; auto)+

text \<open>\<open>strchr\<close> on the string: the offset of the first occurrence.\<close>

fun strchr :: "string \<Rightarrow> char \<Rightarrow> nat option" where
  "strchr [] c = None"
| "strchr (x # s) c = (if x = c then Some 0 else map_option Suc (strchr s c))"

lemma strchr_None [simp]: "strchr s c = None \<longleftrightarrow> c \<notin> set s"
  by (induction s) auto

lemma strchr_notin [simp]: "c \<notin> set s \<Longrightarrow> strchr s c = None"
  by simp

lemma strchr_app [simp]: "c \<notin> set s \<Longrightarrow> strchr (s @ c # t) c = Some (length s)"
  by (induction s) auto

lemma strchr_SomeD:
  "strchr s c = Some i \<Longrightarrow> i < length s \<and> s ! i = c \<and> c \<notin> set (take i s)"
  by (induction s arbitrary: i) (auto split: if_splits)

lemma strchr_split:
  assumes "strchr s c = Some i"
  shows "s = take i s @ c # drop (Suc i) s" and "c \<notin> set (take i s)" and "i < length s"
  using strchr_SomeD [OF assms] by (auto simp: id_take_nth_drop [symmetric])

text \<open>\<open>strncmp(s, lit, strlen(lit)) == 0\<close> and \<open>strstr(s, sub) != NULL\<close>.\<close>

definition starts_with :: "string \<Rightarrow> string \<Rightarrow> bool" where
  "starts_with s lit = (take (length lit) s = lit)"

fun strstr_found :: "string \<Rightarrow> string \<Rightarrow> bool" where
  "strstr_found [] sub = (sub = [])"
| "strstr_found (c # s) sub = (starts_with (c # s) sub \<or> strstr_found s sub)"

lemma starts_with_app [simp]: "starts_with (lit @ s) lit"
  by (simp add: starts_with_def)

lemma strstr_found_iff: "strstr_found s sub \<longleftrightarrow> (\<exists>a b. s = a @ sub @ b)"
proof (induction s)
  case Nil
  then show ?case by auto
next
  case (Cons c s)
  have "starts_with (c # s) sub \<longleftrightarrow> (\<exists>b. c # s = sub @ b)"
    by (auto simp: starts_with_def) (metis append_take_drop_id)
  moreover have "(\<exists>a b. c # s = a @ sub @ b) \<longleftrightarrow> (\<exists>b. c # s = sub @ b) \<or> (\<exists>a b. s = a @ sub @ b)"
    by (metis append_Cons append_Nil list.exhaust list.inject)
  ultimately show ?case using Cons.IH by simp
qed

subsection \<open>Hexadecimal numbers: printf and strtol\<close>

definition isspace :: "char \<Rightarrow> bool" where
  "isspace c = (c \<in> {CHR '' '', CHR 0x09, CHR 0x0A, CHR 0x0B, CHR 0x0C, CHR 0x0D})"

definition isxdigit :: "char \<Rightarrow> bool" where
  "isxdigit c = (let u = u8 c in
     (48 \<le> u \<and> u \<le> 57) \<or> (97 \<le> u \<and> u \<le> 102) \<or> (65 \<le> u \<and> u \<le> 70))"

definition xdigit_val :: "char \<Rightarrow> nat" where
  "xdigit_val c = (let u = u8 c in
     unat (if u \<le> 57 then u - 48 else if 97 \<le> u then u - 87 else u - 55))"

definition hex_char :: "nat \<Rightarrow> char" where
  "hex_char n = ''0123456789abcdef'' ! n"

text \<open>\<open>%x\<close> of an unsigned value, and \<open>%0kx\<close>.\<close>

fun fmt_x :: "nat \<Rightarrow> string" where
  "fmt_x n = (if n < 16 then [hex_char n] else fmt_x (n div 16) @ [hex_char (n mod 16)])"

declare fmt_x.simps [simp del]

definition fmt_0x :: "nat \<Rightarrow> nat \<Rightarrow> string" where
  "fmt_0x k n = (let s = fmt_x n in replicate (k - length s) CHR ''0'' @ s)"

text \<open>\<open>%d\<close>.\<close>

fun fmt_nat :: "nat \<Rightarrow> string" where
  "fmt_nat n = (if n < 10 then [hex_char n] else fmt_nat (n div 10) @ [hex_char (n mod 10)])"

declare fmt_nat.simps [simp del]

definition fmt_d :: "int \<Rightarrow> string" where
  "fmt_d v = (if v < 0 then CHR ''-'' # fmt_nat (nat (- v)) else fmt_nat (nat v))"

text \<open>A line of standard output.\<close>

definition text_line :: "string \<Rightarrow> string" where
  "text_line s = s @ [CHR 0x0A]"

text \<open>
  \<open>strtol(s, NULL, 16)\<close>: white space, one sign, an optional \<open>0x\<close> before a
  digit, then the longest run of digits; out of the range of a 64-bit \<open>long\<close>
  the result is the nearest bound.
\<close>

definition hex_nat :: "string \<Rightarrow> nat" where
  "hex_nat s = foldl (\<lambda>v c. 16 * v + xdigit_val c) 0 s"

definition strip_0x :: "string \<Rightarrow> string" where
  "strip_0x s = (case s of z # x # h # t \<Rightarrow>
        if z = CHR ''0'' \<and> x \<in> {CHR ''x'', CHR ''X''} \<and> isxdigit h then h # t else s
      | _ \<Rightarrow> s)"

definition strtol_mag :: "string \<Rightarrow> int" where
  "strtol_mag s = int (hex_nat (takeWhile isxdigit (strip_0x s)))"

definition strtol16 :: "string \<Rightarrow> int" where
  "strtol16 s = (let s1 = dropWhile isspace s;
       v = (case s1 of [] \<Rightarrow> 0
            | c # t \<Rightarrow> if c = CHR ''-'' then - strtol_mag t
                      else if c = CHR ''+'' then strtol_mag t
                      else strtol_mag s1)
     in max (- (2 ^ 63)) (min (2 ^ 63 - 1) v))"

text \<open>The conversion of a wider integer to \<open>int\<close> (32 bits, two's complement).\<close>

definition c_int :: "int \<Rightarrow> int" where
  "c_int v = signed_take_bit 31 v"

text \<open>\<open>snprintf(buf, n, ...)\<close> of an expanded text: what the buffer holds.\<close>

definition snprintf :: "nat \<Rightarrow> string \<Rightarrow> string" where
  "snprintf n s = take (n - 1) s"

lemma snprintf_id [simp]: "length s < n \<Longrightarrow> snprintf n s = s"
  by (simp add: snprintf_def)

lemma c_int_id [simp]: "- (2 ^ 31) \<le> v \<Longrightarrow> v < 2 ^ 31 \<Longrightarrow> c_int v = v"
  by (simp add: c_int_def signed_take_bit_int_eq_self)

lemma c_int_bounds: "- (2 ^ 31) \<le> c_int v \<and> c_int v < 2 ^ 31"
  using signed_take_bit_int_greater_eq_minus_exp [of 31 v]
    signed_take_bit_int_less_exp [of 31 v] by (simp add: c_int_def)

text \<open>Facts about the sixteen digits, by evaluation of each.\<close>

lemma less_16_cases:
  assumes "n < (16::nat)"
    and "P 0" "P 1" "P 2" "P 3" "P 4" "P 5" "P 6" "P 7" "P 8" "P 9" "P 10" "P 11" "P 12"
      "P 13" "P 14" "P 15"
  shows "P n"
proof -
  have "n \<in> set [0..<16]" using assms(1) by simp
  also have "[0..<16] = [0,1,2,3,4,5,6,7,8,9,10,11,12,13,14,15]" by code_simp
  finally show ?thesis using assms(2-) by auto
qed

lemma hex_char_facts:
  assumes "n < 16"
  shows "isxdigit (hex_char n)" and "xdigit_val (hex_char n) = n"
    and "\<not> isspace (hex_char n)" and "hex_char n \<noteq> NUL"
    and "hex_char n \<notin> set ''-+,.;:#$=xXpP''"
    and "hex_char n = CHR ''0'' \<longleftrightarrow> n = 0"
  by (rule less_16_cases [OF assms];
      simp add: hex_char_def isxdigit_def xdigit_val_def isspace_def u8_def Let_def)+

lemma fmt_x_induct [case_names digit more]:
  fixes n :: nat
  assumes "\<And>n. n < 16 \<Longrightarrow> P n" and "\<And>n. 16 \<le> n \<Longrightarrow> P (n div 16) \<Longrightarrow> P n"
  shows "P n"
  by (induction n rule: fmt_x.induct) (metis assms not_less)

lemma fmt_x_digit: "n < 16 \<Longrightarrow> fmt_x n = [hex_char n]"
  by (simp add: fmt_x.simps [of n])

lemma fmt_x_more: "16 \<le> n \<Longrightarrow> fmt_x n = fmt_x (n div 16) @ [hex_char (n mod 16)]"
  by (subst fmt_x.simps) simp

lemma fmt_x_neq_Nil [simp]: "fmt_x n \<noteq> []"
  by (subst fmt_x.simps) simp

lemma fmt_x_chars: "c \<in> set (fmt_x n) \<Longrightarrow> \<exists>d<16. c = hex_char d"
proof (induction n rule: fmt_x_induct)
  case (more n)
  moreover have "n mod 16 < 16" by simp
  ultimately show ?case by (auto simp: fmt_x_more simp del: mod_less_divisor)
qed (auto simp: fmt_x_digit)

lemma fmt_x_isxdigit: "c \<in> set (fmt_x n) \<Longrightarrow> isxdigit c"
  using fmt_x_chars hex_char_facts(1) by blast

lemma fmt_x_plain: "x \<in> set ''-+,.;:#$=xXpP'' \<Longrightarrow> x \<notin> set (fmt_x n)"
  using fmt_x_chars hex_char_facts(5) by blast

lemma fmt_x_no_NUL [simp]: "NUL \<notin> set (fmt_x n)"
  by (metis fmt_x_chars hex_char_facts(4))

lemma hex_nat_snoc [simp]: "hex_nat (s @ [c]) = 16 * hex_nat s + xdigit_val c"
  by (simp add: hex_nat_def)

lemma hex_nat_fmt_x [simp]: "hex_nat (fmt_x n) = n"
proof (induction n rule: fmt_x_induct)
  case (digit n)
  then show ?case by (simp add: fmt_x_digit hex_nat_def hex_char_facts)
next
  case (more n)
  then show ?case by (simp add: fmt_x_more hex_char_facts)
qed

lemma length_fmt_x: "0 < k \<Longrightarrow> n < 16 ^ k \<Longrightarrow> length (fmt_x n) \<le> k"
proof (induction k arbitrary: n)
  case (Suc k)
  show ?case
  proof (cases "n < 16")
    case False
    then have "n div 16 < 16 ^ k" "0 < k" using Suc.prems by (cases k; auto)+
    with Suc.IH [of "n div 16"] False show ?thesis by (simp add: fmt_x_more)
  qed (simp add: fmt_x_digit)
qed simp

lemma hd_fmt_x: "hd (fmt_x n) = CHR ''0'' \<longleftrightarrow> n = 0"
proof (induction n rule: fmt_x_induct)
  case (more n)
  then have "n div 16 \<noteq> 0" by auto
  with more show ?case by (simp add: fmt_x_more hd_append)
qed (auto simp: fmt_x_digit hex_char_facts)

text \<open>Reading back a printed thread number.\<close>

lemma strip_0x_id:
  "tl s = [] \<or> hd s \<noteq> CHR ''0'' \<or> hd (tl s) \<notin> {CHR ''x'', CHR ''X''} \<Longrightarrow> strip_0x s = s"
  by (auto simp: strip_0x_def split: list.split)

lemma strtol_mag_fmt_x:
  assumes "r = [] \<or> \<not> isxdigit (hd r) \<and> hd r \<notin> {CHR ''x'', CHR ''X''}"
  shows "strtol_mag (fmt_x n @ r) = int n"
proof -
  have "takeWhile isxdigit (fmt_x n @ r) = fmt_x n"
    using assms fmt_x_isxdigit by (subst takeWhile_append2) (auto simp: takeWhile_eq_Nil_iff)
  moreover have "strip_0x (fmt_x n @ r) = fmt_x n @ r"
  proof (rule strip_0x_id, cases "n = 0")
    case True
    then have "fmt_x n = ''0''" by (simp add: fmt_x_digit hex_char_def)
    with assms show "tl (fmt_x n @ r) = [] \<or> hd (fmt_x n @ r) \<noteq> CHR ''0'' \<or>
        hd (tl (fmt_x n @ r)) \<notin> {CHR ''x'', CHR ''X''}" by auto
  qed (simp add: hd_fmt_x)
  ultimately show ?thesis by (simp add: strtol_mag_def)
qed

lemma strtol16_fmt_x:
  assumes "r = [] \<or> \<not> isxdigit (hd r) \<and> hd r \<notin> {CHR ''x'', CHR ''X''}" and "n < 2 ^ 63"
  shows "strtol16 (fmt_x n @ r) = int n"
proof -
  obtain z s where z: "fmt_x n = z # s" by (cases "fmt_x n") auto
  then obtain d where "d < 16" "z = hex_char d" using fmt_x_chars [of z n] by auto
  then have "\<not> isspace z" "z \<noteq> CHR ''-''" "z \<noteq> CHR ''+''"
    using hex_char_facts(3,5) [of d] by auto
  moreover have "strtol_mag (z # s @ r) = int n"
    using strtol_mag_fmt_x [OF assms(1), of n] by (simp add: z)
  moreover have "int n < 2 ^ 63" using assms(2) by (metis of_nat_less_numeral_power_cancel_iff)
  ultimately show ?thesis by (simp add: strtol16_def z)
qed

end
