(* ===== verification/Hex_Codec.thy ===== *)
theory Hex_Codec
  imports Stub_Prelude
begin

text \<open>
  The protocol helpers of src/src/gdb_stub.c: hexadecimal digits, big-endian numbers
  (\<open>parse_hex\<close>), little-endian register images (\<open>parse_hex_le\<close>,
  \<open>encode_hex\<close>) and the packet checksum. The width of a register or address is
  the type variable \<open>'x\<close>: 32 or 64, the two values of GDB_STUB_XLEN.
\<close>

subsection \<open>The helpers\<close>

definition hex_to_int :: "char \<Rightarrow> byte" where
  "hex_to_int c = (let u = u8 c in
     if 48 \<le> u \<and> u \<le> 57 then u - 48
     else if 97 \<le> u \<and> u \<le> 102 then u - 97 + 10
     else if 65 \<le> u \<and> u \<le> 70 then u - 65 + 10
     else 0)"

definition int_to_hex :: "byte \<Rightarrow> char" where
  "int_to_hex v = ch (if v < 10 then 48 + v else 97 + (v - 10))"

text \<open>
  \<open>parse_hex(str, len)\<close>: at most \<open>len\<close> characters, stopping at a NUL.
\<close>

fun parse_hex_loop :: "char list \<Rightarrow> nat \<Rightarrow> 'x::len word \<Rightarrow> 'x word option" where
  "parse_hex_loop str 0 value = Some value"
| "parse_hex_loop [] (Suc n) value = None"
| "parse_hex_loop (c # str) (Suc n) value =
     (if c = NUL then Some value
      else parse_hex_loop str n (push_bit 4 value OR ucast (hex_to_int c)))"

definition parse_hex :: "char list \<Rightarrow> nat \<Rightarrow> 'x::len word option" where
  "parse_hex str n = parse_hex_loop str n 0"

text \<open>The byte two digits stand for.\<close>

definition hex_byte :: "char \<Rightarrow> char \<Rightarrow> byte" where
  "hex_byte a b = push_bit 4 (hex_to_int a) OR hex_to_int b"

text \<open>
  \<open>parse_hex_le(str, hex_chars)\<close>: byte \<open>i\<close> is shifted left by \<open>8 * i\<close>,
  which C leaves undefined once \<open>8 * i\<close> reaches the width of a register.
\<close>

fun parse_hex_le_loop :: "char list \<Rightarrow> nat \<Rightarrow> nat \<Rightarrow> 'x::len word \<Rightarrow> 'x word option" where
  "parse_hex_le_loop str 0 i value = Some value"
| "parse_hex_le_loop str (Suc n) i value =
     (case str of [] \<Rightarrow> None
      | a # str1 \<Rightarrow> if a = NUL then Some value else
          (case str1 of [] \<Rightarrow> None
           | b # str2 \<Rightarrow> if b = NUL then Some value
               else if i * 8 < LENGTH('x)
               then parse_hex_le_loop str2 n (Suc i)
                      (value OR push_bit (i * 8) (ucast (hex_byte a b)))
               else None))"

definition parse_hex_le :: "char list \<Rightarrow> nat \<Rightarrow> 'x::len word option" where
  "parse_hex_le str hex_chars = parse_hex_le_loop str (hex_chars div 2) 0 0"

text \<open>Byte \<open>i\<close> of a value, its two digits, and the little-endian image.\<close>

definition byte_of :: "'x::len word \<Rightarrow> nat \<Rightarrow> byte" where
  "byte_of value i = ucast (drop_bit (i * 8) value AND 0xFF)"

definition byte_hex :: "byte \<Rightarrow> string" where
  "byte_hex b = [int_to_hex (drop_bit 4 b), int_to_hex (b AND 0xF)]"

definition encode_hex :: "'x::len word \<Rightarrow> nat \<Rightarrow> string" where
  "encode_hex value n = concat (map (\<lambda>i. byte_hex (byte_of value i)) [0..<n])"

definition calculate_checksum :: "string \<Rightarrow> byte" where
  "calculate_checksum s = foldl (\<lambda>sum c. sum + u8 c) 0 s"

subsection \<open>Digits\<close>

lemma byte_less_16_cases:
  assumes "v < (16 :: byte)"
  obtains n where "n < 16" and "v = word_of_nat n"
proof
  show "unat v < 16" using assms by (simp add: word_less_nat_alt)
  show "v = word_of_nat (unat v)" by simp
qed

lemma int_to_hex_nat: "n < 16 \<Longrightarrow> int_to_hex (word_of_nat n) = hex_char n"
  by (rule less_16_cases, assumption; code_simp)

lemma hex_to_int_hex_char [simp]: "n < 16 \<Longrightarrow> hex_to_int (hex_char n) = word_of_nat n"
  by (rule less_16_cases, assumption; simp add: hex_char_def hex_to_int_def u8_def Let_def)

lemma xdigit_val_hex_to_int: "isxdigit c \<Longrightarrow> xdigit_val c = unat (hex_to_int c)"
  by (auto simp: isxdigit_def hex_to_int_def xdigit_val_def Let_def word_less_nat_alt
      word_le_nat_alt unat_sub unat_plus_if')

lemma hex_to_int_not_xdigit: "\<not> isxdigit c \<Longrightarrow> hex_to_int c = 0"
  by (auto simp: isxdigit_def hex_to_int_def Let_def)

lemma hex_to_int_less: "hex_to_int c < 16"
  by (auto simp: hex_to_int_def Let_def word_less_nat_alt word_le_nat_alt unat_sub unat_plus_if')

lemma hex_to_int_int_to_hex [simp]: "v < 16 \<Longrightarrow> hex_to_int (int_to_hex v) = v"
  by (elim byte_less_16_cases) (simp add: int_to_hex_nat)

lemma int_to_hex_isxdigit: "v < 16 \<Longrightarrow> isxdigit (int_to_hex v)"
  by (elim byte_less_16_cases) (simp add: int_to_hex_nat hex_char_facts)

lemma int_to_hex_neq_NUL: "v < 16 \<Longrightarrow> int_to_hex v \<noteq> NUL"
  by (elim byte_less_16_cases) (simp add: int_to_hex_nat hex_char_facts)

lemma byte_15_mask: "(15 :: byte) = mask 4"
  by (simp add: mask_eq_exp_minus_1)

lemma byte_less_16_iff: "v < (16 :: byte) \<longleftrightarrow> take_bit 4 v = v"
proof -
  have "take_bit 4 v = v \<longleftrightarrow> take_bit 4 (unat v) = unat v"
    by (metis unsigned_take_bit_eq word_unat_eq_iff)
  also have "\<dots> \<longleftrightarrow> unat v < 16"
    by (simp add: take_bit_nat_eq_self_iff)
  finally show ?thesis by (simp add: word_less_nat_alt)
qed

lemma nibble_less [simp]: "drop_bit 4 (b :: byte) < 16" "(b :: byte) AND 15 < 16"
proof -
  have "unat (drop_bit 4 b) < 16"
    using unsigned_less [of b, where 'a = nat]
    by (simp only: unat_drop_bit_eq) (simp add: drop_bit_eq_div)
  then show "drop_bit 4 b < 16" by (simp add: word_less_nat_alt)
  show "b AND 15 < 16"
    by (simp only: byte_less_16_iff byte_15_mask flip: take_bit_eq_mask) simp
qed

lemma hex_byte_digits [simp]:
  "hex_byte (int_to_hex (drop_bit 4 b)) (int_to_hex (b AND 0xF)) = b"
  by (simp add: hex_byte_def, simp only: byte_15_mask flip: take_bit_eq_mask)
    (rule bit_word_eqI; auto simp: bit_simps)

subsection \<open>Big-endian numbers\<close>

lemma push_or_nibble:
  fixes v :: "'x::len word"
  assumes "h < (16 :: byte)"
  shows "push_bit 4 v OR ucast h = 16 * v + ucast h"
proof -
  have h: "bit h n \<Longrightarrow> n < 4" for n
    using assms by (metis byte_less_16_iff bit_take_bit_iff)
  have "push_bit 4 v + ucast h = push_bit 4 v OR ucast h"
    by (rule disjunctive_add_eq_or) (auto intro!: bit_word_eqI simp: bit_simps dest!: h)
  then show ?thesis by (simp add: push_bit_eq_mult mult.commute)
qed

lemma parse_hex_loop_digits:
  fixes v :: "'x::len word"
  assumes "\<forall>c \<in> set s. isxdigit c" and "NUL \<notin> set s"
  shows "parse_hex_loop (s @ r) (length s) v
    = Some (foldl (\<lambda>v c. 16 * v + word_of_nat (xdigit_val c)) v s)"
  using assms
proof (induction s arbitrary: v)
  case (Cons c s)
  then have "push_bit 4 v OR ucast (hex_to_int c) = 16 * v + word_of_nat (xdigit_val c)"
    by (simp add: push_or_nibble hex_to_int_less xdigit_val_hex_to_int)
  with Cons show ?case by auto
qed simp

lemma foldl_hex_word:
  fixes v :: "'x::len word"
  shows "foldl (\<lambda>v c. 16 * v + word_of_nat (xdigit_val c)) (word_of_nat k) s
    = (word_of_nat (foldl (\<lambda>v c. 16 * v + xdigit_val c) k s) :: 'x word)"
proof (induction s arbitrary: k)
  case (Cons c s)
  have "16 * word_of_nat k + word_of_nat (xdigit_val c) = (word_of_nat (16 * k + xdigit_val c) :: 'x word)"
    by simp
  with Cons show ?case by (simp del: of_nat_add of_nat_mult)
qed simp

text \<open>
  A run of digits ended by the length limit or by a NUL is the number it denotes, modulo
  the width.
\<close>

lemma parse_hex_digits:
  assumes "\<forall>c \<in> set s. isxdigit c" and "NUL \<notin> set s"
  shows "parse_hex (s @ r) (length s) = Some (word_of_nat (hex_nat s) :: 'x::len word)"
  using parse_hex_loop_digits [OF assms, of r "0 :: 'x word"] foldl_hex_word [of 0 s]
  by (simp add: parse_hex_def hex_nat_def)

lemma parse_hex_fmt_x [simp]:
  "parse_hex (fmt_x n @ r) (length (fmt_x n)) = Some (word_of_nat n :: 'x::len word)"
  using parse_hex_digits [of "fmt_x n" r] fmt_x_isxdigit by simp

text \<open>Strings of hexadecimal digits, the arguments of most packets.\<close>

definition hexstr :: "string \<Rightarrow> bool" where
  "hexstr s = (\<forall>c \<in> set s. isxdigit c)"

lemma isxdigit_separators [simp]:
  "\<not> isxdigit NUL" "\<not> isxdigit CHR '',''" "\<not> isxdigit CHR '':''" "\<not> isxdigit CHR '';''"
  "\<not> isxdigit CHR ''=''" "\<not> isxdigit CHR ''#''" "\<not> isxdigit CHR ''.''"
  by (simp_all add: isxdigit_def u8_def)

lemma hexstr_notin: "hexstr s \<Longrightarrow> \<not> isxdigit c \<Longrightarrow> c \<notin> set s"
  by (auto simp: hexstr_def)

lemma hexstr_fmt_x [simp]: "hexstr (fmt_x n)"
  using fmt_x_isxdigit by (simp add: hexstr_def)

lemma parse_hexstr [simp]:
  "hexstr s \<Longrightarrow> parse_hex (s @ r) (length s) = Some (word_of_nat (hex_nat s) :: 'x::len word)"
  using parse_hex_digits hexstr_notin [of s NUL] by (simp add: hexstr_def)

lemma parse_hexstr_end [simp]:
  "hexstr s \<Longrightarrow> parse_hex s (length s) = Some (word_of_nat (hex_nat s) :: 'x::len word)"
  using parse_hexstr [of s "[]"] by simp

text \<open>A parse within the string that a pointer has never leaves the array.\<close>

lemma parse_hex_loop_defined:
  "n \<le> length p \<or> NUL \<in> set p \<Longrightarrow> parse_hex_loop p n v \<noteq> None"
  by (induction p n v rule: parse_hex_loop.induct) auto

lemma parse_hex_defined:
  "n \<le> length p \<or> NUL \<in> set p \<Longrightarrow> \<exists>v. parse_hex p n = Some v"
  using parse_hex_loop_defined by (fastforce simp: parse_hex_def)

subsection \<open>Little-endian register images\<close>

lemma length_byte_hex [simp]: "length (byte_hex b) = 2"
  by (simp add: byte_hex_def)

lemma length_encode_hex [simp]: "length (encode_hex v n) = 2 * n"
  by (induction n) (simp_all add: encode_hex_def)

lemma encode_hex_Suc: "encode_hex v (Suc n) = encode_hex v n @ byte_hex (byte_of v n)"
  by (simp add: encode_hex_def)

lemma byte_hex_no_NUL [simp]: "NUL \<notin> set (byte_hex b)"
  using int_to_hex_neq_NUL [OF nibble_less(1), of b] int_to_hex_neq_NUL [OF nibble_less(2), of b]
  by (auto simp: byte_hex_def)

lemma encode_hex_no_NUL [simp]: "NUL \<notin> set (encode_hex v n)"
  by (simp add: encode_hex_def)

text \<open>The value the first \<open>n\<close> bytes of an image stand for.\<close>

lemma or_byte_step:
  fixes v :: "'x::len word"
  shows "take_bit (i * 8) v OR push_bit (i * 8) (ucast (byte_of v i)) = take_bit (Suc i * 8) v"
proof -
  have "(0xFF :: 'x word) = mask 8" by (simp add: mask_eq_exp_minus_1)
  then have "byte_of v i = ucast (take_bit 8 (drop_bit (i * 8) v))"
    by (simp only: byte_of_def take_bit_eq_mask)
  then show ?thesis
    by (intro bit_word_eqI) (auto simp: bit_simps)
qed

lemma parse_hex_le_loop_image:
  fixes v :: "'x::len word"
  assumes "(i + n) * 8 \<le> LENGTH('x)"
  shows "parse_hex_le_loop (concat (map (\<lambda>k. byte_hex (byte_of v k)) [i..<i + n]) @ r) n i
      (take_bit (i * 8) v) = Some (take_bit ((i + n) * 8) v)"
  using assms
proof (induction n arbitrary: i)
  case (Suc n)
  let ?b = "byte_of v i"
  have "[i..<i + Suc n] = i # [Suc i..<Suc i + n]" by (simp add: upt_rec)
  moreover have "int_to_hex (drop_bit 4 ?b) \<noteq> NUL" "int_to_hex (?b AND 0xF) \<noteq> NUL"
    by (simp_all only: int_to_hex_neq_NUL nibble_less not_False_eq_True)
  moreover have "i * 8 < LENGTH('x)" using Suc.prems by simp
  ultimately show ?case
    using Suc.IH [of "Suc i"] Suc.prems by (simp add: byte_hex_def or_byte_step)
qed simp

text \<open>
  The image of \<open>n\<close> bytes reads back as the low \<open>n\<close> bytes of the value, whatever
  follows it in the buffer; at full width that is the value itself.
\<close>

lemma parse_hex_le_encode_hex:
  fixes v :: "'x::len word"
  assumes "n * 8 \<le> LENGTH('x)"
  shows "parse_hex_le (encode_hex v n @ r) (2 * n) = Some (take_bit (n * 8) v)"
  using parse_hex_le_loop_image [where i = 0 and n = n and v = v and r = r] assms
  by (simp add: parse_hex_le_def encode_hex_def)

text \<open>With enough characters and no more digits than a register has, the parse is defined.\<close>

lemma parse_hex_le_loop_defined:
  assumes "2 * n \<le> length p" "(i + n) * 8 \<le> LENGTH('x)"
  shows "\<exists>u. parse_hex_le_loop p n i (v :: 'x::len word) = Some u"
  using assms
proof (induction n arbitrary: p i v)
  case (Suc n)
  then obtain a b q where p: "p = a # b # q" by (cases p; cases "tl p") auto
  with Suc show ?case by auto
qed simp

text \<open>More pairs of digits than a register has bytes: the shift is undefined.\<close>

lemma parse_hex_le_loop_wide:
  assumes "2 * n \<le> length p" and "NUL \<notin> set (take (2 * n) p)"
    and "LENGTH('x) < (i + n) * 8" and "0 < n" and "8 dvd LENGTH('x)"
  shows "parse_hex_le_loop p n i (v :: 'x::len word) = None"
  using assms
proof (induction n arbitrary: p i v)
  case (Suc n)
  then obtain a p' where "p = a # p'" by (cases p) auto
  moreover from this Suc.prems(1) obtain b q where "p' = b # q" by (cases p') auto
  ultimately have p: "p = a # b # q" by simp
  show ?case
  proof (cases n)
    case 0
    with Suc.prems p show ?thesis by (auto simp: not_less elim!: dvdE)
  next
    case (Suc m)
    then have "2 * n \<le> length q" "NUL \<notin> set (take (2 * n) q)" "0 < n" "a \<noteq> NUL" "b \<noteq> NUL"
      using Suc.prems(1,2) by (auto simp: p)
    moreover have "LENGTH('x) < (Suc i + n) * 8" using Suc.prems(3) by simp
    ultimately have "parse_hex_le_loop q n (Suc i) w = None" for w :: "'x word"
      using Suc.prems(5) by (intro Suc.IH)
    then show ?thesis by (simp only: p parse_hex_le_loop.simps list.case if_cancel split: if_split)
      (simp add: \<open>a \<noteq> NUL\<close> \<open>b \<noteq> NUL\<close>)
  qed
qed simp

subsection \<open>Checksum\<close>

lemma foldl_checksum: "foldl (\<lambda>sum c. sum + u8 c) k s = k + sum_list (map u8 s)"
  by (induction s arbitrary: k) (simp_all add: add.assoc)

lemma checksum_sum: "calculate_checksum s = sum_list (map u8 s)"
  by (simp add: calculate_checksum_def foldl_checksum)

lemma checksum_append [simp]:
  "calculate_checksum (s @ t) = calculate_checksum s + calculate_checksum t"
  by (simp add: checksum_sum)

lemma checksum_single [simp]:
  "calculate_checksum [] = 0" "calculate_checksum (c # s) = u8 c + calculate_checksum s"
  by (simp_all add: checksum_sum)

lemma checksum_nat: "unat (calculate_checksum s) = (\<Sum>c\<leftarrow>s. of_char c) mod 256"
proof (induction s)
  case (Cons c s)
  have "unat (calculate_checksum (c # s)) = (of_char c + unat (calculate_checksum s)) mod 256"
    by (simp add: unat_word_ariths(1))
  also have "\<dots> = (of_char c + (\<Sum>c\<leftarrow>s. of_char c)) mod 256"
    by (simp only: Cons.IH mod_add_right_eq)
  finally show ?case by simp
qed simp

end
