(* ===== verification/Stub_State.thy ===== *)
theory Stub_State
  imports Hex_Codec
begin

text \<open>
  The data of src/src/gdb_stub.h: the connection state \<open>gdb_stub_t\<close>, breakpoint and
  watchpoint slots, the debugger context \<open>gdb_context_t\<close>, the callback table
  \<open>gdb_callbacks_t\<close>, and the state a command handler acts on.

  A fixed array that is only indexed is a function from \<open>nat\<close>, with the array bound
  proved where it is indexed; \<open>packet_buffer\<close>, which pointers walk through, is a list
  of GDB_BUFFER_SIZE characters. The address and register types have the width \<open>'x\<close>.
\<close>

abbreviation (input) GDB_BUFFER_SIZE :: nat where "GDB_BUFFER_SIZE \<equiv> 4096"
abbreviation (input) MAX_BREAKPOINTS :: nat where "MAX_BREAKPOINTS \<equiv> 64"
abbreviation (input) MAX_WATCHPOINTS :: nat where "MAX_WATCHPOINTS \<equiv> 32"
abbreviation (input) GDB_STUB_PID :: int where "GDB_STUB_PID \<equiv> 1"

subsection \<open>The connection\<close>

record gdb_stub =
  socket_fd :: int
  client_fd :: int
  port :: "16 word"
  connected :: bool
  enabled :: bool
  no_ack_mode :: bool
  consecutive_failures :: int
  packet_buffer :: "char list"
  packet_size :: int

text \<open>
  What is behind \<open>client_fd\<close>: the bytes the client has still to be read
  (\<open>read\<close> fails or reports the end of the stream once they are used up), the bytes
  written to it so far, and how the operating system answers the coming calls of
  \<open>write\<close>: the number of bytes it is ready to take, or a negative number for an
  error; once the list is used up it takes everything.
\<close>

record link =
  rx :: "char list"
  tx :: "char list"
  wsched :: "int list"

subsection \<open>Breakpoints and watchpoints\<close>

record (overloaded) 'x breakpoint =
  bp_addr :: "'x::len word"
  bp_enabled :: bool

datatype watchpoint_type = WATCHPOINT_WRITE | WATCHPOINT_READ | WATCHPOINT_ACCESS

record (overloaded) 'x watchpoint =
  wp_addr :: "'x::len word"
  wp_len :: "'x word"
  wp_type :: watchpoint_type
  wp_enabled :: bool

text \<open>The cast of 2, 3 or 4 to \<open>watchpoint_type_t\<close>.\<close>

definition watchpoint_type_of :: "int \<Rightarrow> watchpoint_type" where
  "watchpoint_type_of v = (if v = 2 then WATCHPOINT_WRITE else if v = 3 then WATCHPOINT_READ
     else WATCHPOINT_ACCESS)"

subsection \<open>The debugger context\<close>

record (overloaded) 'x gdb_context =
  stub :: gdb_stub
  breakpoints :: "nat \<Rightarrow> 'x::len breakpoint"
  breakpoint_count :: nat
  watchpoints :: "nat \<Rightarrow> 'x watchpoint"
  watchpoint_count :: nat
  single_step :: bool
  should_stop :: bool
  last_watchpoint_addr :: "'x word"
  last_stop_signal :: int
  breakpoint_hit :: bool
  current_thread :: int
  continue_thread :: int
  stop_thread :: int
  multiprocess_active :: bool

subsection \<open>The callbacks and the state a handler acts on\<close>

text \<open>
  A handler works on the context, the connection and the simulator. The emulator's
  callbacks reach the context through a global pointer, so a callback that changes state
  is a function on all three. The callbacks that only read (registers, program counter,
  hart numbers) return a value.
\<close>

record (overloaded) ('x, 's) world =
  w_ctx :: "'x::len gdb_context"
  w_link :: link
  w_sim :: 's

record (overloaded) ('x, 's) gdb_callbacks =
  cb_read_reg :: "('x::len, 's) world \<Rightarrow> int \<Rightarrow> 'x word"
  cb_write_reg :: "int \<Rightarrow> 'x word \<Rightarrow> ('x, 's) world \<Rightarrow> ('x, 's) world"
  cb_read_mem :: "'x word \<Rightarrow> int \<Rightarrow> ('x, 's) world \<Rightarrow> 'x word \<times> ('x, 's) world"
  cb_write_mem :: "'x word \<Rightarrow> 'x word \<Rightarrow> int \<Rightarrow> ('x, 's) world \<Rightarrow> ('x, 's) world"
  cb_get_pc :: "('x, 's) world \<Rightarrow> 'x word"
  cb_set_pc :: "'x word \<Rightarrow> ('x, 's) world \<Rightarrow> ('x, 's) world"
  cb_single_step :: "('x, 's) world \<Rightarrow> ('x, 's) world"
  cb_is_running :: "('x, 's) world \<Rightarrow> bool"
  cb_reset :: "(('x, 's) world \<Rightarrow> ('x, 's) world) option"
  cb_resume :: "(('x, 's) world \<Rightarrow> ('x, 's) world) option"
  cb_get_num_harts :: "(('x, 's) world \<Rightarrow> int) option"
  cb_set_focus_hart :: "(int \<Rightarrow> ('x, 's) world \<Rightarrow> ('x, 's) world) option"
  cb_get_focus_hart :: "(('x, 's) world \<Rightarrow> int) option"
  cb_get_stop_hart :: "(('x, 's) world \<Rightarrow> int) option"
  cb_halt_cpus :: "(('x, 's) world \<Rightarrow> ('x, 's) world) option"

text \<open>
  The context after \<open>memset(ctx, 0, sizeof(*ctx))\<close>. The slots of both tables start as
  zero bytes; no operation reads a slot at or above the count.
\<close>

definition zero_context :: "'x::len gdb_context" where
  "zero_context = \<lparr>stub = \<lparr>socket_fd = 0, client_fd = 0, port = 0, connected = False,
       enabled = False, no_ack_mode = False, consecutive_failures = 0,
       packet_buffer = replicate GDB_BUFFER_SIZE NUL, packet_size = 0\<rparr>,
     breakpoints = (\<lambda>_. \<lparr>bp_addr = 0, bp_enabled = False\<rparr>), breakpoint_count = 0,
     watchpoints = (\<lambda>_. \<lparr>wp_addr = 0, wp_len = 0, wp_type = WATCHPOINT_WRITE, wp_enabled = False\<rparr>),
     watchpoint_count = 0, single_step = False, should_stop = False, last_watchpoint_addr = 0,
     last_stop_signal = 0, breakpoint_hit = False, current_thread = 0, continue_thread = 0,
     stop_thread = 0, multiprocess_active = False\<rparr>"

text \<open>Updates of a part of the context.\<close>

abbreviation upd_ctx ::
    "('x::len gdb_context \<Rightarrow> 'x gdb_context) \<Rightarrow> ('x, 's) world \<Rightarrow> ('x, 's) world" where
  "upd_ctx f w \<equiv> w_ctx_update f w"

abbreviation w_stub :: "('x::len, 's) world \<Rightarrow> gdb_stub" where
  "w_stub w \<equiv> stub (w_ctx w)"

abbreviation w_buf :: "('x::len, 's) world \<Rightarrow> char list" where
  "w_buf w \<equiv> packet_buffer (w_stub w)"

abbreviation upd_buf :: "(char list \<Rightarrow> char list) \<Rightarrow> ('x::len, 's) world \<Rightarrow> ('x, 's) world" where
  "upd_buf f w \<equiv> w_ctx_update (stub_update (packet_buffer_update f)) w"

text \<open>A call through a nullable function pointer that does nothing when it is null.\<close>

definition call_opt :: "('w \<Rightarrow> 'w) option \<Rightarrow> 'w \<Rightarrow> 'w" where
  "call_opt f w = (case f of None \<Rightarrow> w | Some g \<Rightarrow> g w)"

text \<open>
  An open connection whose packet buffer holds \<open>p\<close>, with nothing else done yet, for
  concrete instances.
\<close>

definition packet_world :: "char list \<Rightarrow> 's \<Rightarrow> ('x::len, 's) world" where
  "packet_world p s = \<lparr>w_ctx = stub_update (\<lambda>g. g\<lparr>packet_buffer := p, connected := True\<rparr>)
       (zero_context\<lparr>current_thread := 1, continue_thread := - 1\<rparr>),
     w_link = \<lparr>rx = [], tx = [], wsched = []\<rparr>, w_sim = s\<rparr>"

lemma packet_world_simps [simp]:
  "w_buf (packet_world p s) = p" "w_sim (packet_world p s) = s"
  "w_link (packet_world p s) = \<lparr>rx = [], tx = [], wsched = []\<rparr>"
  "current_thread (w_ctx (packet_world p s)) = 1"
  by (simp_all add: packet_world_def)

end
