(* ===== verification/Packet_Link.thy ===== *)
theory Packet_Link
  imports Stub_State
begin

text \<open>
  The packet layer of src/src/gdb_stub.c: \<open>write_all\<close>, \<open>send_packet\<close>,
  \<open>receive_packet\<close> and the life cycle of the connection (\<open>gdb_stub_init\<close>,
  \<open>gdb_stub_accept\<close>, \<open>gdb_stub_close\<close>). The socket calls are parameters or part
  of the \<open>link\<close> state; the framing, the checksum, the acknowledgements and the
  failure counter are the code's.
\<close>

subsection \<open>Writing\<close>

text \<open>One call \<open>write(fd, p, len)\<close>: its result and the bytes that went out.\<close>

definition os_write :: "string \<Rightarrow> link \<Rightarrow> int \<times> link" where
  "os_write p l = (case wsched l of
       [] \<Rightarrow> (int (length p), l\<lparr>tx := tx l @ p\<rparr>)
     | n # ns \<Rightarrow> if n \<le> 0 then (n, l\<lparr>wsched := ns\<rparr>)
         else (min n (int (length p)), l\<lparr>tx := tx l @ take (nat n) p, wsched := ns\<rparr>))"

lemma os_write_pos: "os_write p l = (n, l') \<Longrightarrow> 0 < n \<Longrightarrow> nat n \<le> length p"
  by (auto simp: os_write_def split: list.splits if_splits)

lemma os_write_pos_tx: "os_write p l = (n, l') \<Longrightarrow> 0 < n \<Longrightarrow> tx l' = tx l @ take (nat n) p \<and> rx l' = rx l"
  by (auto simp: os_write_def min_def split: list.splits if_splits)

lemma os_write_fail_tx: "os_write p l = (n, l') \<Longrightarrow> n \<le> 0 \<Longrightarrow> p \<noteq> [] \<Longrightarrow> tx l' = tx l \<and> rx l' = rx l"
  by (auto simp: os_write_def min_def split: list.splits if_splits)

function write_all :: "string \<Rightarrow> link \<Rightarrow> int \<times> link" where
  "write_all p l = (if p = [] then (0, l)
     else let (n, l') = os_write p l in
       if n \<le> 0 then (- 1, l') else write_all (drop (nat n) p) l')"
  by pat_completeness auto
termination
  by (relation "measure (\<lambda>(p, l). length p)") auto

declare write_all.simps [simp del]

text \<open>
  Either everything was sent and the result is 0, or the result is -1 and a proper prefix
  was sent.
\<close>

lemma write_all_cases:
  "fst (write_all p l) = 0 \<and> tx (snd (write_all p l)) = tx l @ p \<or>
   fst (write_all p l) = - 1 \<and> (\<exists>k < length p. tx (snd (write_all p l)) = tx l @ take k p)"
proof (induction p l rule: write_all.induct)
  case (1 p l)
  show ?case
  proof (cases "p = []")
    case False
    obtain n l' where w: "os_write p l = (n, l')" by fastforce
    show ?thesis
    proof (cases "n \<le> 0")
      case True
      with False w os_write_fail_tx [OF w] show ?thesis
        by (subst (1 2 3 4) write_all.simps) (auto intro!: exI [of _ 0])
    next
      case pos: False
      then have tx: "tx l' = tx l @ take (nat n) p" and n: "nat n \<le> length p"
        using os_write_pos [OF w] os_write_pos_tx [OF w] by simp_all
      have eq: "write_all p l = write_all (drop (nat n) p) l'"
        using False pos w by (subst write_all.simps) simp
      have IH: "fst (write_all (drop (nat n) p) l') = 0 \<and>
            tx (snd (write_all (drop (nat n) p) l')) = tx l' @ drop (nat n) p \<or>
          fst (write_all (drop (nat n) p) l') = - 1 \<and>
            (\<exists>k < length (drop (nat n) p). tx (snd (write_all (drop (nat n) p) l'))
               = tx l' @ take k (drop (nat n) p))"
        by (rule "1" [OF False w [symmetric] refl]) (use pos in simp_all)
      then show ?thesis
      proof
        assume a: "fst (write_all (drop (nat n) p) l') = - 1 \<and>
            (\<exists>k < length (drop (nat n) p). tx (snd (write_all (drop (nat n) p) l'))
               = tx l' @ take k (drop (nat n) p))"
        then obtain k where "k < length p - nat n" and
          "tx (snd (write_all p l)) = tx l @ take (nat n + k) p"
          by (auto simp: eq tx take_add)
        then show ?thesis using a n by (intro disjI2) (auto simp: eq intro!: exI [of _ "nat n + k"])
      qed (simp add: eq tx)
    qed
  qed (simp add: write_all.simps)
qed

lemma write_all_rx [frame_simps]: "rx (snd (write_all p l)) = rx l"
proof (induction p l rule: write_all.induct)
  case (1 p l)
  obtain n l' where w: "os_write p l = (n, l')" by fastforce
  then have "rx l' = rx l" by (auto simp: os_write_def split: list.splits if_splits)
  with 1 w show ?case by (subst write_all.simps) auto
qed

text \<open>The operating system taking what it is given, in pieces or at once.\<close>

lemma write_all_ok:
  "\<forall>n \<in> set (wsched l). 0 < n \<Longrightarrow> fst (write_all p l) = 0"
proof (induction p l rule: write_all.induct)
  case (1 p l)
  obtain n l' where w: "os_write p l = (n, l')" by fastforce
  show ?case
  proof (cases "p = []")
    case False
    with 1(2) w have "0 < n" "\<forall>n \<in> set (wsched l'). 0 < n"
      by (auto simp: os_write_def split: list.splits if_splits)
    with 1(1) [OF False w [symmetric] refl] w False show ?thesis by (subst write_all.simps) simp
  qed (simp add: write_all.simps)
qed

lemma write_all_nil_sched: "wsched l = [] \<Longrightarrow> write_all p l = (0, l\<lparr>tx := tx l @ p\<rparr>)"
  by (subst write_all.simps, subst write_all.simps) (simp add: os_write_def)

subsection \<open>Sending a packet\<close>

definition frame :: "string \<Rightarrow> string" where
  "frame data = ''$'' @ data @ ''#'' @ fmt_0x 2 (unat (calculate_checksum data))"

definition send_packet :: "string \<Rightarrow> link \<Rightarrow> int \<times> link" where
  "send_packet data l =
     (let packet = frame data in
      if length packet \<ge> GDB_BUFFER_SIZE then (- 1, l)
      else write_all packet l)"

text \<open>The handlers ignore the result.\<close>

definition reply :: "string \<Rightarrow> ('x::len, 's) world \<Rightarrow> ('x, 's) world" where
  "reply data w = w\<lparr>w_link := snd (send_packet data (w_link w))\<rparr>"

lemma length_fmt_x_byte: "length (fmt_x (unat (b :: byte))) \<le> 2"
  using length_fmt_x [of 2 "unat b"] unsigned_less [of b, where 'a = nat] by simp

lemma length_frame [simp]: "length (frame data) = length data + 4"
  using length_fmt_x_byte by (simp add: frame_def fmt_0x_def Let_def)

lemma reply_frames [frame_simps]:
  "w_ctx (reply data w) = w_ctx w" "w_sim (reply data w) = w_sim w"
  "rx (w_link (reply data w)) = rx (w_link w)"
  by (simp_all add: reply_def send_packet_def Let_def write_all_rx)

lemma send_packet_ok:
  assumes "wsched l = []" "length data < 4092"
  shows "send_packet data l = (0, l\<lparr>tx := tx l @ frame data\<rparr>)"
  using assms by (simp add: send_packet_def write_all_nil_sched)

lemma send_packet_too_long: "4092 \<le> length data \<Longrightarrow> send_packet data l = (- 1, l)"
  by (simp add: send_packet_def)

lemma reply_ok:
  assumes "wsched (w_link w) = []" "length data < 4092"
  shows "reply data w = w\<lparr>w_link := (w_link w)\<lparr>tx := tx (w_link w) @ frame data\<rparr>\<rparr>"
  using assms by (simp add: reply_def send_packet_ok)

subsection \<open>Receiving a packet\<close>

datatype recv_state = Wait_dollar | Read_data | Read_checksum

text \<open>
  The loop over the incoming bytes with the locals \<open>state\<close>, \<open>index\<close>,
  \<open>checksum_expected\<close> and \<open>checksum_received\<close>. The end of the stream is a
  failed \<open>read\<close>.
\<close>

fun receive_loop :: "char list \<Rightarrow> recv_state \<Rightarrow> nat \<Rightarrow> byte \<Rightarrow> byte \<Rightarrow> gdb_stub \<Rightarrow> link \<Rightarrow>
    int \<times> gdb_stub \<times> link" where
  "receive_loop [] state index expected received gs l =
     (- 1, gs\<lparr>consecutive_failures := consecutive_failures gs + 1\<rparr>, l\<lparr>rx := []\<rparr>)"
| "receive_loop (c # cs) Wait_dollar index expected received gs l =
     (if c = CHR ''$'' then receive_loop cs Read_data 0 expected received gs l
      else if c = CHR 0x03 then
        (0, gs\<lparr>packet_buffer := (packet_buffer gs)[0 := CHR 0x03], packet_size := 1\<rparr>, l\<lparr>rx := cs\<rparr>)
      else receive_loop cs Wait_dollar index expected received gs l)"
| "receive_loop (c # cs) Read_data index expected received gs l =
     (if c = CHR ''#'' then
        let buf = (packet_buffer gs)[index := NUL] in
        receive_loop cs Read_checksum 0 (calculate_checksum (take index buf)) received
          (gs\<lparr>packet_buffer := buf, packet_size := int index\<rparr>) l
      else if index < GDB_BUFFER_SIZE - 1 then
        receive_loop cs Read_data (index + 1) expected received
          (gs\<lparr>packet_buffer := (packet_buffer gs)[index := c]\<rparr>) l
      else receive_loop cs Read_data index expected received gs l)"
| "receive_loop (c # cs) Read_checksum index expected received gs l =
     (let received' = push_bit 4 received OR hex_to_int c;
          l' = l\<lparr>rx := cs\<rparr>;
          failed = gs\<lparr>consecutive_failures := consecutive_failures gs + 1\<rparr> in
      if index + 1 = 2 then
        if received' \<noteq> expected then
          (- 1, failed, if no_ack_mode gs then l' else snd (os_write ''-'' l'))
        else if no_ack_mode gs then (0, gs\<lparr>consecutive_failures := 0\<rparr>, l')
        else let (n, l'') = os_write ''+'' l' in
          if n < 0 then (- 1, failed, l'')
          else (0, gs\<lparr>consecutive_failures := 0\<rparr>, l'')
      else receive_loop cs Read_checksum (index + 1) expected received' gs l)"

definition receive_packet :: "gdb_stub \<Rightarrow> link \<Rightarrow> int \<times> gdb_stub \<times> link" where
  "receive_packet gs l = receive_loop (rx l) Wait_dollar 0 0 0 gs l"

text \<open>
  \<open>index\<close> stays inside the buffer, so every store to \<open>packet_buffer\<close> is in bounds:
  a loop that checks each store gives the same result.
\<close>

lemma receive_loop_length:
  "length (packet_buffer (fst (snd (receive_loop cs st i e r gs l)))) = length (packet_buffer gs)"
  by (induction cs st i e r gs l rule: receive_loop.induct) (simp_all add: Let_def split: prod.split)

lemma receive_packet_length [frame_simps]:
  "length (packet_buffer (fst (snd (receive_packet gs l)))) = length (packet_buffer gs)"
  by (simp add: receive_packet_def receive_loop_length)

lemma receive_loop_connected:
  "connected (fst (snd (receive_loop cs st i e r gs l))) = connected gs"
  by (induction cs st i e r gs l rule: receive_loop.induct) (simp_all add: Let_def split: prod.split)

lemma receive_packet_connected [frame_simps]:
  "connected (fst (snd (receive_packet gs l))) = connected gs"
  by (simp add: receive_packet_def receive_loop_connected)

lemma receive_loop_skip:
  assumes "CHR ''$'' \<notin> set junk" "CHR 0x03 \<notin> set junk"
  shows "receive_loop (junk @ cs) Wait_dollar i e r gs l = receive_loop cs Wait_dollar i e r gs l"
  using assms by (induction junk) auto

lemma list_update_store:
  "i < length buf \<Longrightarrow> take i (buf[i := c]) @ d # drop (Suc i + k) (buf[i := c])
     = take i buf @ d # drop (Suc i + k) buf"
  by simp

lemma receive_loop_data:
  assumes "CHR ''#'' \<notin> set d" "i + length d \<le> 4095" "length (packet_buffer gs) = 4096"
  shows "receive_loop (d @ CHR ''#'' # cs) Read_data i e r gs l =
    receive_loop cs Read_checksum 0 (calculate_checksum (take i (packet_buffer gs) @ d)) r
      (gs\<lparr>packet_buffer := take i (packet_buffer gs) @ d @ NUL #
               drop (i + length d + 1) (packet_buffer gs),
             packet_size := int (i + length d)\<rparr>) l"
  using assms
proof (induction d arbitrary: i gs)
  case Nil
  then show ?case by (simp add: upd_conv_take_nth_drop Let_def)
next
  case (Cons c d)
  let ?gs = "gs\<lparr>packet_buffer := (packet_buffer gs)[i := c]\<rparr>"
  from Cons.prems have i: "i < 4095" and "c \<noteq> CHR ''#''" by auto
  then have "receive_loop ((c # d) @ CHR ''#'' # cs) Read_data i e r gs l
      = receive_loop (d @ CHR ''#'' # cs) Read_data (i + 1) e r ?gs l" by simp
  moreover have "take (i + 1) ((packet_buffer gs)[i := c]) = take i (packet_buffer gs) @ [c]"
    using i Cons.prems(3) by (simp add: take_Suc_conv_app_nth)
  ultimately show ?case
    using Cons.IH [of "i + 1" ?gs] Cons.prems i by (simp add: add.commute)
qed

lemma fmt_0x_byte:
  assumes "n < 256"
  shows "fmt_0x 2 n = [hex_char (n div 16), hex_char (n mod 16)]"
proof (cases "n < 16")
  case True
  then show ?thesis by (simp add: fmt_0x_def fmt_x_digit hex_char_def [of 0])
next
  case False
  moreover from assms have "n div 16 < 16" by simp
  ultimately show ?thesis by (simp add: fmt_0x_def fmt_x_more fmt_x_digit)
qed

lemma received_checksum:
  assumes "n < 256"
  shows "push_bit 4 (push_bit 4 (0 :: byte) OR hex_to_int (hex_char (n div 16)))
    OR hex_to_int (hex_char (n mod 16)) = word_of_nat n"
proof -
  have d: "n div 16 < 16" "n mod 16 < 16" using assms by simp_all
  have m: "(word_of_nat (n mod 16) :: byte) < 16"
    using d(2) by (simp add: word_less_nat_alt unat_of_nat)
  have "push_bit 4 (word_of_nat (n div 16) :: byte) OR word_of_nat (n mod 16)
      = 16 * word_of_nat (n div 16) + word_of_nat (n mod 16)"
    using push_or_nibble [OF m, of "word_of_nat (n div 16) :: byte"] by simp
  also have "\<dots> = word_of_nat (16 * (n div 16) + n mod 16)"
    by (simp only: of_nat_add of_nat_mult of_nat_numeral)
  finally show ?thesis by (simp add: d)
qed

text \<open>The two checksum digits decide between acceptance and rejection.\<close>

definition accept_packet :: "gdb_stub \<Rightarrow> link \<Rightarrow> int \<times> gdb_stub \<times> link" where
  "accept_packet gs l =
     (if no_ack_mode gs then (0, gs\<lparr>consecutive_failures := 0\<rparr>, l)
      else let (n, l') = os_write ''+'' l in
        if n < 0 then (- 1, gs\<lparr>consecutive_failures := consecutive_failures gs + 1\<rparr>, l')
        else (0, gs\<lparr>consecutive_failures := 0\<rparr>, l'))"

definition reject_packet :: "gdb_stub \<Rightarrow> link \<Rightarrow> int \<times> gdb_stub \<times> link" where
  "reject_packet gs l =
     (- 1, gs\<lparr>consecutive_failures := consecutive_failures gs + 1\<rparr>,
      if no_ack_mode gs then l else snd (os_write ''-'' l))"

lemma receive_loop_checksum:
  "receive_loop (a # b # cs) Read_checksum 0 e 0 gs l =
     (if push_bit 4 (push_bit 4 0 OR hex_to_int a) OR hex_to_int b = e
      then accept_packet gs (l\<lparr>rx := cs\<rparr>) else reject_packet gs (l\<lparr>rx := cs\<rparr>))"
  by (simp add: accept_packet_def reject_packet_def Let_def split: prod.split)

text \<open>The packet buffer after a packet with data \<open>d\<close>: what follows the NUL is old.\<close>

definition stored :: "string \<Rightarrow> gdb_stub \<Rightarrow> gdb_stub" where
  "stored d gs = gs\<lparr>packet_buffer := d @ NUL # drop (length d + 1) (packet_buffer gs),
     packet_size := int (length d)\<rparr>"

lemma receive_packet_gen:
  assumes "rx l = junk @ CHR ''$'' # d @ CHR ''#'' # a # b # rest"
    and "CHR ''$'' \<notin> set junk" "CHR 0x03 \<notin> set junk"
    and "CHR ''#'' \<notin> set d" "length d \<le> 4095" "length (packet_buffer gs) = 4096"
  shows "receive_packet gs l =
    (if push_bit 4 (push_bit 4 0 OR hex_to_int a) OR hex_to_int b = calculate_checksum d
     then accept_packet (stored d gs) (l\<lparr>rx := rest\<rparr>)
     else reject_packet (stored d gs) (l\<lparr>rx := rest\<rparr>))"
  using assms
  by (simp add: receive_packet_def receive_loop_skip receive_loop_data receive_loop_checksum
      stored_def del: receive_loop.simps(4))

text \<open>Every well-framed packet that fits is accepted and stored as it was sent.\<close>

lemma receive_frame:
  assumes "rx l = junk @ frame d @ rest"
    and "CHR ''$'' \<notin> set junk" "CHR 0x03 \<notin> set junk"
    and "CHR ''#'' \<notin> set d" "length d \<le> 4095" "length (packet_buffer gs) = 4096"
  shows "receive_packet gs l = accept_packet (stored d gs) (l\<lparr>rx := rest\<rparr>)"
proof -
  define n where "n = unat (calculate_checksum d)"
  have n: "n < 256" using unsigned_less [of "calculate_checksum d", where 'a = nat] by (simp add: n_def)
  have "rx l = junk @ CHR ''$'' # d @ CHR ''#'' # hex_char (n div 16) # hex_char (n mod 16) # rest"
    using assms(1) by (simp add: frame_def fmt_0x_byte n flip: n_def)
  moreover have "word_of_nat n = calculate_checksum d" by (simp add: n_def)
  ultimately show ?thesis
    using receive_packet_gen assms(2-) received_checksum [OF n] by metis
qed

text \<open>The interrupt byte outside a packet.\<close>

lemma receive_interrupt:
  assumes "rx l = junk @ CHR 0x03 # rest" "CHR ''$'' \<notin> set junk" "CHR 0x03 \<notin> set junk"
  shows "receive_packet gs l =
    (0, gs\<lparr>packet_buffer := (packet_buffer gs)[0 := CHR 0x03], packet_size := 1\<rparr>, l\<lparr>rx := rest\<rparr>)"
  using assms by (simp add: receive_packet_def receive_loop_skip)

text \<open>A result other than 0 always counts as a failure.\<close>

lemma receive_loop_result:
  "fst (receive_loop cs st i e r gs l) = 0 \<or> fst (receive_loop cs st i e r gs l) = - 1 \<and>
     consecutive_failures (fst (snd (receive_loop cs st i e r gs l))) = consecutive_failures gs + 1"
  by (induction cs st i e r gs l rule: receive_loop.induct) (simp_all add: Let_def split: prod.split)

lemma accept_packet_ok:
  "wsched l = [] \<Longrightarrow> accept_packet gs l = (0, gs\<lparr>consecutive_failures := 0\<rparr>,
     if no_ack_mode gs then l else l\<lparr>tx := tx l @ ''+''\<rparr>)"
  by (simp add: accept_packet_def os_write_def)

subsection \<open>Opening and closing the connection\<close>

text \<open>What is printed on the way.\<close>

definition listening_text :: "16 word \<Rightarrow> string" where
  "listening_text p = text_line (''GDB stub listening on port '' @ fmt_nat (unat p))"

definition waiting_text :: string where
  "waiting_text = text_line ''Waiting for GDB connection...''"

definition client_text :: "string \<times> 16 word \<Rightarrow> string" where
  "client_text client = text_line (''GDB connected from '' @ fst client @ '':'' @ fmt_nat (unat (snd client)))"

text \<open>
  \<open>gdb_stub_init\<close>: the results of \<open>socket\<close>, \<open>bind\<close> and \<open>listen\<close> are
  arguments; the result is the return value, the descriptors closed, what is printed and the
  context.
\<close>

definition gdb_stub_init ::
    "16 word \<Rightarrow> int \<Rightarrow> int \<Rightarrow> int \<Rightarrow> int \<times> int list \<times> string \<times> 'x::len gdb_context" where
  "gdb_stub_init p sock bind_result listen_result =
     (let ctx0 = zero_context;
          ctx1 = ctx0\<lparr>stub := (stub ctx0)\<lparr>port := p, socket_fd := - 1, client_fd := - 1\<rparr>,
            current_thread := 1, continue_thread := - 1, stop_thread := 0\<rparr>;
          ctx2 = ctx1\<lparr>stub := (stub ctx1)\<lparr>socket_fd := sock\<rparr>\<rparr> in
      if sock < 0 then (- 1, [], [], ctx2)
      else if bind_result < 0 then (- 1, [sock], [], ctx2)
      else if listen_result < 0 then (- 1, [sock], [], ctx2)
      else (0, [], listening_text p, ctx2\<lparr>stub := (stub ctx2)\<lparr>enabled := True\<rparr>\<rparr>))"

text \<open>
  \<open>gdb_stub_accept\<close>: the result of \<open>accept\<close> is an argument, and so is what \<open>inet_ntoa\<close>
  and \<open>ntohs\<close> make of the address of the client.
\<close>

definition gdb_stub_accept ::
    "int \<Rightarrow> string \<times> 16 word \<Rightarrow> 'x::len gdb_context \<Rightarrow> int \<times> string \<times> 'x gdb_context" where
  "gdb_stub_accept fd client ctx =
     (let ctx1 = ctx\<lparr>stub := (stub ctx)\<lparr>client_fd := fd\<rparr>\<rparr> in
      if fd < 0 then (- 1, waiting_text, ctx1)
      else (0, waiting_text @ client_text client, ctx1\<lparr>stub := (stub ctx1)\<lparr>connected := True\<rparr>\<rparr>))"

definition gdb_stub_close :: "'x::len gdb_context \<Rightarrow> int list \<times> 'x gdb_context" where
  "gdb_stub_close ctx =
     (let c = client_fd (stub ctx); s = socket_fd (stub ctx) in
      ((if c \<ge> 0 then [c] else []) @ (if s \<ge> 0 then [s] else []),
       ctx\<lparr>stub := (stub ctx)\<lparr>client_fd := if c \<ge> 0 then - 1 else c,
         socket_fd := if s \<ge> 0 then - 1 else s, connected := False, enabled := False\<rparr>\<rparr>))"

subsection \<open>Properties of the packet layer\<close>

text \<open>
  C2: A packet that \<open>send_packet\<close> puts on the wire is what \<open>receive_packet\<close>
  reads back: noise without a start or an interrupt byte may come first, the data ends up
  NUL-terminated in the packet buffer with its size, the failure counter is cleared, the
  packet is acknowledged unless acknowledgements are off, and what follows stays unread.
\<close>

lemma packet_round_trip:
  assumes "wsched l = []" "length d < 4092" "CHR ''#'' \<notin> set d"
    and "rx l' = junk @ drop (length (tx l)) (tx (snd (send_packet d l))) @ rest" "wsched l' = []"
    and "CHR ''$'' \<notin> set junk" "CHR 0x03 \<notin> set junk" "length (packet_buffer gs) = 4096"
  shows "\<exists>gs' l''. receive_packet gs l' = (0, gs', l'') \<and>
    take (length d + 1) (packet_buffer gs') = d @ [NUL] \<and> packet_size gs' = int (length d) \<and>
    length (packet_buffer gs') = 4096 \<and> consecutive_failures gs' = 0 \<and>
    rx l'' = rest \<and> tx l'' = tx l' @ (if no_ack_mode gs then '''' else ''+'')"
proof -
  have "rx l' = junk @ frame d @ rest" using assms by (simp add: send_packet_ok)
  then have "receive_packet gs l' = accept_packet (stored d gs) (l'\<lparr>rx := rest\<rparr>)"
    using assms by (intro receive_frame) simp_all
  then show ?thesis using assms by (simp add: accept_packet_ok stored_def)
qed

lemma packet_round_trip_witness:
  "\<exists>gs' l''. receive_packet (stub (zero_context :: 32 gdb_context))
       \<lparr>rx = ''ab'' @ drop 1 (tx (snd (send_packet ''g'' \<lparr>rx = [], tx = ''+'', wsched = []\<rparr>))) @ ''x'',
        tx = ''+'', wsched = []\<rparr> = (0, gs', l'') \<and> take 2 (packet_buffer gs') = ''g'' @ [NUL] \<and> tx l'' = ''++''"
  using packet_round_trip [of "\<lparr>rx = [], tx = ''+'', wsched = []\<rparr>" "''g''"
      "\<lparr>rx = ''ab'' @ drop 1 (tx (snd (send_packet ''g'' \<lparr>rx = [], tx = ''+'', wsched = []\<rparr>))) @ ''x'',
        tx = ''+'', wsched = []\<rparr>" "''ab''" "''x''" "stub (zero_context :: 32 gdb_context)"]
  by (auto simp: zero_context_def numeral_2_eq_2)

text \<open>
  C22: A packet whose two checksum digits do not match its data is refused: the result is
  -1, the failure is counted, a \<open>-\<close> is sent unless acknowledgements are off, and
  reading resumes after the digits.
\<close>

lemma corrupt_packet_refused:
  assumes "rx l = junk @ CHR ''$'' # d @ CHR ''#'' # a # b # rest" "wsched l = []"
    and "CHR ''$'' \<notin> set junk" "CHR 0x03 \<notin> set junk"
    and "CHR ''#'' \<notin> set d" "length d \<le> 4095" "length (packet_buffer gs) = 4096"
    and "hex_byte a b \<noteq> calculate_checksum d"
  shows "\<exists>gs'. receive_packet gs l =
    (- 1, gs', l\<lparr>rx := rest, tx := tx l @ (if no_ack_mode gs then '''' else ''-'')\<rparr>) \<and>
    consecutive_failures gs' = consecutive_failures gs + 1"
proof -
  have "receive_packet gs l = reject_packet (stored d gs) (l\<lparr>rx := rest\<rparr>)"
    using assms by (subst receive_packet_gen [where junk = junk and d = d and a = a and b = b])
      (simp_all add: hex_byte_def)
  then show ?thesis using assms(2) by (simp add: reject_packet_def stored_def os_write_def)
qed

lemma corrupt_packet_refused_witness:
  "\<exists>gs'. receive_packet (stub (zero_context :: 32 gdb_context)) \<lparr>rx = ''$g#68?'', tx = [], wsched = []\<rparr> =
     (- 1, gs', \<lparr>rx = ''?'', tx = ''-'', wsched = []\<rparr>) \<and> consecutive_failures gs' = 1"
  using corrupt_packet_refused [of "\<lparr>rx = ''$g#68?'', tx = [], wsched = []\<rparr>" "[]" "''g''" "CHR ''6''"
      "CHR ''8''" "''?''" "stub (zero_context :: 32 gdb_context)"]
  by (simp add: zero_context_def hex_byte_def hex_to_int_def u8_def)

text \<open>
  C23: \<open>write_all\<close> sends everything and returns 0, or returns -1 after a proper
  prefix; however the operating system splits the writes, it returns 0 when each call takes
  at least one byte.
\<close>

lemma write_all_delivers:
  "(fst (write_all p l) = 0 \<and> tx (snd (write_all p l)) = tx l @ p \<or>
    fst (write_all p l) = - 1 \<and> (\<exists>k < length p. tx (snd (write_all p l)) = tx l @ take k p)) \<and>
   ((\<forall>n \<in> set (wsched l). 0 < n) \<longrightarrow> fst (write_all p l) = 0)"
  using write_all_cases [of p l] write_all_ok [of l p] by simp

lemma write_all_delivers_witness:
  "fst (write_all ''abcd'' \<lparr>rx = [], tx = [], wsched = [1, 2]\<rparr>) = 0"
  using write_all_delivers [of "''abcd''" "\<lparr>rx = [], tx = [], wsched = [1, 2]\<rparr>"] by simp

end
