(* ===== verification/Cmd_Registers.thy ===== *)
theory Cmd_Registers
  imports Packet_Link
begin

text \<open>
  The register commands of src/src/gdb_stub.c: \<open>g\<close>, \<open>G\<close>, \<open>p\<close> and
  \<open>P\<close>. A handler maps the world after the packet was received to the world after
  its reply; it has no result where the C code reads outside the packet buffer or shifts by
  the width of a register.
\<close>

text \<open>GDB_REG_HEX_BYTES and GDB_REG_HEX_CHARS.\<close>

abbreviation reg_bytes :: "'x::len itself \<Rightarrow> nat" where
  "reg_bytes _ \<equiv> LENGTH('x) div 8"

abbreviation reg_chars :: "'x::len itself \<Rightarrow> nat" where
  "reg_chars _ \<equiv> LENGTH('x) div 4"

abbreviation reply_E01 :: "('x::len, 's) world \<Rightarrow> ('x, 's) world option" where
  "reply_E01 w \<equiv> Some (reply ''E01'' w)"

abbreviation reply_OK :: "('x::len, 's) world \<Rightarrow> ('x, 's) world option" where
  "reply_OK w \<equiv> Some (reply ''OK'' w)"

text \<open>The reply to \<open>g\<close>: x0 to x31, then the program counter.\<close>

definition registers_image :: "('x::len, 's) gdb_callbacks \<Rightarrow> ('x, 's) world \<Rightarrow> string" where
  "registers_image cb w =
     concat (map (\<lambda>i. encode_hex (cb_read_reg cb w (int i)) (reg_bytes TYPE('x))) [0..<32])
     @ encode_hex (cb_get_pc cb w) (reg_bytes TYPE('x))"

definition handle_read_registers ::
    "('x::len, 's) gdb_callbacks \<Rightarrow> ('x, 's) world \<Rightarrow> ('x, 's) world option" where
  "handle_read_registers cb w = Some (reply (registers_image cb w) w)"

text \<open>The loop of \<open>G\<close> over the remaining registers, each parsed at its place.\<close>

fun write_regs_loop ::
    "('x::len, 's) gdb_callbacks \<Rightarrow> nat list \<Rightarrow> ('x, 's) world \<Rightarrow> ('x, 's) world option" where
  "write_regs_loop cb [] w = Some w"
| "write_regs_loop cb (i # is) w = do {
     value \<leftarrow> parse_hex_le (drop (1 + i * reg_chars TYPE('x)) (w_buf w)) (reg_chars TYPE('x));
     write_regs_loop cb is (cb_write_reg cb (int i) value w) }"

definition handle_write_registers ::
    "('x::len, 's) gdb_callbacks \<Rightarrow> ('x, 's) world \<Rightarrow> ('x, 's) world option" where
  "handle_write_registers cb w = do {
     w1 \<leftarrow> write_regs_loop cb [0..<32] w;
     pc \<leftarrow> parse_hex_le (drop (1 + 32 * reg_chars TYPE('x)) (w_buf w1)) (reg_chars TYPE('x));
     reply_OK (cb_set_pc cb pc w1) }"

definition handle_read_single_register ::
    "('x::len, 's) gdb_callbacks \<Rightarrow> ('x, 's) world \<Rightarrow> ('x, 's) world option" where
  "handle_read_single_register cb w = do {
     packet \<leftarrow> cstr (drop 1 (w_buf w));
     v \<leftarrow> parse_hex (drop 1 (w_buf w)) (length packet);
     let reg_num = c_int (uint (v :: 'x word));
     if reg_num < 0 \<or> reg_num > 32 then reply_E01 w
     else
       let value = (if reg_num < 32 then cb_read_reg cb w reg_num else cb_get_pc cb w) in
       Some (reply (encode_hex value (reg_bytes TYPE('x))) w) }"

definition handle_write_single_register ::
    "('x::len, 's) gdb_callbacks \<Rightarrow> ('x, 's) world \<Rightarrow> ('x, 's) world option" where
  "handle_write_single_register cb w = do {
     packet \<leftarrow> cstr (drop 1 (w_buf w));
     (case strchr packet CHR ''='' of
       None \<Rightarrow> reply_E01 w
     | Some equals \<Rightarrow> do {
         let w1 = upd_buf (\<lambda>b. b[1 + equals := NUL]) w;
         v \<leftarrow> parse_hex (drop 1 (w_buf w1)) equals;
         let reg_num = c_int (uint (v :: 'x word));
         text \<leftarrow> cstr (drop (2 + equals) (w_buf w1));
         value \<leftarrow> parse_hex_le (drop (2 + equals) (w_buf w1)) (length text);
         if reg_num < 0 \<or> reg_num > 32 then reply_E01 w1
         else if reg_num < 32 then reply_OK (cb_write_reg cb reg_num value w1)
         else reply_OK (cb_set_pc cb value w1) }) }"

subsection \<open>Register widths\<close>

text \<open>The two values GDB_STUB_XLEN can have.\<close>

definition xlen :: "'x::len itself \<Rightarrow> bool" where
  "xlen _ = (LENGTH('x) = 32 \<or> LENGTH('x) = 64)"

lemma xlenD:
  assumes "xlen TYPE('x::len)"
  shows "8 dvd LENGTH('x)" "4 dvd LENGTH('x)" "LENGTH('x) \<le> 64" "32 \<le> LENGTH('x)"
    and "reg_chars TYPE('x) = 2 * reg_bytes TYPE('x)" "reg_bytes TYPE('x) * 8 = LENGTH('x)"
    and "0 < reg_bytes TYPE('x)"
  using assms by (auto simp: xlen_def)

lemma parse_register:
  fixes v :: "'x::len word"
  assumes "xlen TYPE('x)"
  shows "parse_hex_le (encode_hex v (reg_bytes TYPE('x)) @ r) (reg_chars TYPE('x)) = Some v"
  using parse_hex_le_encode_hex [of "reg_bytes TYPE('x)" v r] xlenD [OF assms]
  by simp

lemma parse_register_defined:
  assumes "xlen TYPE('x::len)" "reg_chars TYPE('x) \<le> length p"
  shows "\<exists>v :: 'x word. parse_hex_le p (reg_chars TYPE('x)) = Some v"
  using parse_hex_le_loop_defined [of "reg_chars TYPE('x) div 2" p 0 "0 :: 'x word"] assms
  by (auto simp: parse_hex_le_def xlen_def)

lemma length_register_hex:
  "xlen TYPE('x::len) \<Longrightarrow> length (encode_hex (v :: 'x word) (reg_bytes TYPE('x))) = reg_chars TYPE('x)"
  by (simp only: length_encode_hex xlenD(5))

text \<open>Block \<open>i\<close> of a text made of blocks of equal length.\<close>

lemma drop_concat_blocks:
  assumes "\<forall>b \<in> set bs. length b = k" and "i \<le> length bs"
  shows "drop (i * k) (concat bs @ r) = concat (drop i bs) @ r"
  using assms
proof (induction bs arbitrary: i)
  case (Cons b bs)
  then show ?case by (cases i) (auto simp: drop_append)
qed simp

lemma drop_register_block:
  fixes v :: "nat \<Rightarrow> 'x::len word"
  assumes "xlen TYPE('x)" "i < n"
  shows "drop (i * reg_chars TYPE('x))
      (concat (map (\<lambda>i. encode_hex (v i) (reg_bytes TYPE('x))) [0..<n]) @ r)
    = encode_hex (v i) (reg_bytes TYPE('x)) @
      concat (map (\<lambda>i. encode_hex (v i) (reg_bytes TYPE('x))) [Suc i..<n]) @ r"
proof -
  let ?e = "\<lambda>i. encode_hex (v i) (reg_bytes TYPE('x))"
  have "drop (i * reg_chars TYPE('x)) (concat (map ?e [0..<n]) @ r) = concat (drop i (map ?e [0..<n])) @ r"
    using assms by (intro drop_concat_blocks)
      (auto simp: length_register_hex [OF assms(1)] simp del: length_encode_hex)
  also have "drop i (map ?e [0..<n]) = ?e i # map ?e [Suc i..<n]"
  proof -
    have "drop i [0..<n] = i # [Suc i..<n]" using assms(2) by (simp add: upt_conv_Cons [of i n])
    then show ?thesis by (simp only: drop_map list.map)
  qed
  finally show ?thesis by simp
qed

lemma parse_register_block:
  fixes v :: "nat \<Rightarrow> 'x::len word"
  assumes "xlen TYPE('x)" "i < n"
  shows "parse_hex_le (drop (i * reg_chars TYPE('x))
      (concat (map (\<lambda>i. encode_hex (v i) (reg_bytes TYPE('x))) [0..<n]) @ r)) (reg_chars TYPE('x))
    = Some (v i)"
  by (simp only: drop_register_block [OF assms] parse_register [OF assms(1)])

subsection \<open>Reading\<close>

lemma registers_image_eq:
  "registers_image cb w = concat (map (\<lambda>i. encode_hex
     (if i < 32 then cb_read_reg cb w (int i) else cb_get_pc cb (w :: ('x::len, 's) world))
     (reg_bytes TYPE('x))) [0..<33])"
proof -
  have u: "[0..<33] = [0..<32] @ [32]" using upt_Suc_append [of 0 32] by simp
  have "map (\<lambda>i. encode_hex (cb_read_reg cb w (int i)) (reg_bytes TYPE('x))) [0..<32]
    = map (\<lambda>i. encode_hex (if i < 32 then cb_read_reg cb w (int i) else cb_get_pc cb w)
        (reg_bytes TYPE('x))) [0..<32]"
    by (rule map_cong) auto
  then show ?thesis unfolding registers_image_def u map_append concat_append by (simp only:) simp
qed

subsection \<open>Writing\<close>

text \<open>A \<open>G\<close> packet with 33 full register images writes each of them.\<close>

definition all_registers :: "(nat \<Rightarrow> 'x::len word) \<Rightarrow> string" where
  "all_registers v = concat (map (\<lambda>i. encode_hex (v i) (reg_bytes TYPE('x))) [0..<33])"

lemma write_regs_loop_image:
  fixes v :: "nat \<Rightarrow> 'x::len word" and w :: "('x, 's) world"
  assumes x: "xlen TYPE('x)"
    and frame: "\<And>i u w. w_buf (cb_write_reg cb i u w) = w_buf w"
    and buf: "w_buf w = c # all_registers v @ r"
    and "i + k \<le> 33"
  shows "write_regs_loop cb [i..<i + k] w = Some (fold (\<lambda>j. cb_write_reg cb (int j) (v j)) [i..<i + k] w)"
  using buf assms(4)
proof (induction k arbitrary: i w)
  case (Suc k)
  have "[i..<i + Suc k] = i # [Suc i..<Suc i + k]" by (simp add: upt_rec)
  moreover have "parse_hex_le (drop (1 + i * reg_chars TYPE('x)) (w_buf w)) (reg_chars TYPE('x)) = Some (v i)"
    using parse_register_block [OF x, of i 33 v r] Suc.prems by (simp add: all_registers_def)
  moreover have "w_buf (cb_write_reg cb (int i) (v i) w) = c # all_registers v @ r"
    using Suc.prems by (simp add: frame)
  ultimately show ?case using Suc.IH [of _ "Suc i"] Suc.prems(2) by simp
qed simp

lemma handle_write_registers_image:
  fixes v :: "nat \<Rightarrow> 'x::len word" and w :: "('x, 's) world"
  assumes x: "xlen TYPE('x)"
    and frame: "\<And>i u w. w_buf (cb_write_reg cb i u w) = w_buf w"
    and buf: "w_buf w = c # all_registers v @ r"
  shows "handle_write_registers cb w =
    Some (reply ''OK'' (cb_set_pc cb (v 32) (fold (\<lambda>j. cb_write_reg cb (int j) (v j)) [0..<32] w)))"
proof -
  let ?w = "fold (\<lambda>j. cb_write_reg cb (int j) (v j)) [0..<32] w"
  have "w_buf (fold (\<lambda>j. cb_write_reg cb (int j) (v j)) js w) = w_buf w" for js
    by (induction js arbitrary: w) (simp_all add: frame)
  then have "parse_hex_le (drop (1 + 32 * reg_chars TYPE('x)) (w_buf ?w)) (reg_chars TYPE('x)) = Some (v 32)"
    using parse_register_block [OF x, of 32 33 v r] buf by (simp add: all_registers_def)
  then show ?thesis
    using write_regs_loop_image [OF x frame buf, of 0 32] by (simp add: handle_write_registers_def)
qed

subsection \<open>Single registers\<close>

lemma register_number:
  assumes "xlen TYPE('x::len)" "n < 2 ^ 31"
  shows "c_int (uint (word_of_nat n :: 'x word)) = int n"
proof -
  have "(2 :: nat) ^ 31 \<le> 2 ^ LENGTH('x)" using xlenD(4) [OF assms(1)] by (intro power_increasing) auto
  then have "take_bit LENGTH('x) n = n" using assms(2) by (simp add: take_bit_nat_eq_self)
  then have "uint (word_of_nat n :: 'x word) = int n" by (simp add: unsigned_of_nat flip: of_nat_take_bit)
  moreover have "int n < 2 ^ 31" using assms(2) by (metis of_nat_less_numeral_power_cancel_iff)
  ultimately show ?thesis by simp
qed

lemma handle_read_single_register_packet:
  fixes w :: "('x::len, 's) world"
  assumes x: "xlen TYPE('x)" and h: "hexstr A" "hex_nat A < 2 ^ 31"
    and buf: "w_buf w = ''p'' @ A @ NUL # r"
  shows "handle_read_single_register cb w =
    (if hex_nat A \<le> 32 then
       Some (reply (encode_hex (if hex_nat A < 32 then cb_read_reg cb w (int (hex_nat A)) else cb_get_pc cb w)
         (reg_bytes TYPE('x))) w)
     else reply_E01 w)"
  using register_number [OF x h(2)] h(1) hexstr_notin [OF h(1), of NUL]
  by (auto simp: handle_read_single_register_def buf)

lemma handle_write_single_register_packet:
  fixes w :: "('x::len, 's) world"
  assumes x: "xlen TYPE('x)" and h: "hexstr A" "hex_nat A < 2 ^ 31"
    and buf: "w_buf w = ''P'' @ A @ CHR ''='' # encode_hex v (reg_bytes TYPE('x)) @ NUL # r"
  defines "w1 \<equiv> upd_buf (\<lambda>_. ''P'' @ A @ NUL # encode_hex v (reg_bytes TYPE('x)) @ NUL # r) w"
  shows "handle_write_single_register cb w =
    (if hex_nat A \<le> 32 then
       reply_OK (if hex_nat A < 32 then cb_write_reg cb (int (hex_nat A)) v w1 else cb_set_pc cb v w1)
     else reply_E01 w1)"
proof -
  let ?V = "encode_hex v (reg_bytes TYPE('x))"
  have n: "NUL \<notin> set A" "CHR ''='' \<notin> set A" using hexstr_notin [OF h(1)] by simp_all
  have "strchr (A @ CHR ''='' # ?V) CHR ''='' = Some (length A)" using n by simp
  moreover have "cstr (A @ CHR ''='' # ?V @ NUL # r) = Some (A @ CHR ''='' # ?V)"
    using n by simp
  moreover have "upd_buf (\<lambda>b. b[1 + length A := NUL]) w = w1" by (simp add: w1_def buf)
  moreover have "w_buf w1 = ''P'' @ A @ NUL # ?V @ NUL # r" by (simp add: w1_def)
  moreover have "cstr (?V @ NUL # r) = Some ?V" by simp
  moreover have "parse_hex_le (?V @ NUL # r) (length ?V) = Some v"
    by (simp only: length_register_hex [OF x] parse_register [OF x])
  ultimately show ?thesis
    using register_number [OF x h(2)] h(1)
    by (simp add: handle_write_single_register_def buf del: length_encode_hex)
qed

text \<open>
  A value with more digits than a register has makes the last shift as wide as the
  register, whatever the register number.
\<close>

lemma handle_write_single_register_wide:
  fixes w :: "('x::len, 's) world"
  assumes x: "xlen TYPE('x)" and h: "hexstr A" and V: "NUL \<notin> set V" "reg_chars TYPE('x) + 2 \<le> length V"
    and buf: "w_buf w = ''P'' @ A @ CHR ''='' # V @ NUL # r"
  shows "handle_write_single_register cb w = None"
proof -
  have n: "NUL \<notin> set A" "CHR ''='' \<notin> set A" using hexstr_notin [OF h] by simp_all
  have "strchr (A @ CHR ''='' # V) CHR ''='' = Some (length A)" using n by simp
  moreover have "cstr (A @ CHR ''='' # V @ NUL # r) = Some (A @ CHR ''='' # V)" "cstr (V @ NUL # r) = Some V"
    using n V by simp_all
  moreover have "parse_hex_le (V @ NUL # r) (length V) = (None :: 'x word option)"
    unfolding parse_hex_le_def
  proof (rule parse_hex_le_loop_wide)
    have "set (take (2 * (length V div 2)) (V @ NUL # r)) \<subseteq> set V"
      using set_take_subset [of "2 * (length V div 2)" V] by simp
    then show "NUL \<notin> set (take (2 * (length V div 2)) (V @ NUL # r))" using V by auto
    have "reg_bytes TYPE('x) + 1 \<le> length V div 2" using V(2) xlenD(5) [OF x] by simp
    then show "LENGTH('x) < (0 + length V div 2) * 8" "0 < length V div 2"
      using xlenD(6) [OF x] by simp_all
  qed (simp_all add: xlenD [OF x])
  ultimately show ?thesis
    using h by (simp add: handle_write_single_register_def buf)
qed

subsection \<open>Properties of the register commands\<close>

text \<open>A table of callbacks over a register file, for the witnesses.\<close>

definition file_callbacks :: "('x::len, nat \<Rightarrow> 'x word) gdb_callbacks" where
  "file_callbacks = \<lparr>cb_read_reg = \<lambda>w i. w_sim w (nat i), cb_write_reg = \<lambda>i v. w_sim_update (\<lambda>s. s(nat i := v)),
     cb_read_mem = \<lambda>a n w. (0, w), cb_write_mem = \<lambda>a v n w. w, cb_get_pc = \<lambda>w. w_sim w 32,
     cb_set_pc = \<lambda>v. w_sim_update (\<lambda>s. s(32 := v)), cb_single_step = id, cb_is_running = \<lambda>w. False,
     cb_reset = None, cb_resume = None, cb_get_num_harts = None, cb_set_focus_hart = None,
     cb_get_focus_hart = None, cb_get_stop_hart = None, cb_halt_cpus = None\<rparr>"

lemma file_callbacks_simps [simp]:
  "cb_read_reg file_callbacks w i = w_sim w (nat i)" "cb_get_pc file_callbacks w = w_sim w 32"
  "cb_write_reg file_callbacks i v w = w_sim_update (\<lambda>s. s(nat i := v)) w"
  "cb_set_pc file_callbacks v w = w_sim_update (\<lambda>s. s(32 := v)) w"
  by (simp_all add: file_callbacks_def)

text \<open>
  C17: The reply to \<open>g\<close> is sent (it always fits) and holds at the place of each
  register 0 to 31, and of the program counter at place 32, the little-endian digits from which
  \<open>parse_hex_le\<close> reads back its value.
\<close>

theorem read_registers_reply:
  fixes cb :: "('x::len, 's) gdb_callbacks"
  assumes x: "xlen TYPE('x)" and "wsched (w_link w) = []" and "i < 33"
  shows "\<exists>image. handle_read_registers cb w =
      Some (w\<lparr>w_link := (w_link w)\<lparr>tx := tx (w_link w) @ frame image\<rparr>\<rparr>) \<and>
    length image = 33 * (LENGTH('x) div 4) \<and>
    parse_hex_le (drop (i * (LENGTH('x) div 4)) image) (LENGTH('x) div 4)
      = Some (if i < 32 then cb_read_reg cb w (int i) else cb_get_pc cb w)"
proof -
  let ?v = "\<lambda>i. if i < 32 then cb_read_reg cb w (int i) else cb_get_pc cb w"
  have len: "length (registers_image cb w) = 33 * reg_chars TYPE('x)"
    unfolding registers_image_eq length_concat map_map comp_def length_register_hex [OF x]
    by (simp add: sum_list_triv)
  moreover have "33 * reg_chars TYPE('x) < 4092" using x by (auto simp: xlen_def)
  moreover have "parse_hex_le (drop (i * reg_chars TYPE('x)) (registers_image cb w)) (reg_chars TYPE('x)) = Some (?v i)"
    using parse_register_block [OF x assms(3), of ?v "[]"] by (simp only: registers_image_eq append_Nil2)
  ultimately show ?thesis using assms(2)
    by (intro exI [of _ "registers_image cb w"]) (simp add: handle_read_registers_def reply_ok)
qed

lemma read_registers_reply_witness:
  "\<exists>image w. handle_read_registers file_callbacks (packet_world ''g'' ((\<lambda>_. 0)(32 := 0x80000000 :: 32 word))) = Some w \<and>
     tx (w_link w) = frame image \<and> parse_hex_le (drop 256 image) 8 = Some (0x80000000 :: 32 word)"
proof -
  obtain image where "handle_read_registers file_callbacks (packet_world ''g'' ((\<lambda>_. 0)(32 := 0x80000000 :: 32 word))) =
      Some (packet_world ''g'' ((\<lambda>_. 0)(32 := 0x80000000))\<lparr>w_link := \<lparr>rx = [], tx = frame image, wsched = []\<rparr>\<rparr>)"
    and "parse_hex_le (drop 256 image) 8 = Some (0x80000000 :: 32 word)"
    using read_registers_reply [of "packet_world ''g'' ((\<lambda>_. 0)(32 := 0x80000000 :: 32 word))" 32 file_callbacks]
    by (auto simp: xlen_def)
  then show ?thesis by (intro exI [of _ image]) simp
qed

text \<open>
  C18: A \<open>G\<close> packet with the images of 33 values writes value \<open>i\<close> to register
  \<open>i\<close>, in order, then value 32 to the program counter, and answers OK, whatever
  an earlier packet left in the buffer behind it.
\<close>

theorem write_registers_packet:
  fixes v :: "nat \<Rightarrow> 'x::len word" and w :: "('x, 's) world"
  assumes "xlen TYPE('x)" and "\<And>i u w. w_buf (cb_write_reg cb i u w) = w_buf w"
    and "w_buf w = ''G'' @ concat (map (\<lambda>i. encode_hex (v i) (LENGTH('x) div 8)) [0..<33]) @ r"
  shows "handle_write_registers cb w =
    Some (reply ''OK'' (cb_set_pc cb (v 32) (fold (\<lambda>j. cb_write_reg cb (int j) (v j)) [0..<32] w)))"
  using handle_write_registers_image [OF assms(1,2), where c = "CHR ''G''" and v = v and r = r and w = w] assms(3)
  by (simp add: all_registers_def)

lemma write_registers_packet_witness:
  "\<exists>w. handle_write_registers file_callbacks (packet_world
      (''G'' @ concat (map (\<lambda>i. encode_hex (word_of_nat i :: 32 word) (LENGTH(32) div 8)) [0..<33]) @ []) (\<lambda>_. 0 :: 32 word)) = Some w \<and>
    w_sim w 32 = 32"
  by (subst write_registers_packet [where v = "word_of_nat :: nat \<Rightarrow> 32 word" and r = "[]"])
    (simp add: xlen_def, simp, simp, simp add: reply_frames)

end
