(* ===== verification/Cmd_Memory.thy ===== *)
theory Cmd_Memory
  imports Cmd_Registers
begin

text \<open>
  The memory commands of src/src/gdb_stub.c: \<open>m\<close>, \<open>M\<close>, \<open>X\<close> with its
  binary decoding, and \<open>qSearch:memory\<close>. A handler has no result where the C code
  reads outside the packet buffer, writes outside its reply, or searches for ever.
\<close>

subsection \<open>Reading\<close>

fun read_bytes ::
    "('x::len, 's) gdb_callbacks \<Rightarrow> 'x word \<Rightarrow> nat \<Rightarrow> ('x, 's) world \<Rightarrow> byte list \<times> ('x, 's) world" where
  "read_bytes cb a 0 w = ([], w)"
| "read_bytes cb a (Suc n) w =
     (let (v, w1) = cb_read_mem cb a 1 w;
          (bs, w2) = read_bytes cb (a + 1) n w1
      in (ucast (v AND 0xFF) # bs, w2))"

definition handle_read_memory ::
    "('x::len, 's) gdb_callbacks \<Rightarrow> ('x, 's) world \<Rightarrow> ('x, 's) world option" where
  "handle_read_memory cb w = do {
     packet \<leftarrow> cstr (drop 1 (w_buf w));
     (case strchr packet CHR '','' of
       None \<Rightarrow> reply_E01 w
     | Some comma \<Rightarrow> do {
         let w1 = upd_buf (\<lambda>b. b[1 + comma := NUL]) w;
         a \<leftarrow> parse_hex (drop 1 (w_buf w1)) comma;
         text \<leftarrow> cstr (drop (2 + comma) (w_buf w1));
         n \<leftarrow> parse_hex (drop (2 + comma) (w_buf w1)) (length text);
         if (ucast (n :: 'x word) :: 64 word) > word_of_nat (GDB_BUFFER_SIZE div 2)
         then Some (reply ''E02'' w1)
         else
           let (bs, w2) = read_bytes cb a (unat n) w1 in
           if 2 * unat n < GDB_BUFFER_SIZE \<comment> \<open>the store of the final NUL\<close>
           then Some (reply (concat (map byte_hex bs)) w2)
           else None }) }"

subsection \<open>Writing\<close>

text \<open>The loop of \<open>M\<close>: two digits at \<open>off\<close> of the packet buffer for each byte.\<close>

fun write_hex_loop ::
    "('x::len, 's) gdb_callbacks \<Rightarrow> 'x word \<Rightarrow> nat \<Rightarrow> nat \<Rightarrow> ('x, 's) world \<Rightarrow> ('x, 's) world option" where
  "write_hex_loop cb a off 0 w = Some w"
| "write_hex_loop cb a off (Suc n) w =
     (case drop off (w_buf w) of
        x # y # _ \<Rightarrow> write_hex_loop cb (a + 1) (off + 2) n
                        (cb_write_mem cb a (ucast (hex_byte x y)) 1 w)
      | _ \<Rightarrow> None)"

definition handle_write_memory ::
    "('x::len, 's) gdb_callbacks \<Rightarrow> ('x, 's) world \<Rightarrow> ('x, 's) world option" where
  "handle_write_memory cb w = do {
     packet \<leftarrow> cstr (drop 1 (w_buf w));
     (case (strchr packet CHR '','', strchr packet CHR '':'') of
       (Some comma, Some colon) \<Rightarrow> do {
         let w1 = upd_buf (\<lambda>b. b[1 + comma := NUL, 1 + colon := NUL]) w;
         a \<leftarrow> parse_hex (drop 1 (w_buf w1)) comma;
         n \<leftarrow> parse_hex (drop (2 + comma) (w_buf w1)) (nat (int colon - int comma - 1));
         w2 \<leftarrow> write_hex_loop cb a (2 + colon) (unat (n :: 'x word)) w1;
         reply_OK w2 }
     | _ \<Rightarrow> reply_E01 w) }"

text \<open>
  \<open>decode_rsp_binary\<close>: the result and the bytes stored so far in \<open>dst\<close>.
\<close>

function decode_loop :: "char list \<Rightarrow> nat \<Rightarrow> byte list \<Rightarrow> (int \<times> byte list) option" where
  "decode_loop p dst_len dst =
     (if length dst < dst_len then
        (case p of [] \<Rightarrow> None
         | c # p1 \<Rightarrow>
             if c = NUL then Some (- 1, dst)
             else if c = CHR ''*'' then
               if dst = [] then Some (- 1, dst)
               else (case p1 of [] \<Rightarrow> None
                     | k # p2 \<Rightarrow>
                         if k = NUL then Some (- 1, dst)
                         else decode_loop p2 dst_len
                           (dst @ replicate (min (unat (u8 k)) (dst_len - length dst)) (last dst)))
             else if c = CHR ''}'' then
               (case p1 of [] \<Rightarrow> None
                | k # p2 \<Rightarrow>
                    if k = NUL then Some (- 1, dst)
                    else decode_loop p2 dst_len (dst @ [u8 k XOR 0x20]))
             else decode_loop p1 dst_len (dst @ [u8 c]))
      else Some (if length dst = dst_len then 0 else - 1, dst))"
  by pat_completeness auto
termination
  by (relation "measure (\<lambda>(p, n, dst). length p)") auto

declare decode_loop.simps [simp del]

definition decode_rsp_binary :: "char list \<Rightarrow> nat \<Rightarrow> (int \<times> byte list) option" where
  "decode_rsp_binary src dst_len = decode_loop src dst_len []"

fun write_bytes ::
    "('x::len, 's) gdb_callbacks \<Rightarrow> 'x word \<Rightarrow> byte list \<Rightarrow> ('x, 's) world \<Rightarrow> ('x, 's) world" where
  "write_bytes cb a [] w = w"
| "write_bytes cb a (b # bs) w = write_bytes cb (a + 1) bs (cb_write_mem cb a (ucast b) 1 w)"

definition handle_write_memory_binary ::
    "('x::len, 's) gdb_callbacks \<Rightarrow> ('x, 's) world \<Rightarrow> ('x, 's) world option" where
  "handle_write_memory_binary cb w = do {
     packet \<leftarrow> cstr (drop 1 (w_buf w));
     (case (strchr packet CHR '','', strchr packet CHR '':'') of
       (Some comma, Some colon) \<Rightarrow> do {
         let w1 = upd_buf (\<lambda>b. b[1 + comma := NUL, 1 + colon := NUL]) w;
         a \<leftarrow> parse_hex (drop 1 (w_buf w1)) comma;
         v \<leftarrow> parse_hex (drop (2 + comma) (w_buf w1)) (nat (int colon - int comma - 1));
         let n = unat (ucast (v :: 'x word) :: 32 word);
         if n = 0 \<or> n > GDB_BUFFER_SIZE then Some (reply ''E02'' w1)
         else do {
           (r, bytes) \<leftarrow> decode_rsp_binary (drop (2 + colon) (w_buf w1)) n;
           if r < 0 then Some (reply ''E03'' w1)
           else reply_OK (write_bytes cb a bytes w1) } }
     | _ \<Rightarrow> reply_E01 w) }"

subsection \<open>Searching\<close>

text \<open>
  The inner loop: does memory at \<open>a\<close> hold the \<open>n\<close> bytes written as digits at
  \<open>off\<close> of the packet buffer? It stops at the first difference.
\<close>

fun match_at ::
    "('x::len, 's) gdb_callbacks \<Rightarrow> 'x word \<Rightarrow> nat \<Rightarrow> nat \<Rightarrow> ('x, 's) world \<Rightarrow> (bool \<times> ('x, 's) world) option" where
  "match_at cb a off 0 w = Some (True, w)"
| "match_at cb a off (Suc n) w =
     (case drop off (w_buf w) of
        x # y # _ \<Rightarrow>
          (let (v, w1) = cb_read_mem cb a 1 w in
           if hex_byte x y \<noteq> ucast (v AND 0xFF) then Some (False, w1)
           else match_at cb (a + 1) (off + 2) n w1)
      | _ \<Rightarrow> None)"

text \<open>
  The outer loop, for the addresses up to \<open>end_a\<close>. The address wraps around, so the
  loop may never end.
\<close>

partial_function (option) search_loop ::
    "('x::len, 's) gdb_callbacks \<Rightarrow> 'x word \<Rightarrow> nat \<Rightarrow> nat \<Rightarrow> 'x word \<Rightarrow> ('x, 's) world \<Rightarrow>
     ('x word option \<times> ('x, 's) world) option" where
  "search_loop cb end_a off n a w =
     (if a \<le> end_a then do {
        (found, w1) \<leftarrow> match_at cb a off n w;
        if found then Some (Some a, w1) else search_loop cb end_a off n (a + 1) w1 }
      else Some (None, w))"

definition handle_search_memory ::
    "('x::len, 's) gdb_callbacks \<Rightarrow> ('x, 's) world \<Rightarrow> ('x, 's) world option" where
  "handle_search_memory cb w = do {
     packet \<leftarrow> cstr (drop 15 (w_buf w));
     (case strchr packet CHR '':'' of
       None \<Rightarrow> reply_E01 w
     | Some colon1 \<Rightarrow>
         (case strchr (drop (colon1 + 1) packet) CHR '':'' of
           None \<Rightarrow> reply_E01 w
         | Some k \<Rightarrow> do {
             let colon2 = colon1 + 1 + k;
             let w1 = upd_buf (\<lambda>b. b[15 + colon1 := NUL, 15 + colon2 := NUL]) w;
             start_addr \<leftarrow> parse_hex (drop 15 (w_buf w1)) colon1;
             search_len \<leftarrow> parse_hex (drop (16 + colon1) (w_buf w1)) (colon2 - colon1 - 1);
             pattern \<leftarrow> cstr (drop (16 + colon2) (w_buf w1));
             let pattern_len = length pattern div 2;
             if pattern_len = 0 \<or> (ucast (search_len :: 'x word) :: 64 word) < word_of_nat pattern_len
             then Some (reply ''0'' w1)
             else do {
               (found, w2) \<leftarrow> search_loop cb (start_addr + search_len - word_of_nat pattern_len)
                  (16 + colon2) pattern_len start_addr w1;
               (case found of
                  Some a \<Rightarrow> Some (reply (snprintf 48 (''1,'' @ fmt_0x (reg_chars TYPE('x)) (unat a))) w2)
                | None \<Rightarrow> Some (reply ''0'' w2)) } })) }"

subsection \<open>Reading: the three ranges of the length\<close>

lemma length_concat_byte_hex [simp]: "length (concat (map byte_hex bs)) = 2 * length bs"
  by (induction bs) simp_all

lemma length_read_bytes [simp]: "length (fst (read_bytes cb a n w)) = n"
  by (induction n arbitrary: a w) (simp_all add: Let_def split: prod.split, metis fst_conv)

lemma unat_word_of_nat_id: "n < 2 ^ LENGTH('x::len) \<Longrightarrow> unat (word_of_nat n :: 'x word) = n"
  by (simp add: unsigned_of_nat take_bit_nat_eq_self)

lemma word64_less_nat:
  assumes "LENGTH('x::len) \<le> 64" "k < 2 ^ 64"
  shows "(ucast (n :: 'x word) :: 64 word) < word_of_nat k \<longleftrightarrow> unat n < k"
    and "word_of_nat k < (ucast (n :: 'x word) :: 64 word) \<longleftrightarrow> k < unat n"
  using assms by (simp_all add: word_less_nat_alt unat_ucast_up unat_word_of_nat_id)

lemma handle_read_memory_packet:
  fixes w :: "('x::len, 's) world"
  assumes x: "xlen TYPE('x)" and h: "hexstr A" "hexstr N" "hex_nat N < 2 ^ LENGTH('x)"
    and buf: "w_buf w = ''m'' @ A @ CHR '','' # N @ NUL # r"
  defines "w1 \<equiv> upd_buf (\<lambda>_. ''m'' @ A @ NUL # N @ NUL # r) w"
  shows "handle_read_memory cb w =
    (if hex_nat N > 2048 then Some (reply ''E02'' w1)
     else let (bs, w2) = read_bytes cb (word_of_nat (hex_nat A)) (hex_nat N) w1 in
       if hex_nat N < 2048 then Some (reply (concat (map byte_hex bs)) w2) else None)"
proof -
  have n: "NUL \<notin> set A" "CHR '','' \<notin> set A" "NUL \<notin> set N"
    using hexstr_notin [OF h(1)] hexstr_notin [OF h(2)] by simp_all
  have "strchr (A @ CHR '','' # N) CHR '','' = Some (length A)" using n by simp
  moreover have "cstr (A @ CHR '','' # N @ NUL # r) = Some (A @ CHR '','' # N)" "cstr (N @ NUL # r) = Some N"
    using n by simp_all
  moreover have "upd_buf (\<lambda>b. b[1 + length A := NUL]) w = w1" by (simp add: w1_def buf)
  moreover have "w_buf w1 = ''m'' @ A @ NUL # N @ NUL # r" by (simp add: w1_def)
  moreover have "unat (word_of_nat (hex_nat N) :: 'x word) = hex_nat N"
    using h(3) by (rule unat_word_of_nat_id)
  moreover have "(ucast (word_of_nat (hex_nat N) :: 'x word) :: 64 word) > word_of_nat 2048 \<longleftrightarrow> hex_nat N > 2048"
    using word64_less_nat(2) [OF xlenD(3) [OF x], of 2048 "word_of_nat (hex_nat N)"]
      unat_word_of_nat_id [OF h(3)] by simp
  ultimately show ?thesis
    using h(1,2) by (simp add: handle_read_memory_def buf Let_def)
qed

subsection \<open>Writing digits\<close>

lemma upd_buf_const: "upd_buf f w = upd_buf (\<lambda>_. f (w_buf w)) w"
  by simp

text \<open>A command with two numbers and data: \<open>addr,len:data\<close>.\<close>

lemma drop_two_arguments: "drop (length A + length N + 3) (c # A @ x # N @ y # R) = R"
  using append_eq_conv_conj [of "c # A @ x # N @ [y]" R] by (simp add: numeral_3_eq_3)

lemma two_arguments:
  assumes "hexstr A" "hexstr N" "NUL \<notin> set D"
  shows "strchr (A @ CHR '','' # N @ CHR '':'' # D) CHR '','' = Some (length A)"
    and "strchr (A @ CHR '','' # N @ CHR '':'' # D) CHR '':'' = Some (Suc (length A + length N))"
    and "cstr (A @ CHR '','' # N @ CHR '':'' # D @ NUL # r) = Some (A @ CHR '','' # N @ CHR '':'' # D)"
proof -
  have n: "NUL \<notin> set A" "CHR '','' \<notin> set A" "CHR '':'' \<notin> set A" "NUL \<notin> set N" "CHR '':'' \<notin> set N"
    using hexstr_notin [OF assms(1)] hexstr_notin [OF assms(2)] by simp_all
  then show "strchr (A @ CHR '','' # N @ CHR '':'' # D) CHR '','' = Some (length A)"
    "strchr (A @ CHR '','' # N @ CHR '':'' # D) CHR '':'' = Some (Suc (length A + length N))"
    using strchr_app [of "CHR '':''" "A @ CHR '','' # N" D] by simp_all
  show "cstr (A @ CHR '','' # N @ CHR '':'' # D @ NUL # r) = Some (A @ CHR '','' # N @ CHR '':'' # D)"
    using n assms(3) by simp
qed

lemma handle_write_memory_packet:
  fixes w :: "('x::len, 's) world"
  assumes h: "hexstr A" "hexstr N" "hex_nat N < 2 ^ LENGTH('x)" and D: "NUL \<notin> set D"
    and buf: "w_buf w = ''M'' @ A @ CHR '','' # N @ CHR '':'' # D @ NUL # r"
  defines "w1 \<equiv> upd_buf (\<lambda>_. ''M'' @ A @ NUL # N @ NUL # D @ NUL # r) w"
  shows "handle_write_memory cb w = map_option (reply ''OK'')
    (write_hex_loop cb (word_of_nat (hex_nat A)) (length A + length N + 3) (hex_nat N) w1)"
proof -
  have "upd_buf (\<lambda>b. b[1 + length A := NUL, 1 + Suc (length A + length N) := NUL]) w = w1"
    by (subst upd_buf_const) (simp add: w1_def buf list_update_append)
  moreover have "w_buf w1 = ''M'' @ A @ NUL # N @ NUL # D @ NUL # r" by (simp add: w1_def)
  ultimately show ?thesis
    using h(1,2) unat_word_of_nat_id [OF h(3)]
    by (simp add: handle_write_memory_def buf two_arguments [OF h(1,2) D] numeral_3_eq_3 map_option_bind_Some)
qed

text \<open>
  The loop on well-formed digits, and past the end of the buffer. The packet buffer is not
  changed by the callback.
\<close>

definition hex_image :: "byte list \<Rightarrow> string" where
  "hex_image bs = concat (map byte_hex bs)"

lemma hex_image_simps [simp]:
  "hex_image [] = []" "hex_image (b # bs) = byte_hex b @ hex_image bs"
  "length (hex_image bs) = 2 * length bs" "NUL \<notin> set (hex_image bs)"
  by (simp_all add: hex_image_def)

lemma write_hex_loop_outside:
  assumes frame: "\<And>a v w. w_buf (cb_write_mem cb a v 1 w) = w_buf w"
    and "length (w_buf w) < off + 2 * n" "off \<le> length (w_buf w)"
  shows "write_hex_loop cb a off n w = None"
  using assms(2,3)
proof (induction n arbitrary: a off w)
  case (Suc n)
  show ?case
  proof (cases "drop off (w_buf w)")
    case c: (Cons x t)
    show ?thesis
    proof (cases t)
      case (Cons y t')
      with c have "length (drop off (w_buf w)) = length t' + 2" by simp
      with Suc.prems have "off + 2 \<le> length (w_buf w)" by simp
      with Suc c Cons show ?thesis by (simp add: frame)
    qed (simp add: c)
  qed simp
qed simp

subsection \<open>Binary data\<close>

lemma handle_write_memory_binary_packet:
  fixes w :: "('x::len, 's) world"
  assumes h: "hexstr A" "hexstr N" "hex_nat N < 2 ^ 32" "32 \<le> LENGTH('x)" and D: "NUL \<notin> set D"
    and buf: "w_buf w = ''X'' @ A @ CHR '','' # N @ CHR '':'' # D @ NUL # r"
  defines "w1 \<equiv> upd_buf (\<lambda>_. ''X'' @ A @ NUL # N @ NUL # D @ NUL # r) w"
  shows "handle_write_memory_binary cb w =
    (if hex_nat N = 0 \<or> hex_nat N > 4096 then Some (reply ''E02'' w1)
     else case decode_rsp_binary (D @ NUL # r) (hex_nat N) of None \<Rightarrow> None
       | Some (res, bytes) \<Rightarrow> Some (if res < 0 then reply ''E03'' w1
           else reply ''OK'' (write_bytes cb (word_of_nat (hex_nat A)) bytes w1)))"
proof -
  have "upd_buf (\<lambda>b. b[1 + length A := NUL, 1 + Suc (length A + length N) := NUL]) w = w1"
    by (subst upd_buf_const) (simp add: w1_def buf list_update_append)
  moreover have "w_buf w1 = ''X'' @ A @ NUL # N @ NUL # D @ NUL # r" by (simp add: w1_def)
  moreover have "unat (ucast (word_of_nat (hex_nat N) :: 'x word) :: 32 word) = hex_nat N"
    using h(3,4) by (simp add: unsigned_ucast_eq unsigned_of_nat take_bit_nat_eq_self min_def)
  ultimately show ?thesis
    using h(1,2) drop_two_arguments [of A N "CHR ''X''" NUL NUL "D @ NUL # r"]
    by (simp add: handle_write_memory_binary_def buf two_arguments [OF h(1,2) D] numeral_3_eq_3 Let_def
        split: option.split)
qed

text \<open>The escaping of the protocol: \<open>#\<close>, \<open>$\<close>, \<open>}\<close> and \<open>*\<close> are sent as \<open>}\<close> and
  the byte with bit 5 flipped.\<close>

definition rsp_escape :: "byte list \<Rightarrow> string" where
  "rsp_escape bs = concat (map (\<lambda>b. if ch b \<in> set ''#$}*'' then [CHR ''}'', ch (b XOR 0x20)] else [ch b]) bs)"

lemma ch_eq_iff: "ch b = c \<longleftrightarrow> b = u8 c"
  by auto

lemma rsp_escape_no_NUL: "0 \<notin> set bs \<Longrightarrow> NUL \<notin> set (rsp_escape bs)"
proof (induction bs)
  case (Cons b bs)
  have "ch b \<noteq> NUL" "ch b \<in> set ''#$}*'' \<Longrightarrow> ch (b XOR 0x20) \<noteq> NUL"
    using Cons.prems by (auto simp: ch_eq_iff u8_def)
  with Cons show ?case by (auto simp: rsp_escape_def)
qed (simp add: rsp_escape_def)

lemma decode_loop_step:
  assumes "b \<noteq> 0" "length dst < n"
  shows "decode_loop (rsp_escape (b # bs) @ r) n dst = decode_loop (rsp_escape bs @ r) n (dst @ [b])"
proof (cases "ch b \<in> set ''#$}*''")
  case True
  then have "u8 (ch (b XOR 0x20)) XOR 0x20 = b" "ch (b XOR 0x20) \<noteq> NUL"
    by (auto simp: ch_eq_iff u8_def simp del: u8_ch) (simp_all add: u8_ch [unfolded u8_def])
  with True assms(2) show ?thesis by (subst decode_loop.simps) (simp add: rsp_escape_def)
next
  case False
  then have "ch b \<noteq> NUL" "ch b \<noteq> CHR ''*''" "ch b \<noteq> CHR ''}''"
    using assms(1) by (auto simp: ch_eq_iff u8_def)
  with False assms(2) show ?thesis by (subst decode_loop.simps) (simp add: rsp_escape_def)
qed

lemma decode_loop_escaped:
  "0 \<notin> set bs \<Longrightarrow> length dst + length bs \<le> n \<Longrightarrow>
    decode_loop (rsp_escape bs @ r) n dst = decode_loop r n (dst @ bs)"
proof (induction bs arbitrary: dst)
  case (Cons b bs)
  then show ?case using Cons.IH [of "dst @ [b]"] by (subst decode_loop_step) auto
qed (simp add: rsp_escape_def)

text \<open>
  The decoder never stores more than it is asked for, and a success is always exactly that
  many bytes: the loop of the handler reads only bytes that were stored.
\<close>

lemma decode_loop_length:
  "decode_loop p n dst = Some (res, bytes) \<Longrightarrow> length dst \<le> n \<Longrightarrow>
     length bytes \<le> n \<and> (res = 0 \<longrightarrow> length bytes = n) \<and> (res = 0 \<or> res = - 1)"
proof (induction p arbitrary: dst res rule: length_induct)
  case (1 p)
  then have IH: "decode_loop q n d = Some (res, bytes) \<Longrightarrow> length q < length p \<Longrightarrow> length d \<le> n \<Longrightarrow>
    length bytes \<le> n \<and> (res = 0 \<longrightarrow> length bytes = n) \<and> (res = 0 \<or> res = - 1)" for q d res
    by blast
  show ?case
    using 1(2,3) by (subst (asm) decode_loop.simps) (auto split: if_splits list.splits; drule IH; simp)
qed

lemma decode_loop_defined: "decode_loop p n dst = None \<Longrightarrow> NUL \<notin> set p"
proof (induction p arbitrary: dst rule: length_induct)
  case (1 p)
  then have IH: "decode_loop q n d = None \<Longrightarrow> length q < length p \<Longrightarrow> NUL \<notin> set q" for q d
    by blast
  show ?case
    using 1(2) by (subst (asm) decode_loop.simps) (force split: if_splits list.splits dest: IH)
qed

subsection \<open>Searching: the arguments\<close>

lemma handle_search_memory_packet:
  fixes w :: "('x::len, 's) world"
  assumes h: "hexstr A" "hexstr N" and P: "NUL \<notin> set P" "length P = 2 * n"
    and x: "xlen TYPE('x)" "n < 2 ^ 32"
    and buf: "w_buf w = ''qSearch:memory:'' @ A @ CHR '':'' # N @ CHR '':'' # P @ NUL # r"
  defines "w1 \<equiv> upd_buf (\<lambda>_. ''qSearch:memory:'' @ A @ NUL # N @ NUL # P @ NUL # r) w"
    and "len \<equiv> word_of_nat (hex_nat N) :: 'x word" and "a \<equiv> word_of_nat (hex_nat A) :: 'x word"
  shows "handle_search_memory cb w =
    (if n = 0 \<or> unat len < n then Some (reply ''0'' w1)
     else case search_loop cb (a + len - word_of_nat n) (length A + length N + 17) n a w1 of
         None \<Rightarrow> None
       | Some (Some b, w2) \<Rightarrow> Some (reply (snprintf 48 (''1,'' @ fmt_0x (reg_chars TYPE('x)) (unat b))) w2)
       | Some (None, w2) \<Rightarrow> Some (reply ''0'' w2))"
proof -
  have n: "NUL \<notin> set A" "CHR '':'' \<notin> set A" "NUL \<notin> set N" "CHR '':'' \<notin> set N"
    using hexstr_notin [OF h(1)] hexstr_notin [OF h(2)] by simp_all
  define packet where "packet = A @ CHR '':'' # N @ CHR '':'' # P"
  have "cstr (drop 15 (w_buf w)) = Some packet" using n P by (simp add: buf packet_def)
  moreover have "strchr packet CHR '':'' = Some (length A)" using n by (simp add: packet_def)
  moreover have "drop (length A + 1) packet = N @ CHR '':'' # P" by (simp add: packet_def)
  then have "strchr (drop (length A + 1) packet) CHR '':'' = Some (length N)" using n by simp
  moreover have "upd_buf (\<lambda>b. b[15 + length A := NUL, 15 + (length A + 1 + length N) := NUL]) w = w1"
    by (subst upd_buf_const) (simp add: w1_def buf list_update_append)
  moreover have b: "w_buf w1 = ''qSearch:memory:'' @ A @ NUL # N @ NUL # P @ NUL # r" by (simp add: w1_def)
  moreover have "drop (16 + length A) (w_buf w1) = N @ NUL # P @ NUL # r"
    "drop (16 + (length A + 1 + length N)) (w_buf w1) = P @ NUL # r"
    using append_eq_conv_conj [of "''qSearch:memory:'' @ A @ NUL # N @ [NUL]" "P @ NUL # r"]
    by (simp_all add: b numeral_eq_Suc)
  moreover have "cstr (P @ NUL # r) = Some P" using P by simp
  moreover have "parse_hex (drop 15 (w_buf w1)) (length A) = Some a"
    "parse_hex (N @ NUL # P @ NUL # r) (length N) = Some len"
    using h by (simp_all add: b a_def len_def)
  moreover have "(ucast len :: 64 word) < word_of_nat n \<longleftrightarrow> unat len < n"
    using x by (intro word64_less_nat(1) xlenD(3)) simp_all
  moreover have "length A + 1 + length N - length A - 1 = length N"
    "16 + (length A + 1 + length N) = length A + length N + 17" by simp_all
  ultimately show ?thesis
    unfolding handle_search_memory_def Let_def
    by (simp only: Option.bind.simps option.case P nonzero_mult_div_cancel_left zero_neq_numeral not_False_eq_True)
      (simp split: option.split)
qed

subsection \<open>Properties at the limits of the memory commands\<close>

text \<open>
  C38: The length check of \<open>m\<close> lets one length too many pass: 2048 bytes need 4097
  characters of the 4096 the reply buffer has, so the final NUL is stored outside it. For 2046
  and 2047 bytes the reply is formed but too long to be sent, so the client gets no answer
  at all; above 2048 the answer is E02.
\<close>

theorem read_memory_limits:
  fixes w :: "('x::len, 's) world"
  assumes "xlen TYPE('x)" "hexstr A" "hexstr N" "hex_nat N < 2 ^ LENGTH('x)"
    and "w_buf w = ''m'' @ A @ CHR '','' # N @ NUL # r"
  shows "(hex_nat N = 2048 \<longrightarrow> handle_read_memory cb w = None) \<and>
    (hex_nat N = 2046 \<or> hex_nat N = 2047 \<longrightarrow>
      handle_read_memory cb w = Some (snd (read_bytes cb (word_of_nat (hex_nat A)) (hex_nat N)
        (upd_buf (\<lambda>_. ''m'' @ A @ NUL # N @ NUL # r) w)))) \<and>
    (hex_nat N > 2048 \<longrightarrow> handle_read_memory cb w =
      Some (reply ''E02'' (upd_buf (\<lambda>_. ''m'' @ A @ NUL # N @ NUL # r) w)))"
proof -
  let ?rd = "read_bytes cb (word_of_nat (hex_nat A)) (hex_nat N) (upd_buf (\<lambda>_. ''m'' @ A @ NUL # N @ NUL # r) w)"
  have "reply (concat (map byte_hex (fst ?rd))) (snd ?rd) = snd ?rd" if "2046 \<le> hex_nat N"
    using that by (simp add: reply_def send_packet_too_long)
  with handle_read_memory_packet [OF assms, of cb] show ?thesis
    by (cases ?rd) (simp only: Let_def prod.case fst_conv snd_conv; simp)
qed

lemma read_memory_limits_witness:
  "handle_read_memory file_callbacks (packet_world (''m'' @ ''10'' @ CHR '','' # ''800'' @ NUL # []) (\<lambda>_. 0 :: 32 word)) = None"
  using read_memory_limits [of "''10''" "''800''" "packet_world (''m'' @ ''10'' @ CHR '','' # ''800'' @ NUL # []) (\<lambda>_. 0 :: 32 word)" "[]" file_callbacks]
  by (simp add: xlen_def hexstr_def isxdigit_def u8_def hex_nat_def xdigit_val_def)

text \<open>
  C39: \<open>M\<close> trusts its length: when the digits for that many bytes do not fit between the
  colon and the end of the packet buffer, the handler reads outside the buffer.
\<close>

theorem write_memory_overread:
  fixes w :: "('x::len, 's) world"
  assumes "\<And>a v w. w_buf (cb_write_mem cb a v 1 w) = w_buf w"
    and "hexstr A" "hexstr N" "hex_nat N < 2 ^ LENGTH('x)" "NUL \<notin> set D"
    and "w_buf w = ''M'' @ A @ CHR '','' # N @ CHR '':'' # D @ NUL # r" "length (w_buf w) = 4096"
    and "4096 < length A + length N + 3 + 2 * hex_nat N"
  shows "handle_write_memory cb w = None"
proof -
  define w1 where "w1 = upd_buf (\<lambda>_. ''M'' @ A @ NUL # N @ NUL # D @ NUL # r) w"
  have "length (w_buf w1) = 4096" using assms(6,7) by (simp add: w1_def)
  moreover have "length A + length N + 3 \<le> length (w_buf w1)" by (simp add: w1_def)
  ultimately have "write_hex_loop cb a (length A + length N + 3) (hex_nat N) w1 = None" for a
    using assms(8) by (intro write_hex_loop_outside [OF assms(1)]) simp_all
  then show ?thesis
    using handle_write_memory_packet [OF assms(2-6), of cb, folded w1_def] by simp
qed

lemma write_memory_overread_witness:
  "handle_write_memory file_callbacks (packet_world (''M'' @ ''0'' @ CHR '','' # ''fff'' @ CHR '':'' # ''00'' @ NUL # replicate 4086 NUL)
    (\<lambda>_. 0 :: 32 word)) = None"
  by (rule write_memory_overread [where A = "''0''" and N = "''fff''" and D = "''00''" and r = "replicate 4086 NUL"])
    (simp_all add: file_callbacks_def hexstr_def isxdigit_def u8_def hex_nat_def xdigit_val_def)

text \<open>
  C40: A zero byte in the data of \<open>X\<close>, which the protocol sends as it is, ends the decoding
  early: the command is refused with E03 and nothing is written.
\<close>

theorem binary_write_zero_refused:
  fixes w :: "('x::len, 's) world"
  assumes "hexstr A" "hexstr N" "hex_nat N = length bs + Suc k" "length bs + Suc k \<le> 4096" "32 \<le> LENGTH('x)"
    and "0 \<notin> set bs" "w_buf w = ''X'' @ A @ CHR '','' # N @ CHR '':'' # rsp_escape bs @ NUL # r"
  shows "\<exists>w'. handle_write_memory_binary cb w = Some (reply ''E03'' w') \<and> w_sim w' = w_sim w"
proof -
  have "decode_rsp_binary (rsp_escape bs @ NUL # r) (hex_nat N) = Some (- 1, bs)"
    using assms(3,6) by (simp add: decode_rsp_binary_def decode_loop_escaped) (simp add: decode_loop.simps)
  moreover have "hex_nat N < 2 ^ 32" using assms(3,4) by simp
  ultimately show ?thesis
    using handle_write_memory_binary_packet [OF assms(1,2) _ assms(5) rsp_escape_no_NUL [OF assms(6)] assms(7), of cb] assms(3,4)
    by auto
qed

lemma binary_write_zero_refused_witness:
  "\<exists>w'. handle_write_memory_binary file_callbacks (packet_world
      (''X'' @ ''10'' @ CHR '','' # ''3'' @ CHR '':'' # rsp_escape [65] @ NUL # ''B'' @ [NUL]) (\<lambda>_. 0 :: 32 word))
    = Some (reply ''E03'' w') \<and> w_sim w' = (\<lambda>_. 0)"
  using binary_write_zero_refused [of "''10''" "''3''" "[65]" 1 "packet_world
      (''X'' @ ''10'' @ CHR '','' # ''3'' @ CHR '':'' # rsp_escape [65] @ NUL # ''B'' @ [NUL]) (\<lambda>_. 0 :: 32 word)"
      "''B'' @ [NUL]" file_callbacks]
  by (simp add: hexstr_def isxdigit_def u8_def hex_nat_def xdigit_val_def)

end
