(* ===== verification/Slot_Table.thy ===== *)
theory Slot_Table
  imports Stub_Prelude
begin

text \<open>
  The contract that the breakpoint and the watchpoint tables share. A table holds keys in
  slots; a key that has a slot is active or not. Insertion fails once every slot is taken,
  removal keeps the slot and only deactivates the key. The client part proves, for any
  provider of the contract, that a run of operations acts on the active set as the
  corresponding set operations do, and that slots are used up for good until a clear.

  The second part is about the shape of both providers: an array searched in order by key.
\<close>

subsection \<open>The contract\<close>

datatype 'k slot_op = Insert_op 'k | Remove_op 'k | Clear_op

fun slot_run :: "('k \<Rightarrow> 't \<Rightarrow> int \<times> 't) \<Rightarrow> ('k \<Rightarrow> 't \<Rightarrow> int \<times> 't) \<Rightarrow> ('t \<Rightarrow> 't) \<Rightarrow>
    'k slot_op \<Rightarrow> 't \<Rightarrow> 't" where
  "slot_run ins del clr (Insert_op k) t = snd (ins k t)"
| "slot_run ins del clr (Remove_op k) t = snd (del k t)"
| "slot_run ins del clr Clear_op t = clr t"

lemma slot_run_ops:
  "slot_run ins del clr \<circ> Insert_op = (\<lambda>k t. snd (ins k t))"
  "slot_run ins del clr \<circ> Remove_op = (\<lambda>k t. snd (del k t))"
  by (simp_all add: fun_eq_iff)

text \<open>The set operations: the active keys and the keys that have a slot.\<close>

fun slot_spec :: "('k \<Rightarrow> 'k) \<Rightarrow> nat \<Rightarrow> 'k slot_op \<Rightarrow> 'k set \<times> 'k set \<Rightarrow> 'k set \<times> 'k set" where
  "slot_spec norm n (Insert_op k) (act, sl) =
     (if card sl < n then (insert (norm k) act, insert (norm k) sl) else (act, sl))"
| "slot_spec norm n (Remove_op k) (act, sl) = (act - {k}, sl)"
| "slot_spec norm n Clear_op (act, sl) = ({}, {})"

locale slot_table =
  fixes ins :: "'k \<Rightarrow> 't \<Rightarrow> int \<times> 't"
    and del :: "'k \<Rightarrow> 't \<Rightarrow> int \<times> 't"
    and clr :: "'t \<Rightarrow> 't"
    and norm :: "'k \<Rightarrow> 'k"
    and active :: "'t \<Rightarrow> 'k set"
    and slots :: "'t \<Rightarrow> 'k set"
    and cap :: nat
    and inv :: "'t \<Rightarrow> bool"
  assumes inv_ins: "inv t \<Longrightarrow> inv (snd (ins k t))"
    and inv_del: "inv t \<Longrightarrow> inv (snd (del k t))"
    and inv_clr: "inv (clr t)"
    and active_slots: "inv t \<Longrightarrow> active t \<subseteq> slots t"
    and slots_finite: "inv t \<Longrightarrow> finite (slots t)"
    and slots_cap: "inv t \<Longrightarrow> card (slots t) \<le> cap"
    and ins_full: "inv t \<Longrightarrow> card (slots t) = cap \<Longrightarrow> ins k t = (- 1, t)"
    and ins_result: "inv t \<Longrightarrow> card (slots t) < cap \<Longrightarrow> fst (ins k t) = 0"
    and ins_active: "inv t \<Longrightarrow> card (slots t) < cap \<Longrightarrow>
      active (snd (ins k t)) = insert (norm k) (active t)"
    and ins_slots: "inv t \<Longrightarrow> card (slots t) < cap \<Longrightarrow>
      slots (snd (ins k t)) = insert (norm k) (slots t)"
    and del_result: "inv t \<Longrightarrow> fst (del k t) = (if k \<in> slots t then 0 else - 1)"
    and del_active: "inv t \<Longrightarrow> active (snd (del k t)) = active t - {k}"
    and del_slots: "inv t \<Longrightarrow> slots (snd (del k t)) = slots t"
    and clr_slots: "slots (clr t) = {}"
begin

lemma clr_active: "active (clr t) = {}"
  using active_slots [OF inv_clr] clr_slots by blast

lemma ins_effect:
  assumes "inv t"
  shows "slots (snd (ins k t)) = (if card (slots t) < cap then insert (norm k) (slots t) else slots t)"
    and "active (snd (ins k t)) = (if card (slots t) < cap then insert (norm k) (active t) else active t)"
    and "fst (ins k t) = (if card (slots t) < cap then 0 else - 1)"
  using assms slots_cap [OF assms] ins_full [OF assms, of k] ins_slots [OF assms, of k]
    ins_active [OF assms, of k] ins_result [OF assms, of k]
  by auto

abbreviation run_op :: "'k slot_op \<Rightarrow> 't \<Rightarrow> 't" where
  "run_op \<equiv> slot_run ins del clr"

lemma run_op_inv: "inv t \<Longrightarrow> inv (run_op p t)"
  by (cases p) (simp_all add: inv_ins inv_del inv_clr)

lemma run_op_refines:
  "inv t \<Longrightarrow> (active (run_op p t), slots (run_op p t)) = slot_spec norm cap p (active t, slots t)"
  by (cases p) (simp_all add: ins_effect del_active del_slots clr_active clr_slots)

text \<open>Any run of operations is a run of the set operations.\<close>

lemma run_refines:
  "inv t \<Longrightarrow> (active (fold run_op ps t), slots (fold run_op ps t))
     = fold (slot_spec norm cap) ps (active t, slots t)"
  by (induction ps arbitrary: t) (simp_all add: run_op_inv run_op_refines)

lemma run_inv: "inv t \<Longrightarrow> inv (fold run_op ps t)"
  by (induction ps arbitrary: t) (simp_all add: run_op_inv)

text \<open>Insertion succeeds while a slot is free, and the key is then active.\<close>

lemma insert_then_active:
  "inv t \<Longrightarrow> fst (ins k t) = 0 \<Longrightarrow> norm k \<in> active (snd (ins k t))"
  by (auto simp: ins_effect split: if_splits)

lemma remove_then_inactive: "inv t \<Longrightarrow> k \<notin> active (snd (del k t))"
  by (simp add: del_active)

text \<open>
  Inserting \<open>cap\<close> different keys and removing them all leaves no active key, yet
  every later insertion fails: the slots are not given back.
\<close>

lemma inserts_slots:
  assumes "inv t" "slots t = {}" "distinct (map norm ks)" "length ks \<le> cap"
  shows "slots (fold run_op (map Insert_op ks) t) = norm ` set ks"
  using assms(3,4)
proof (induction ks rule: rev_induct)
  case (snoc k ks)
  let ?t = "fold run_op (map Insert_op ks) t"
  have s: "slots ?t = norm ` set ks" using snoc by simp
  have "card (norm ` set ks) = length ks"
    using snoc.prems distinct_card [of "map norm ks"] by simp
  then show ?case using s snoc.prems run_inv [OF assms(1)] by (simp add: ins_effect)
qed (simp add: assms)

lemma removes_slots: "inv t \<Longrightarrow> slots (fold run_op (map Remove_op ks) t) = slots t"
  by (induction ks arbitrary: t) (simp_all add: del_slots inv_del)

lemma removes_active: "inv t \<Longrightarrow> active (fold run_op (map Remove_op ks) t) = active t - set ks"
  by (induction ks arbitrary: t) (auto simp: del_active inv_del)

lemma slots_exhausted:
  assumes "inv t" "slots t = {}" "distinct (map norm ks)" "length ks = cap" "map norm ks = ks"
  defines "t' \<equiv> fold run_op (map Insert_op ks @ map Remove_op ks) t"
  shows "active t' = {}" and "ins k t' = (- 1, t')"
proof -
  let ?u = "fold run_op (map Insert_op ks) t"
  have u: "inv ?u" "slots ?u = set ks"
    using run_inv [OF assms(1)] inserts_slots [OF assms(1-3)] assms(4,5)
    by (simp_all flip: set_map)
  have t': "t' = fold run_op (map Remove_op ks) ?u" by (simp add: t'_def)
  have "active ?u \<subseteq> set ks" using active_slots u by blast
  then show "active t' = {}" using u by (simp add: t' removes_active)
  have "card (slots t') = cap"
    using u assms(3-5) distinct_card [of ks] by (simp add: t' removes_slots)
  then show "ins k t' = (- 1, t')"
    using u(1) run_inv by (intro ins_full) (simp_all add: t')
qed

end

subsection \<open>Arrays searched by key\<close>

text \<open>
  The loops of both tables: \<open>for (i = 0; i < count; i++) if (a[i].key == k) ...\<close>
  finds the first slot with the key.
\<close>

definition find_slot :: "(nat \<Rightarrow> 'r) \<Rightarrow> nat \<Rightarrow> ('r \<Rightarrow> bool) \<Rightarrow> nat option" where
  "find_slot arr n P = find (\<lambda>i. P (arr i)) [0..<n]"

definition slot_keys :: "('r \<Rightarrow> 'k) \<Rightarrow> (nat \<Rightarrow> 'r) \<Rightarrow> nat \<Rightarrow> 'k set" where
  "slot_keys key arr n = (\<lambda>i. key (arr i)) ` {..<n}"

definition active_keys :: "('r \<Rightarrow> 'k) \<Rightarrow> ('r \<Rightarrow> bool) \<Rightarrow> (nat \<Rightarrow> 'r) \<Rightarrow> nat \<Rightarrow> 'k set" where
  "active_keys key on arr n = (\<lambda>i. key (arr i)) ` {i. i < n \<and> on (arr i)}"

definition keys_distinct :: "('r \<Rightarrow> 'k) \<Rightarrow> (nat \<Rightarrow> 'r) \<Rightarrow> nat \<Rightarrow> bool" where
  "keys_distinct key arr n = inj_on (\<lambda>i. key (arr i)) {..<n}"

lemma find_slot_Some:
  "find_slot arr n P = Some i \<Longrightarrow> i < n \<and> P (arr i) \<and> (\<forall>j<i. \<not> P (arr j))"
  by (auto simp: find_slot_def find_Some_iff)

lemma find_slot_None: "find_slot arr n P = None \<longleftrightarrow> (\<forall>i<n. \<not> P (arr i))"
  by (auto simp: find_slot_def find_None_iff)

lemma find_slot_key_None: "find_slot arr n (\<lambda>r. key r = k) = None \<longleftrightarrow> k \<notin> slot_keys key arr n"
  by (auto simp: find_slot_None slot_keys_def)

lemma active_keys_subset: "active_keys key on arr n \<subseteq> slot_keys key arr n"
  by (auto simp: active_keys_def slot_keys_def)

lemma active_keysD: "k \<in> active_keys key on arr n \<Longrightarrow> k \<in> slot_keys key arr n"
  using active_keys_subset by fast

lemma finite_slot_keys [simp]: "finite (slot_keys key arr n)"
  by (simp add: slot_keys_def)

lemma card_slot_keys: "keys_distinct key arr n \<Longrightarrow> card (slot_keys key arr n) = n"
  by (simp add: slot_keys_def keys_distinct_def card_image)

lemma slot_keys_0 [simp]: "slot_keys key arr 0 = {}" "keys_distinct key arr 0"
  by (simp_all add: slot_keys_def keys_distinct_def)

text \<open>Rewriting the flag of a slot, keeping its key.\<close>

lemma same_key_update:
  assumes "key r = key (arr i)"
  shows "slot_keys key (arr(i := r)) n = slot_keys key arr n"
    and "keys_distinct key (arr(i := r)) n = keys_distinct key arr n"
proof -
  have "(\<lambda>j. key ((arr(i := r)) j)) = (\<lambda>j. key (arr j))" using assms by auto
  then show "slot_keys key (arr(i := r)) n = slot_keys key arr n"
    and "keys_distinct key (arr(i := r)) n = keys_distinct key arr n"
    unfolding slot_keys_def keys_distinct_def by (simp_all only:)
qed

lemma active_update_on:
  assumes "i < n" "key r = key (arr i)" "on r"
  shows "active_keys key on (arr(i := r)) n = insert (key (arr i)) (active_keys key on arr n)"
  using assms by (auto simp: active_keys_def image_iff)

lemma active_update_off:
  assumes "i < n" "key r = key (arr i)" "\<not> on r" "keys_distinct key arr n"
  shows "active_keys key on (arr(i := r)) n = active_keys key on arr n - {key (arr i)}"
  using assms by (auto simp: active_keys_def image_iff keys_distinct_def inj_on_def)

text \<open>Taking the next free slot for a new key.\<close>

lemma slot_keys_Suc: "slot_keys key (arr(n := r)) (Suc n) = insert (key r) (slot_keys key arr n)"
proof -
  have "(\<lambda>i. key ((arr(n := r)) i)) ` {..<n} = (\<lambda>i. key (arr i)) ` {..<n}"
    by (rule image_cong) auto
  then show ?thesis by (simp add: slot_keys_def lessThan_Suc)
qed

lemma active_keys_Suc:
  "on r \<Longrightarrow> active_keys key on (arr(n := r)) (Suc n) = insert (key r) (active_keys key on arr n)"
  by (auto simp: active_keys_def less_Suc_eq image_iff)

lemma keys_distinct_Suc:
  "key r \<notin> slot_keys key arr n \<Longrightarrow> keys_distinct key (arr(n := r)) (Suc n) = keys_distinct key arr n"
proof -
  assume "key r \<notin> slot_keys key arr n"
  moreover have "(\<lambda>i. key ((arr(n := r)) i)) ` {..<n} = (\<lambda>i. key (arr i)) ` {..<n}"
    by (rule image_cong) auto
  moreover have "inj_on (\<lambda>i. key ((arr(n := r)) i)) {..<n} = inj_on (\<lambda>i. key (arr i)) {..<n}"
    by (rule inj_on_cong) auto
  ultimately show ?thesis
    by (simp add: keys_distinct_def slot_keys_def lessThan_Suc insert_Diff_if del: fun_upd_apply)
      simp
qed

end
