(* ===== verification/Breakpoints.thy ===== *)
theory Breakpoints
  imports Stub_State Slot_Table
begin

text \<open>
  Breakpoint management of src/src/gdb_stub.c: insertion, removal, clearing and the check
  made before an instruction. The table keeps one slot per address it has ever seen since
  the last clear; \<open>gdb_stub_remove_breakpoint\<close> only switches the slot off.
\<close>

definition bp_find :: "'x::len gdb_context \<Rightarrow> 'x word \<Rightarrow> nat option" where
  "bp_find ctx a = find_slot (breakpoints ctx) (breakpoint_count ctx) (\<lambda>b. bp_addr b = a)"

definition gdb_stub_add_breakpoint ::
    "'x word \<Rightarrow> 'x::len gdb_context \<Rightarrow> int \<times> 'x gdb_context" where
  "gdb_stub_add_breakpoint a ctx =
     (let arr = breakpoints ctx; n = breakpoint_count ctx in
      if n \<ge> MAX_BREAKPOINTS then (- 1, ctx)
      else case bp_find ctx a of
          Some i \<Rightarrow> (0, ctx\<lparr>breakpoints := arr(i := (arr i)\<lparr>bp_enabled := True\<rparr>)\<rparr>)
        | None \<Rightarrow> (0, ctx\<lparr>breakpoints := arr(n := \<lparr>bp_addr = a, bp_enabled = True\<rparr>),
                         breakpoint_count := n + 1\<rparr>))"

definition gdb_stub_remove_breakpoint ::
    "'x word \<Rightarrow> 'x::len gdb_context \<Rightarrow> int \<times> 'x gdb_context" where
  "gdb_stub_remove_breakpoint a ctx =
     (let arr = breakpoints ctx in
      case bp_find ctx a of
        Some i \<Rightarrow> (0, ctx\<lparr>breakpoints := arr(i := (arr i)\<lparr>bp_enabled := False\<rparr>)\<rparr>)
      | None \<Rightarrow> (- 1, ctx))"

definition gdb_stub_clear_breakpoints :: "'x::len gdb_context \<Rightarrow> 'x gdb_context" where
  "gdb_stub_clear_breakpoints ctx = ctx\<lparr>breakpoint_count := 0\<rparr>"

definition gdb_stub_check_breakpoint ::
    "'x word \<Rightarrow> 'x::len gdb_context \<Rightarrow> bool \<times> 'x gdb_context" where
  "gdb_stub_check_breakpoint pc ctx =
     (case find_slot (breakpoints ctx) (breakpoint_count ctx) (\<lambda>b. bp_enabled b \<and> bp_addr b = pc) of
        Some i \<Rightarrow> (True, ctx\<lparr>breakpoint_hit := True\<rparr>)
      | None \<Rightarrow> (False, ctx))"

subsection \<open>What the table stands for\<close>

definition bp_slots :: "'x::len gdb_context \<Rightarrow> 'x word set" where
  "bp_slots ctx = slot_keys bp_addr (breakpoints ctx) (breakpoint_count ctx)"

definition bp_active :: "'x::len gdb_context \<Rightarrow> 'x word set" where
  "bp_active ctx = active_keys bp_addr bp_enabled (breakpoints ctx) (breakpoint_count ctx)"

definition bp_inv :: "'x::len gdb_context \<Rightarrow> bool" where
  "bp_inv ctx = (breakpoint_count ctx \<le> MAX_BREAKPOINTS \<and>
     keys_distinct bp_addr (breakpoints ctx) (breakpoint_count ctx))"

lemmas bp_abs_defs = bp_slots_def bp_active_def bp_inv_def

lemma bp_find_None: "bp_find ctx a = None \<longleftrightarrow> a \<notin> bp_slots ctx"
  by (simp add: bp_find_def bp_slots_def find_slot_key_None)

lemma bp_find_Some:
  "bp_find ctx a = Some i \<Longrightarrow> i < breakpoint_count ctx \<and> bp_addr (breakpoints ctx i) = a"
  using find_slot_Some by (fastforce simp: bp_find_def)

lemma bp_find_SomeE:
  assumes "a \<in> bp_slots ctx"
  obtains i where "bp_find ctx a = Some i" "i < breakpoint_count ctx"
    "bp_addr (breakpoints ctx i) = a"
  using assms bp_find_None [of ctx a] bp_find_Some [of ctx a] by (cases "bp_find ctx a") auto

lemma card_bp_slots: "bp_inv ctx \<Longrightarrow> card (bp_slots ctx) = breakpoint_count ctx"
  by (simp add: bp_abs_defs card_slot_keys)

text \<open>
  Effect of the operations on slots, active addresses and the invariant: the provider
  side of the contract.
\<close>

lemma add_full: "bp_inv ctx \<Longrightarrow> card (bp_slots ctx) = 64 \<Longrightarrow> gdb_stub_add_breakpoint a ctx = (- 1, ctx)"
  by (simp add: card_bp_slots gdb_stub_add_breakpoint_def)

lemma add_effect:
  fixes a :: "'x::len word"
  assumes "bp_inv ctx" "card (bp_slots ctx) < 64"
  defines "r \<equiv> gdb_stub_add_breakpoint a ctx"
  shows "fst r = 0 \<and> bp_slots (snd r) = insert a (bp_slots ctx) \<and>
    bp_active (snd r) = insert a (bp_active ctx) \<and> bp_inv (snd r)"
proof (cases "a \<in> bp_slots ctx")
  case True
  then obtain i where i: "bp_find ctx a = Some i" "i < breakpoint_count ctx"
      "bp_addr (breakpoints ctx i) = a"
    by (rule bp_find_SomeE)
  with assms True show ?thesis
    by (simp add: r_def gdb_stub_add_breakpoint_def card_bp_slots Let_def)
      (simp add: bp_abs_defs same_key_update active_update_on insert_absorb)
next
  case False
  with assms show ?thesis
    by (simp add: r_def gdb_stub_add_breakpoint_def card_bp_slots Let_def flip: bp_find_None)
      (simp add: bp_abs_defs bp_find_None slot_keys_Suc active_keys_Suc keys_distinct_Suc)
qed

lemma remove_effect:
  fixes a :: "'x::len word"
  assumes "bp_inv ctx"
  defines "r \<equiv> gdb_stub_remove_breakpoint a ctx"
  shows "fst r = (if a \<in> bp_slots ctx then 0 else - 1) \<and> bp_slots (snd r) = bp_slots ctx \<and>
    bp_active (snd r) = bp_active ctx - {a} \<and> bp_inv (snd r)"
proof (cases "a \<in> bp_slots ctx")
  case True
  then obtain i where i: "bp_find ctx a = Some i" "i < breakpoint_count ctx"
      "bp_addr (breakpoints ctx i) = a"
    by (rule bp_find_SomeE)
  with assms True show ?thesis
    by (simp add: r_def gdb_stub_remove_breakpoint_def Let_def)
      (simp add: bp_abs_defs same_key_update active_update_off)
next
  case False
  then have "a \<notin> bp_active ctx" by (auto simp: bp_abs_defs dest: active_keysD)
  with False assms show ?thesis
    by (simp add: r_def gdb_stub_remove_breakpoint_def Let_def flip: bp_find_None)
qed

lemma clear_effect:
  "bp_slots (gdb_stub_clear_breakpoints ctx) = {}" "bp_inv (gdb_stub_clear_breakpoints ctx)"
  by (simp_all add: gdb_stub_clear_breakpoints_def bp_abs_defs)

interpretation bp: slot_table gdb_stub_add_breakpoint gdb_stub_remove_breakpoint
    gdb_stub_clear_breakpoints id bp_active bp_slots MAX_BREAKPOINTS bp_inv
proof
  fix t :: "'a gdb_context" and k
  assume t: "bp_inv t"
  show "bp_inv (snd (gdb_stub_add_breakpoint k t))"
    using add_full [OF t, of k] add_effect [OF t, of k] card_bp_slots [OF t] t
    by (cases "card (bp_slots t) < 64") (auto simp: bp_inv_def)
  show "card (bp_slots t) \<le> MAX_BREAKPOINTS" using t card_bp_slots [OF t] by (simp add: bp_inv_def)
  show "bp_active t \<subseteq> bp_slots t" "finite (bp_slots t)"
    by (auto simp: bp_abs_defs dest: active_keysD)
qed (simp_all add: add_full add_effect remove_effect clear_effect)

subsection \<open>The check\<close>

lemma check_breakpoint_eq:
  "gdb_stub_check_breakpoint pc ctx
     = (pc \<in> bp_active ctx, if pc \<in> bp_active ctx then ctx\<lparr>breakpoint_hit := True\<rparr> else ctx)"
  using find_slot_None [of "breakpoints ctx" "breakpoint_count ctx"]
  by (auto simp: gdb_stub_check_breakpoint_def bp_active_def active_keys_def image_iff
      split: option.split dest!: find_slot_Some)

text \<open>What the operations leave alone.\<close>

lemma breakpoint_frames [frame_simps]:
  "stub (snd (gdb_stub_add_breakpoint a ctx)) = stub ctx"
  "stub (snd (gdb_stub_remove_breakpoint a ctx)) = stub ctx"
  "stub (gdb_stub_clear_breakpoints ctx) = stub ctx"
  "stub (snd (gdb_stub_check_breakpoint a ctx)) = stub ctx"
  "watchpoints (snd (gdb_stub_add_breakpoint a ctx)) = watchpoints ctx"
  "watchpoint_count (snd (gdb_stub_add_breakpoint a ctx)) = watchpoint_count ctx"
  "multiprocess_active (snd (gdb_stub_add_breakpoint a ctx)) = multiprocess_active ctx"
  "watchpoints (snd (gdb_stub_remove_breakpoint a ctx)) = watchpoints ctx"
  "watchpoint_count (snd (gdb_stub_remove_breakpoint a ctx)) = watchpoint_count ctx"
  "multiprocess_active (snd (gdb_stub_remove_breakpoint a ctx)) = multiprocess_active ctx"
  by (simp_all add: gdb_stub_add_breakpoint_def gdb_stub_remove_breakpoint_def
      gdb_stub_clear_breakpoints_def gdb_stub_check_breakpoint_def Let_def split: option.split)

lemma zero_context_bp:
  fixes ctx :: "'x::len gdb_context"
  defines "ctx \<equiv> zero_context"
  shows "bp_slots ctx = {}" "bp_inv ctx" "bp_active ctx = {}"
  by (simp_all add: ctx_def zero_context_def bp_abs_defs active_keys_def)

subsection \<open>Properties of the breakpoint table\<close>

text \<open>
  C7: Any sequence of insertions, removals and clears acts on the set of active
  breakpoint addresses, and on the set of addresses that hold a slot, as the set operations
  of the contract do: an insertion adds the address while a slot is free, whether or not
  the address is new, a removal deactivates it, and the table invariant is kept.
\<close>

theorem breakpoint_table_refines:
  assumes "bp_inv ctx"
  shows "(bp_active (fold (slot_run gdb_stub_add_breakpoint gdb_stub_remove_breakpoint
              gdb_stub_clear_breakpoints) ops ctx),
          bp_slots (fold (slot_run gdb_stub_add_breakpoint gdb_stub_remove_breakpoint
              gdb_stub_clear_breakpoints) ops ctx))
       = fold (slot_spec id 64) ops (bp_active ctx, bp_slots ctx) \<and>
     bp_inv (fold (slot_run gdb_stub_add_breakpoint gdb_stub_remove_breakpoint
              gdb_stub_clear_breakpoints) ops ctx)"
  using bp.run_refines [OF assms] bp.run_inv [OF assms] by simp

lemma breakpoint_table_refines_witness:
  "bp_active (fold (slot_run gdb_stub_add_breakpoint gdb_stub_remove_breakpoint gdb_stub_clear_breakpoints)
     [Insert_op 16, Insert_op 32, Remove_op 16] (zero_context)) = {32 :: 32 word}"
  using breakpoint_table_refines [OF zero_context_bp(2) [where 'x = 32],
      of "[Insert_op 16, Insert_op 32, Remove_op 16]"] zero_context_bp [where 'x = 32] by auto

text \<open>
  C25: Slots are not given back by removal. After 64 different addresses have been inserted
  into an empty table and all of them removed, nothing is active, yet inserting any
  address fails and changes nothing.
\<close>

theorem breakpoint_slots_exhausted:
  fixes as :: "'x::len word list"
  assumes "distinct as" "length as = 64" "bp_inv ctx" "bp_slots ctx = {}"
  defines "ctx' \<equiv> fold (\<lambda>a c. snd (gdb_stub_remove_breakpoint a c)) as
      (fold (\<lambda>a c. snd (gdb_stub_add_breakpoint a c)) as ctx)"
  shows "bp_active ctx' = {} \<and> gdb_stub_add_breakpoint a ctx' = (- 1, ctx')"
proof -
  have "fold (slot_run gdb_stub_add_breakpoint gdb_stub_remove_breakpoint gdb_stub_clear_breakpoints)
      (map Insert_op as @ map Remove_op as) ctx = ctx'"
    by (simp add: ctx'_def fold_map slot_run_ops)
  then show ?thesis using bp.slots_exhausted [OF assms(3,4), of as] assms(1,2) by simp
qed

lemma breakpoint_slots_exhausted_witness:
  "\<exists>ctx :: 32 gdb_context. bp_active ctx = {} \<and> gdb_stub_add_breakpoint 0 ctx = (- 1, ctx)"
proof -
  have "distinct (map word_of_nat [0..<64] :: 32 word list)"
    by (auto simp: distinct_map inj_on_def word_unat_eq_iff unsigned_of_nat take_bit_nat_eq_self)
  then show ?thesis
    using breakpoint_slots_exhausted [of "map word_of_nat [0..<64]" "zero_context :: 32 gdb_context"]
      zero_context_bp [where 'x = 32] by fastforce
qed

end
