(* ===== verification/Watchpoints.thy ===== *)
theory Watchpoints
  imports Breakpoints
begin

text \<open>
  Watchpoint management of src/src/gdb_stub.c. A slot is identified by address, length and
  type; the checks made on each memory access look for an enabled slot of a matching type
  that overlaps the access, and record the address of the first one.
\<close>

definition ranges_overlap ::
    "'x::len word \<Rightarrow> 'x word \<Rightarrow> 'x word \<Rightarrow> 'x word \<Rightarrow> bool" where
  "ranges_overlap addr1 len1 addr2 len2 =
     (if len1 = 0 \<or> len2 = 0 then False
      else let end1 = (ucast addr1 :: 64 word) + ucast len1;
               end2 = (ucast addr2 :: 64 word) + ucast len2
           in ucast addr1 < end2 \<and> ucast addr2 < end1)"

definition wp_is :: "'x word \<Rightarrow> 'x word \<Rightarrow> watchpoint_type \<Rightarrow> 'x::len watchpoint \<Rightarrow> bool" where
  "wp_is a l ty wp = (wp_addr wp = a \<and> wp_len wp = l \<and> wp_type wp = ty)"

definition gdb_stub_add_watchpoint ::
    "'x word \<Rightarrow> 'x word \<Rightarrow> watchpoint_type \<Rightarrow> 'x::len gdb_context \<Rightarrow> int \<times> 'x gdb_context" where
  "gdb_stub_add_watchpoint a l0 ty ctx =
     (let l = (if l0 = 0 then 4 else l0); arr = watchpoints ctx; n = watchpoint_count ctx in
      if n \<ge> MAX_WATCHPOINTS then (- 1, ctx)
      else case find_slot arr n (wp_is a l ty) of
          Some i \<Rightarrow> (0, ctx\<lparr>watchpoints := arr(i := (arr i)\<lparr>wp_enabled := True\<rparr>)\<rparr>)
        | None \<Rightarrow> (0, ctx\<lparr>watchpoints :=
              arr(n := \<lparr>wp_addr = a, wp_len = l, wp_type = ty, wp_enabled = True\<rparr>),
              watchpoint_count := n + 1\<rparr>))"

definition gdb_stub_remove_watchpoint ::
    "'x word \<Rightarrow> 'x word \<Rightarrow> watchpoint_type \<Rightarrow> 'x::len gdb_context \<Rightarrow> int \<times> 'x gdb_context" where
  "gdb_stub_remove_watchpoint a l ty ctx =
     (let arr = watchpoints ctx in
      case find_slot arr (watchpoint_count ctx) (wp_is a l ty) of
        Some i \<Rightarrow> (0, ctx\<lparr>watchpoints := arr(i := (arr i)\<lparr>wp_enabled := False\<rparr>)\<rparr>)
      | None \<Rightarrow> (- 1, ctx))"

definition gdb_stub_clear_watchpoints :: "'x::len gdb_context \<Rightarrow> 'x gdb_context" where
  "gdb_stub_clear_watchpoints ctx = ctx\<lparr>watchpoint_count := 0\<rparr>"

definition wp_triggers ::
    "watchpoint_type \<Rightarrow> 'x word \<Rightarrow> 'x word \<Rightarrow> 'x::len watchpoint \<Rightarrow> bool" where
  "wp_triggers ty a l wp = (wp_enabled wp \<and> (wp_type wp = ty \<or> wp_type wp = WATCHPOINT_ACCESS) \<and>
     ranges_overlap a l (wp_addr wp) (wp_len wp))"

definition gdb_stub_check_watchpoint_read ::
    "'x word \<Rightarrow> 'x word \<Rightarrow> 'x::len gdb_context \<Rightarrow> bool \<times> 'x gdb_context" where
  "gdb_stub_check_watchpoint_read a l ctx =
     (case find_slot (watchpoints ctx) (watchpoint_count ctx) (wp_triggers WATCHPOINT_READ a l) of
        Some i \<Rightarrow> (True, ctx\<lparr>last_watchpoint_addr := wp_addr (watchpoints ctx i)\<rparr>)
      | None \<Rightarrow> (False, ctx))"

definition gdb_stub_check_watchpoint_write ::
    "'x word \<Rightarrow> 'x word \<Rightarrow> 'x::len gdb_context \<Rightarrow> bool \<times> 'x gdb_context" where
  "gdb_stub_check_watchpoint_write a l ctx =
     (case find_slot (watchpoints ctx) (watchpoint_count ctx) (wp_triggers WATCHPOINT_WRITE a l) of
        Some i \<Rightarrow> (True, ctx\<lparr>last_watchpoint_addr := wp_addr (watchpoints ctx i)\<rparr>)
      | None \<Rightarrow> (False, ctx))"

subsection \<open>Overlap of address ranges\<close>

text \<open>
  Up to 63 address bits the 64-bit ends cannot wrap, so the test is the overlap of the two
  intervals of byte addresses.
\<close>

lemma unat_end:
  assumes "LENGTH('x::len) < 64"
  shows "unat ((ucast (a :: 'x word) :: 64 word) + ucast (l :: 'x word)) = unat a + unat l"
proof -
  have "(2 :: nat) ^ LENGTH('x) \<le> 2 ^ 63" using assms by (intro power_increasing) auto
  then have "unat v < 2 ^ 63" for v :: "'x word"
    using unsigned_less [of v, where 'a = nat] by (rule less_le_trans [rotated])
  from this [of a] this [of l] have "unat a + unat l < 2 ^ 64" by simp
  moreover have "unat (ucast a :: 64 word) = unat a" "unat (ucast l :: 64 word) = unat l"
    using assms by (simp_all add: unat_ucast_up)
  ultimately show ?thesis by (simp add: unat_word_ariths(1))
qed

lemma intervals_meet:
  "{a..<b} \<inter> {c..<d} \<noteq> {} \<longleftrightarrow> a < b \<and> c < d \<and> a < d \<and> c < (b :: nat)"
  by (auto simp: set_eq_iff intro!: exI [of _ "max a c"])

lemma ranges_overlap_iff:
  assumes "LENGTH('x::len) < 64"
  shows "ranges_overlap a1 l1 a2 (l2 :: 'x word) \<longleftrightarrow>
    {unat a1..<unat a1 + unat l1} \<inter> {unat a2..<unat a2 + unat l2} \<noteq> {}"
proof -
  have "unat (ucast (a :: 'x word) :: 64 word) = unat a" for a
    using assms by (simp add: unat_ucast_up)
  then have "ranges_overlap a1 l1 a2 l2 \<longleftrightarrow>
      0 < unat l1 \<and> 0 < unat l2 \<and> unat a1 < unat a2 + unat l2 \<and> unat a2 < unat a1 + unat l1"
    using assms by (auto simp: ranges_overlap_def Let_def word_less_nat_alt unat_end unat_gt_0)
  then show ?thesis by (auto simp: intervals_meet)
qed

subsection \<open>What the table stands for\<close>

type_synonym 'x wp_key = "'x word \<times> 'x word \<times> watchpoint_type"

definition wp_key :: "'x::len watchpoint \<Rightarrow> 'x wp_key" where
  "wp_key wp = (wp_addr wp, wp_len wp, wp_type wp)"

definition wp_norm :: "'x::len wp_key \<Rightarrow> 'x wp_key" where
  "wp_norm = (\<lambda>(a, l, ty). (a, if l = 0 then 4 else l, ty))"

definition wp_slots :: "'x::len gdb_context \<Rightarrow> 'x wp_key set" where
  "wp_slots ctx = slot_keys wp_key (watchpoints ctx) (watchpoint_count ctx)"

definition wp_active :: "'x::len gdb_context \<Rightarrow> 'x wp_key set" where
  "wp_active ctx = active_keys wp_key wp_enabled (watchpoints ctx) (watchpoint_count ctx)"

definition wp_inv :: "'x::len gdb_context \<Rightarrow> bool" where
  "wp_inv ctx = (watchpoint_count ctx \<le> MAX_WATCHPOINTS \<and>
     keys_distinct wp_key (watchpoints ctx) (watchpoint_count ctx))"

lemmas wp_abs_defs = wp_slots_def wp_active_def wp_inv_def

definition wp_add :: "'x::len wp_key \<Rightarrow> 'x gdb_context \<Rightarrow> int \<times> 'x gdb_context" where
  "wp_add = (\<lambda>(a, l, ty). gdb_stub_add_watchpoint a l ty)"

definition wp_remove :: "'x::len wp_key \<Rightarrow> 'x gdb_context \<Rightarrow> int \<times> 'x gdb_context" where
  "wp_remove = (\<lambda>(a, l, ty). gdb_stub_remove_watchpoint a l ty)"

lemma wp_is_key: "wp_is a l ty wp \<longleftrightarrow> wp_key wp = (a, l, ty)"
  by (simp add: wp_is_def wp_key_def)

lemma wp_find_None:
  "find_slot (watchpoints ctx) (watchpoint_count ctx) (wp_is a l ty) = None
     \<longleftrightarrow> (a, l, ty) \<notin> wp_slots ctx"
  by (simp add: wp_is_key [abs_def] wp_slots_def find_slot_key_None)

lemma wp_find_SomeE:
  assumes "(a, l, ty) \<in> wp_slots ctx"
  obtains i where "find_slot (watchpoints ctx) (watchpoint_count ctx) (wp_is a l ty) = Some i"
    "i < watchpoint_count ctx" "wp_key (watchpoints ctx i) = (a, l, ty)"
  using assms wp_find_None [of ctx a l ty]
    find_slot_Some [of "watchpoints ctx" "watchpoint_count ctx" "wp_is a l ty"]
  by (cases "find_slot (watchpoints ctx) (watchpoint_count ctx) (wp_is a l ty)")
    (auto simp: wp_is_key)

lemma wp_key_flag [simp]: "wp_key (wp\<lparr>wp_enabled := b\<rparr>) = wp_key wp"
  by (simp add: wp_key_def)

lemma card_wp_slots: "wp_inv ctx \<Longrightarrow> card (wp_slots ctx) = watchpoint_count ctx"
  by (simp add: wp_abs_defs card_slot_keys)

lemma wp_add_full: "wp_inv ctx \<Longrightarrow> card (wp_slots ctx) = 32 \<Longrightarrow> wp_add k ctx = (- 1, ctx)"
  by (cases k) (simp add: card_wp_slots wp_add_def gdb_stub_add_watchpoint_def Let_def)

lemma wp_add_effect:
  fixes k :: "'x::len wp_key"
  assumes "wp_inv ctx" "card (wp_slots ctx) < 32"
  shows "fst (wp_add k ctx) = 0 \<and> wp_slots (snd (wp_add k ctx)) = insert (wp_norm k) (wp_slots ctx) \<and>
    wp_active (snd (wp_add k ctx)) = insert (wp_norm k) (wp_active ctx) \<and> wp_inv (snd (wp_add k ctx))"
proof -
  obtain a l ty where n: "wp_norm k = (a, l, ty)" by (cases "wp_norm k") auto
  then have r: "wp_add k ctx = (let arr = watchpoints ctx; n = watchpoint_count ctx in
      case find_slot arr n (wp_is a l ty) of
          Some i \<Rightarrow> (0, ctx\<lparr>watchpoints := arr(i := (arr i)\<lparr>wp_enabled := True\<rparr>)\<rparr>)
        | None \<Rightarrow> (0, ctx\<lparr>watchpoints :=
              arr(n := \<lparr>wp_addr = a, wp_len = l, wp_type = ty, wp_enabled = True\<rparr>),
              watchpoint_count := n + 1\<rparr>))"
    using assms
    by (cases k) (auto simp: wp_add_def gdb_stub_add_watchpoint_def card_wp_slots wp_norm_def Let_def)
  show ?thesis
  proof (cases "(a, l, ty) \<in> wp_slots ctx")
    case True
    then obtain i where "find_slot (watchpoints ctx) (watchpoint_count ctx) (wp_is a l ty) = Some i"
      "i < watchpoint_count ctx" "wp_key (watchpoints ctx i) = (a, l, ty)"
      by (rule wp_find_SomeE)
    with assms True show ?thesis
      by (simp add: r n Let_def)
        (simp add: wp_abs_defs same_key_update active_update_on insert_absorb)
  next
    case False
    moreover have "wp_key \<lparr>wp_addr = a, wp_len = l, wp_type = ty, wp_enabled = True\<rparr> = (a, l, ty)"
      by (simp add: wp_key_def)
    moreover have "watchpoint_count ctx < 32" using assms by (simp add: card_wp_slots)
    ultimately show ?thesis using assms
      by (simp add: r n Let_def flip: wp_find_None)
        (simp add: wp_abs_defs wp_find_None slot_keys_Suc active_keys_Suc keys_distinct_Suc)
  qed
qed

lemma wp_remove_effect:
  fixes k :: "'x::len wp_key"
  assumes "wp_inv ctx"
  defines "r \<equiv> wp_remove k ctx"
  shows "fst r = (if k \<in> wp_slots ctx then 0 else - 1) \<and> wp_slots (snd r) = wp_slots ctx \<and>
    wp_active (snd r) = wp_active ctx - {k} \<and> wp_inv (snd r)"
proof -
  obtain a l ty where k: "k = (a, l, ty)" by (cases k) auto
  show ?thesis
  proof (cases "k \<in> wp_slots ctx")
    case True
    with k obtain i where "find_slot (watchpoints ctx) (watchpoint_count ctx) (wp_is a l ty) = Some i"
      "i < watchpoint_count ctx" "wp_key (watchpoints ctx i) = (a, l, ty)"
      using wp_find_SomeE by blast
    with assms True k show ?thesis
      by (simp add: r_def wp_remove_def gdb_stub_remove_watchpoint_def Let_def)
        (simp add: wp_abs_defs same_key_update active_update_off)
  next
    case False
    then have "k \<notin> wp_active ctx" by (auto simp: wp_abs_defs dest: active_keysD)
    with False assms k show ?thesis
      by (simp add: r_def wp_remove_def gdb_stub_remove_watchpoint_def Let_def flip: wp_find_None)
  qed
qed

lemma wp_clear_effect:
  "wp_slots (gdb_stub_clear_watchpoints ctx) = {}" "wp_inv (gdb_stub_clear_watchpoints ctx)"
  by (simp_all add: gdb_stub_clear_watchpoints_def wp_abs_defs)

interpretation wp: slot_table wp_add wp_remove gdb_stub_clear_watchpoints wp_norm
    wp_active wp_slots MAX_WATCHPOINTS wp_inv
proof
  fix t :: "'a gdb_context" and k
  assume t: "wp_inv t"
  show "wp_inv (snd (wp_add k t))"
    using wp_add_full [OF t, of k] wp_add_effect [OF t, of k] card_wp_slots [OF t] t
    by (cases "card (wp_slots t) < 32") (auto simp: wp_inv_def)
  show "card (wp_slots t) \<le> MAX_WATCHPOINTS" using t card_wp_slots [OF t] by (simp add: wp_inv_def)
  show "wp_active t \<subseteq> wp_slots t" "finite (wp_slots t)"
    by (auto simp: wp_abs_defs dest: active_keysD)
qed (simp_all add: wp_add_full wp_add_effect wp_remove_effect wp_clear_effect)

subsection \<open>The checks\<close>

definition wp_hit :: "watchpoint_type \<Rightarrow> 'x::len word \<Rightarrow> 'x word \<Rightarrow> 'x gdb_context \<Rightarrow> bool" where
  "wp_hit ty a l ctx = (\<exists>(a', l', ty') \<in> wp_active ctx.
     (ty' = ty \<or> ty' = WATCHPOINT_ACCESS) \<and> ranges_overlap a l a' l')"

lemma wp_scan_None:
  "find_slot (watchpoints ctx) (watchpoint_count ctx) (wp_triggers ty a l) = None
     \<longleftrightarrow> \<not> wp_hit ty a l ctx"
  by (auto simp: find_slot_None wp_triggers_def wp_hit_def wp_active_def active_keys_def wp_key_def)

lemma check_read_result: "fst (gdb_stub_check_watchpoint_read a l ctx) = wp_hit WATCHPOINT_READ a l ctx"
  using wp_scan_None [of ctx WATCHPOINT_READ a l]
  by (auto simp: gdb_stub_check_watchpoint_read_def split: option.split)

lemma check_write_result: "fst (gdb_stub_check_watchpoint_write a l ctx) = wp_hit WATCHPOINT_WRITE a l ctx"
  using wp_scan_None [of ctx WATCHPOINT_WRITE a l]
  by (auto simp: gdb_stub_check_watchpoint_write_def split: option.split)

lemma wp_scan_Some:
  assumes "find_slot (watchpoints ctx) (watchpoint_count ctx) (wp_triggers ty a l) = Some i"
  shows "(wp_addr (watchpoints ctx i), wp_len (watchpoints ctx i), wp_type (watchpoints ctx i)) \<in> wp_active ctx"
    "wp_type (watchpoints ctx i) = ty \<or> wp_type (watchpoints ctx i) = WATCHPOINT_ACCESS"
    "ranges_overlap a l (wp_addr (watchpoints ctx i)) (wp_len (watchpoints ctx i))"
  using find_slot_Some [OF assms] by (auto simp: wp_triggers_def wp_active_def active_keys_def wp_key_def)

text \<open>A hit is that of an active watchpoint, whose address is kept.\<close>

lemma check_hit:
  "wp_hit WATCHPOINT_READ a l ctx \<Longrightarrow> \<exists>wa wl ty. (wa, wl, ty) \<in> wp_active ctx \<and>
     (ty = WATCHPOINT_READ \<or> ty = WATCHPOINT_ACCESS) \<and> ranges_overlap a l wa wl \<and>
     gdb_stub_check_watchpoint_read a l ctx = (True, ctx\<lparr>last_watchpoint_addr := wa\<rparr>)"
  "wp_hit WATCHPOINT_WRITE a l ctx \<Longrightarrow> \<exists>wa wl ty. (wa, wl, ty) \<in> wp_active ctx \<and>
     (ty = WATCHPOINT_WRITE \<or> ty = WATCHPOINT_ACCESS) \<and> ranges_overlap a l wa wl \<and>
     gdb_stub_check_watchpoint_write a l ctx = (True, ctx\<lparr>last_watchpoint_addr := wa\<rparr>)"
proof -
  have scan: "\<exists>i. find_slot (watchpoints ctx) (watchpoint_count ctx) (wp_triggers ty a l) = Some i" if "wp_hit ty a l ctx" for ty
    using that wp_scan_None [of ctx ty a l] by (cases "find_slot (watchpoints ctx) (watchpoint_count ctx) (wp_triggers ty a l)") simp_all
  { assume "wp_hit WATCHPOINT_READ a l ctx"
    then obtain i where i: "find_slot (watchpoints ctx) (watchpoint_count ctx) (wp_triggers WATCHPOINT_READ a l) = Some i"
      using scan by blast
    show "\<exists>wa wl ty. (wa, wl, ty) \<in> wp_active ctx \<and> (ty = WATCHPOINT_READ \<or> ty = WATCHPOINT_ACCESS) \<and>
        ranges_overlap a l wa wl \<and> gdb_stub_check_watchpoint_read a l ctx = (True, ctx\<lparr>last_watchpoint_addr := wa\<rparr>)"
      using wp_scan_Some [OF i] i by (intro exI conjI) (assumption | simp add: gdb_stub_check_watchpoint_read_def)+ }
  { assume "wp_hit WATCHPOINT_WRITE a l ctx"
    then obtain i where i: "find_slot (watchpoints ctx) (watchpoint_count ctx) (wp_triggers WATCHPOINT_WRITE a l) = Some i"
      using scan by blast
    show "\<exists>wa wl ty. (wa, wl, ty) \<in> wp_active ctx \<and> (ty = WATCHPOINT_WRITE \<or> ty = WATCHPOINT_ACCESS) \<and>
        ranges_overlap a l wa wl \<and> gdb_stub_check_watchpoint_write a l ctx = (True, ctx\<lparr>last_watchpoint_addr := wa\<rparr>)"
      using wp_scan_Some [OF i] i by (intro exI conjI) (assumption | simp add: gdb_stub_check_watchpoint_write_def)+ }
qed

lemma check_no_hit:
  "\<not> wp_hit WATCHPOINT_READ a l ctx \<Longrightarrow> gdb_stub_check_watchpoint_read a l ctx = (False, ctx)"
  "\<not> wp_hit WATCHPOINT_WRITE a l ctx \<Longrightarrow> gdb_stub_check_watchpoint_write a l ctx = (False, ctx)"
  by (simp_all add: gdb_stub_check_watchpoint_read_def gdb_stub_check_watchpoint_write_def
      flip: wp_scan_None)

lemma watchpoint_frames [frame_simps]:
  "stub (snd (gdb_stub_add_watchpoint a l ty ctx)) = stub ctx"
  "stub (snd (gdb_stub_remove_watchpoint a l ty ctx)) = stub ctx"
  "stub (gdb_stub_clear_watchpoints ctx) = stub ctx"
  "stub (snd (gdb_stub_check_watchpoint_read a l ctx)) = stub ctx"
  "stub (snd (gdb_stub_check_watchpoint_write a l ctx)) = stub ctx"
  by (simp_all add: gdb_stub_add_watchpoint_def gdb_stub_remove_watchpoint_def
      gdb_stub_clear_watchpoints_def gdb_stub_check_watchpoint_read_def
      gdb_stub_check_watchpoint_write_def Let_def split: option.split)

lemma wp_op_frames [frame_simps]:
  "stub (snd (wp_add k ctx)) = stub ctx" "stub (snd (wp_remove k ctx)) = stub ctx"
  "breakpoints (snd (wp_add k ctx)) = breakpoints ctx" "breakpoints (snd (wp_remove k ctx)) = breakpoints ctx"
  "breakpoint_count (snd (wp_add k ctx)) = breakpoint_count ctx"
  "breakpoint_count (snd (wp_remove k ctx)) = breakpoint_count ctx"
  "multiprocess_active (snd (wp_add k ctx)) = multiprocess_active ctx"
  "multiprocess_active (snd (wp_remove k ctx)) = multiprocess_active ctx"
  by (cases k; simp add: wp_add_def wp_remove_def gdb_stub_add_watchpoint_def gdb_stub_remove_watchpoint_def Let_def
      split: option.split)+

lemma zero_context_wp:
  fixes ctx :: "'x::len gdb_context"
  defines "ctx \<equiv> zero_context"
  shows "wp_slots ctx = {}" "wp_inv ctx" "wp_active ctx = {}"
  by (simp_all add: ctx_def zero_context_def wp_abs_defs active_keys_def)

subsection \<open>Properties of the watchpoint table\<close>

text \<open>
  C24: Any sequence of watchpoint insertions, removals and clears acts on the set of active
  watchpoints (address, length, type) and on the set that hold a slot as the set operations
  of the contract do, where an insertion, and only an insertion, takes length 0 for 4.
\<close>

theorem watchpoint_table_refines:
  assumes "wp_inv ctx"
  shows "(wp_active (fold (slot_run wp_add wp_remove gdb_stub_clear_watchpoints) ops ctx),
          wp_slots (fold (slot_run wp_add wp_remove gdb_stub_clear_watchpoints) ops ctx))
       = fold (slot_spec wp_norm 32) ops (wp_active ctx, wp_slots ctx) \<and>
     wp_inv (fold (slot_run wp_add wp_remove gdb_stub_clear_watchpoints) ops ctx)"
  using wp.run_refines [OF assms] wp.run_inv [OF assms] by simp

lemma watchpoint_table_refines_witness:
  "wp_active (fold (slot_run wp_add wp_remove gdb_stub_clear_watchpoints)
     [Insert_op (16, 0, WATCHPOINT_READ), Remove_op (16, 0, WATCHPOINT_READ)]
     zero_context) = {(16 :: 32 word, 4, WATCHPOINT_READ)}"
  using watchpoint_table_refines [OF zero_context_wp(2) [where 'x = 32],
      of "[Insert_op (16, 0, WATCHPOINT_READ), Remove_op (16, 0, WATCHPOINT_READ)]"]
    zero_context_wp [where 'x = 32]
  by (simp add: wp_norm_def)

text \<open>
  C15: A memory access triggers exactly when some active watchpoint of its kind (or of the
  access kind) shares a byte address with it. A hit stores the address of such a watchpoint,
  and not that of the access, as the one to report, and changes nothing else of the context;
  without a hit the context is unchanged. For addresses of less than 64 bits.
\<close>

theorem watchpoint_check_exact:
  fixes a l :: "'x::len word"
  assumes "LENGTH('x) < 64"
  shows "(fst (gdb_stub_check_watchpoint_write a l ctx) \<longleftrightarrow>
      (\<exists>(a', l', ty) \<in> wp_active ctx. (ty = WATCHPOINT_WRITE \<or> ty = WATCHPOINT_ACCESS) \<and>
        {unat a..<unat a + unat l} \<inter> {unat a'..<unat a' + unat l'} \<noteq> {})) \<and>
    (fst (gdb_stub_check_watchpoint_read a l ctx) \<longleftrightarrow>
      (\<exists>(a', l', ty) \<in> wp_active ctx. (ty = WATCHPOINT_READ \<or> ty = WATCHPOINT_ACCESS) \<and>
        {unat a..<unat a + unat l} \<inter> {unat a'..<unat a' + unat l'} \<noteq> {})) \<and>
    (fst (gdb_stub_check_watchpoint_write a l ctx) \<longrightarrow>
      (\<exists>(a', l', ty) \<in> wp_active ctx. (ty = WATCHPOINT_WRITE \<or> ty = WATCHPOINT_ACCESS) \<and>
        {unat a..<unat a + unat l} \<inter> {unat a'..<unat a' + unat l'} \<noteq> {} \<and>
        snd (gdb_stub_check_watchpoint_write a l ctx) = ctx\<lparr>last_watchpoint_addr := a'\<rparr>)) \<and>
    (fst (gdb_stub_check_watchpoint_read a l ctx) \<longrightarrow>
      (\<exists>(a', l', ty) \<in> wp_active ctx. (ty = WATCHPOINT_READ \<or> ty = WATCHPOINT_ACCESS) \<and>
        {unat a..<unat a + unat l} \<inter> {unat a'..<unat a' + unat l'} \<noteq> {} \<and>
        snd (gdb_stub_check_watchpoint_read a l ctx) = ctx\<lparr>last_watchpoint_addr := a'\<rparr>)) \<and>
    (\<not> fst (gdb_stub_check_watchpoint_write a l ctx) \<longrightarrow> snd (gdb_stub_check_watchpoint_write a l ctx) = ctx) \<and>
    (\<not> fst (gdb_stub_check_watchpoint_read a l ctx) \<longrightarrow> snd (gdb_stub_check_watchpoint_read a l ctx) = ctx)"
  (is "?w \<and> ?r \<and> ?hw \<and> ?hr \<and> ?nw \<and> ?nr")
proof (intro conjI)
  note overlap = ranges_overlap_iff [OF assms]
  show ?w ?r unfolding check_write_result check_read_result wp_hit_def overlap by auto
  show ?hw
  proof
    assume "fst (gdb_stub_check_watchpoint_write a l ctx)"
    then obtain a' l' ty where "(a', l', ty) \<in> wp_active ctx" "ty = WATCHPOINT_WRITE \<or> ty = WATCHPOINT_ACCESS"
        "ranges_overlap a l a' l'" "gdb_stub_check_watchpoint_write a l ctx = (True, ctx\<lparr>last_watchpoint_addr := a'\<rparr>)"
      using check_hit(2) check_write_result by blast
    then show "\<exists>(a', l', ty) \<in> wp_active ctx. (ty = WATCHPOINT_WRITE \<or> ty = WATCHPOINT_ACCESS) \<and>
        {unat a..<unat a + unat l} \<inter> {unat a'..<unat a' + unat l'} \<noteq> {} \<and>
        snd (gdb_stub_check_watchpoint_write a l ctx) = ctx\<lparr>last_watchpoint_addr := a'\<rparr>"
      unfolding overlap by (intro bexI [of _ "(a', l', ty)"]) simp_all
  qed
  show ?hr
  proof
    assume "fst (gdb_stub_check_watchpoint_read a l ctx)"
    then obtain a' l' ty where "(a', l', ty) \<in> wp_active ctx" "ty = WATCHPOINT_READ \<or> ty = WATCHPOINT_ACCESS"
        "ranges_overlap a l a' l'" "gdb_stub_check_watchpoint_read a l ctx = (True, ctx\<lparr>last_watchpoint_addr := a'\<rparr>)"
      using check_hit(1) check_read_result by blast
    then show "\<exists>(a', l', ty) \<in> wp_active ctx. (ty = WATCHPOINT_READ \<or> ty = WATCHPOINT_ACCESS) \<and>
        {unat a..<unat a + unat l} \<inter> {unat a'..<unat a' + unat l'} \<noteq> {} \<and>
        snd (gdb_stub_check_watchpoint_read a l ctx) = ctx\<lparr>last_watchpoint_addr := a'\<rparr>"
      unfolding overlap by (intro bexI [of _ "(a', l', ty)"]) simp_all
  qed
  show ?nw ?nr using check_no_hit [of a l ctx] by (auto simp: check_write_result check_read_result)
qed

lemma watchpoint_check_exact_witness:
  "\<exists>ctx. gdb_stub_add_watchpoint (0x1000 :: 32 word) 4 WATCHPOINT_WRITE zero_context = (0, ctx) \<and>
     fst (gdb_stub_check_watchpoint_write 0x1002 4 ctx) \<and>
     last_watchpoint_addr (snd (gdb_stub_check_watchpoint_write 0x1002 4 ctx)) = 0x1000 \<and>
     gdb_stub_check_watchpoint_read 0x1002 4 ctx = (False, ctx)"
proof -
  let ?k = "(0x1000 :: 32 word, 4 :: 32 word, WATCHPOINT_WRITE)"
  obtain ctx where ctx: "wp_add ?k zero_context = (0, ctx)" "wp_active ctx = {?k}"
    using wp_add_effect [of zero_context ?k] zero_context_wp [where 'x = 32]
    by (cases "wp_add ?k zero_context") (auto simp: wp_norm_def)
  have "{unat (0x1002 :: 32 word)..<unat (0x1002 :: 32 word) + unat (4 :: 32 word)} \<inter>
      {unat (0x1000 :: 32 word)..<unat (0x1000 :: 32 word) + unat (4 :: 32 word)} \<noteq> {}"
    (is "?A \<noteq> {}")
  proof -
    have "0x1002 \<in> ?A" by simp
    then show ?thesis by blast
  qed
  with watchpoint_check_exact [of "0x1002 :: 32 word" 4 ctx] ctx show ?thesis
    by (auto simp: wp_add_def prod_eq_iff)
qed

text \<open>
  C26: With 64-bit addresses the end of a range wraps to zero when it is the end of the
  address space: while every active watchpoint ends there, no load or store is ever reported, one
  to the watched bytes themselves included.
\<close>

theorem watchpoint_misses_last_word:
  fixes ctx :: "64 gdb_context"
  assumes "\<forall>(wa, wl, ty) \<in> wp_active ctx. wa + wl = 0"
  shows "gdb_stub_check_watchpoint_read a l ctx = (False, ctx) \<and> gdb_stub_check_watchpoint_write a l ctx = (False, ctx)"
proof -
  have "\<not> ranges_overlap a l wa wl" if "wa + wl = 0" for wa wl :: "64 word"
    using that by (simp add: ranges_overlap_def)
  then have "\<not> wp_hit ty a l ctx" for ty using assms by (auto simp: wp_hit_def)
  then show ?thesis by (simp add: check_no_hit)
qed

lemma watchpoint_misses_last_word_witness:
  "\<exists>ctx. gdb_stub_add_watchpoint (0xFFFFFFFFFFFFFFFC :: 64 word) 4 WATCHPOINT_WRITE zero_context = (0, ctx) \<and>
     gdb_stub_check_watchpoint_write 0xFFFFFFFFFFFFFFFC 4 ctx = (False, ctx)"
proof -
  let ?k = "(0xFFFFFFFFFFFFFFFC :: 64 word, 4 :: 64 word, WATCHPOINT_WRITE)"
  obtain ctx where ctx: "wp_add ?k zero_context = (0, ctx)" "wp_active ctx = {?k}"
    using wp_add_effect [of zero_context ?k] zero_context_wp [where 'x = 64]
    by (cases "wp_add ?k zero_context") (auto simp: wp_norm_def)
  with watchpoint_misses_last_word [of ctx "0xFFFFFFFFFFFFFFFC" 4] show ?thesis by (auto simp: wp_add_def)
qed

end
