(* ===== verification/Threads.thy ===== *)
theory Threads
  imports Packet_Link
begin

text \<open>
  Thread identifiers and stop replies of src/src/gdb_stub.c: parsing of
  \<open>p<pid>.<tid>\<close>, the choice of the thread that continues or steps, the thread
  that a stop is attributed to, and the \<open>T\<close> packet that reports a stop.
\<close>

subsection \<open>Thread identifiers\<close>

definition thread_pid_valid :: "int \<Rightarrow> bool" where
  "thread_pid_valid pid = (pid = 0 \<or> pid = GDB_STUB_PID)"

text \<open>The two results \<open>*pid\<close> and \<open>*tid\<close> for a string that is not null.\<close>

definition parse_thread_spec :: "string \<Rightarrow> int \<times> int" where
  "parse_thread_spec str =
     (if str = [] then (0, - 1)
      else if str = ''-1'' then (0, - 1)
      else let s = (if hd str = CHR ''p'' \<or> hd str = CHR ''P'' then tl str else str) in
        case strchr s CHR ''.'' of
          Some dot \<Rightarrow> (c_int (strtol16 s), c_int (strtol16 (drop (dot + 1) s)))
        | None \<Rightarrow> (0, c_int (strtol16 s)))"

definition resolve_continue_thread :: "int \<Rightarrow> int \<Rightarrow> int" where
  "resolve_continue_thread pid tid =
     (if \<not> thread_pid_valid pid then - 2 else if tid \<le> 0 then - 1 else tid)"

definition resolve_step_thread :: "'x::len gdb_context \<Rightarrow> int \<Rightarrow> int \<Rightarrow> int" where
  "resolve_step_thread ctx pid tid =
     (let ct = resolve_continue_thread pid tid in
      if ct = - 2 then - 2 else if ct > 0 then ct else current_thread ctx)"

definition gdb_stub_set_stop_thread :: "int \<Rightarrow> 'x::len gdb_context \<Rightarrow> 'x gdb_context" where
  "gdb_stub_set_stop_thread thread_id ctx =
     (if thread_id \<ge> 1 then ctx\<lparr>stop_thread := thread_id\<rparr>
      else if current_thread ctx \<ge> 1 then ctx\<lparr>stop_thread := current_thread ctx\<rparr>
      else ctx\<lparr>stop_thread := 1\<rparr>)"

definition gdb_stub_should_run_thread :: "'x::len gdb_context \<Rightarrow> int \<Rightarrow> bool" where
  "gdb_stub_should_run_thread ctx thread_id =
     (if continue_thread ctx < 0 then True else continue_thread ctx = thread_id)"

subsection \<open>Stop replies\<close>

text \<open>\<open>%x\<close> of an \<open>int\<close>, and GDB_ADDR_HEX_FMT.\<close>

definition fmt_int_x :: "int \<Rightarrow> string" where
  "fmt_int_x v = fmt_x (nat (v mod 2 ^ 32))"

definition fmt_addr :: "'x::len word \<Rightarrow> string" where
  "fmt_addr a = fmt_0x (LENGTH('x) div 4) (unat a)"

definition format_stop_reply ::
    "'x::len gdb_context \<Rightarrow> nat \<Rightarrow> int \<Rightarrow> int \<Rightarrow> bool \<Rightarrow> 'x word \<Rightarrow> 'x word \<Rightarrow> string" where
  "format_stop_reply ctx n signal tid swbreak watch_addr pc_addr =
     (let sig = ''T'' @ fmt_0x 2 (nat (signal mod 256)) in
      snprintf n
       (if multiprocess_active ctx then
          let thr = sig @ ''thread:p'' @ fmt_int_x GDB_STUB_PID @ ''.'' @ fmt_int_x tid @ '';'' in
          if swbreak then thr @ ''swbreak:;''
          else if watch_addr \<noteq> 0 then thr @ ''watch:'' @ fmt_addr watch_addr @ '';''
          else if pc_addr \<noteq> 0 then thr @ ''20:'' @ fmt_addr pc_addr @ '';''
          else thr
        else
          let thr = sig @ ''thread:'' @ fmt_int_x tid @ '';'' in
          if swbreak then thr @ ''swbreak:;''
          else if watch_addr \<noteq> 0 then thr @ ''watch:'' @ fmt_addr watch_addr @ '';''
          else if pc_addr \<noteq> 0 then thr @ ''20:'' @ fmt_addr pc_addr @ '';''
          else thr))"

definition stop_tid :: "'x::len gdb_context \<Rightarrow> int" where
  "stop_tid ctx = (if stop_thread ctx \<noteq> 0 then stop_thread ctx else current_thread ctx)"

text \<open>The reply of \<open>gdb_stub_send_stop_reason\<close> and the flags it consumes.\<close>

definition stop_reason :: "int \<Rightarrow> 'x word \<Rightarrow> 'x::len gdb_context \<Rightarrow> string \<times> 'x gdb_context" where
  "stop_reason signal a ctx =
     (let tid = stop_tid ctx in
      if breakpoint_hit ctx then
        (format_stop_reply ctx 128 signal tid True 0 0, ctx\<lparr>breakpoint_hit := False\<rparr>)
      else if last_watchpoint_addr ctx \<noteq> 0 then
        (format_stop_reply ctx 128 signal tid False (last_watchpoint_addr ctx) 0,
         ctx\<lparr>last_watchpoint_addr := 0\<rparr>)
      else if a \<noteq> 0 then (format_stop_reply ctx 128 signal tid False 0 a, ctx)
      else (format_stop_reply ctx 128 signal tid False 0 0, ctx))"

definition gdb_stub_send_stop_reason ::
    "int \<Rightarrow> 'x word \<Rightarrow> ('x::len, 's) world \<Rightarrow> int \<times> ('x, 's) world" where
  "gdb_stub_send_stop_reason signal a w =
     (let (response, ctx') = stop_reason signal a (w_ctx w);
          (result, l) = send_packet response (w_link w) in
      (result, w\<lparr>w_ctx := ctx', w_link := l\<rparr>))"

definition gdb_stub_send_stop_signal ::
    "int \<Rightarrow> ('x::len, 's) world \<Rightarrow> int \<times> ('x, 's) world" where
  "gdb_stub_send_stop_signal signal w = gdb_stub_send_stop_reason signal 0 w"

subsection \<open>Properties of identifiers\<close>

lemma fmt_int_x_nat: "0 \<le> v \<Longrightarrow> v < 2 ^ 32 \<Longrightarrow> fmt_int_x v = fmt_x (nat v)"
  by (simp add: fmt_int_x_def)

lemma fmt_int_x_facts [simp]:
  "fmt_int_x v \<noteq> []" "NUL \<notin> set (fmt_int_x v)" "CHR ''.'' \<notin> set (fmt_int_x v)"
  "CHR '';'' \<notin> set (fmt_int_x v)" "CHR ''-'' \<notin> set (fmt_int_x v)"
  by (simp_all add: fmt_int_x_def fmt_x_plain)

lemma hd_fmt_int_x: "hd (fmt_int_x v) \<noteq> CHR ''p''" "hd (fmt_int_x v) \<noteq> CHR ''P''"
  using fmt_x_plain [of "CHR ''p''" "nat (v mod 2 ^ 32)"] fmt_x_plain [of "CHR ''P''" "nat (v mod 2 ^ 32)"]
  by (metis fmt_int_x_def fmt_int_x_facts(1) list.set_sel(1) insertCI list.simps(15) fmt_x_plain)+

lemma strtol16_fmt_int_x:
  assumes "0 \<le> v" "v < 2 ^ 31" "r = [] \<or> hd r = CHR ''.''"
  shows "c_int (strtol16 (fmt_int_x v @ r)) = v"
proof -
  have "\<not> isxdigit CHR ''.''" by (simp add: isxdigit_def u8_def)
  then have "strtol16 (fmt_x (nat v) @ r) = int (nat v)"
    using assms by (intro strtol16_fmt_x) auto
  then show ?thesis using assms by (simp add: fmt_int_x_nat)
qed

text \<open>A printed identifier reads back, with and without a process id.\<close>

lemma parse_printed_thread:
  assumes "0 \<le> tid" "tid < 2 ^ 31"
  shows "parse_thread_spec (fmt_int_x tid) = (0, tid)"
proof -
  have "fmt_int_x tid \<noteq> ''-1''" by (metis fmt_int_x_facts(5) list.set_intros(1))
  then show ?thesis
    using strtol16_fmt_int_x [OF assms, of "[]"] hd_fmt_int_x [of tid]
    by (simp add: parse_thread_spec_def Let_def)
qed

lemma parse_printed_pid_thread:
  assumes "0 \<le> pid" "pid < 2 ^ 31" "0 \<le> tid" "tid < 2 ^ 31"
  shows "parse_thread_spec (''p'' @ fmt_int_x pid @ ''.'' @ fmt_int_x tid) = (pid, tid)"
  using strtol16_fmt_int_x [OF assms(1,2), of "''.'' @ fmt_int_x tid"]
    strtol16_fmt_int_x [OF assms(3,4), of "[]"]
  by (simp add: parse_thread_spec_def)

lemma parse_thread_int32:
  "- (2 ^ 31) \<le> fst (parse_thread_spec s) \<and> fst (parse_thread_spec s) < 2 ^ 31 \<and>
   - (2 ^ 31) \<le> snd (parse_thread_spec s) \<and> snd (parse_thread_spec s) < 2 ^ 31"
  using c_int_bounds by (auto simp: parse_thread_spec_def Let_def split: option.split)

lemma resolve_continue_valid:
  "thread_pid_valid pid \<Longrightarrow> resolve_continue_thread pid tid = (if tid \<le> 0 then - 1 else tid)"
  by (simp add: resolve_continue_thread_def)

lemma set_stop_thread_pos: "1 \<le> stop_thread (gdb_stub_set_stop_thread t ctx)"
  by (simp add: gdb_stub_set_stop_thread_def)

subsection \<open>Properties of stop replies\<close>

lemma length_fmt_int_x: "length (fmt_int_x v) \<le> 8"
  by (simp add: fmt_int_x_def length_fmt_x nat_less_iff)

lemma length_fmt_addr:
  assumes "4 dvd LENGTH('x::len)"
  shows "length (fmt_addr (a :: 'x word)) = LENGTH('x) div 4"
proof -
  have "(16 :: nat) ^ (LENGTH('x) div 4) = 2 ^ (4 * (LENGTH('x) div 4))" by (simp add: power_mult)
  then have "unat a < 16 ^ (LENGTH('x) div 4)"
    using assms unsigned_less [of a, where 'a = nat] by simp
  moreover have "0 < LENGTH('x) div 4"
    using assms by (metis dvd_div_eq_0_iff len_gt_0 less_nat_zero_code neq0_conv)
  ultimately have "length (fmt_x (unat a)) \<le> LENGTH('x) div 4" by (intro length_fmt_x)
  then show ?thesis by (simp add: fmt_addr_def fmt_0x_def Let_def)
qed

lemma length_fmt_sig: "length (fmt_0x 2 (nat (s mod 256))) = 2"
  by (simp add: fmt_0x_byte nat_less_iff)

text \<open>The 128 bytes of the response are enough for both register widths.\<close>

definition stop_reply_text ::
    "'x::len gdb_context \<Rightarrow> int \<Rightarrow> int \<Rightarrow> bool \<Rightarrow> 'x word \<Rightarrow> 'x word \<Rightarrow> string" where
  "stop_reply_text ctx signal tid swbreak watch_addr pc_addr =
     ''T'' @ fmt_0x 2 (nat (signal mod 256)) @ ''thread:'' @
     (if multiprocess_active ctx then ''p1.'' else []) @ fmt_int_x tid @ '';'' @
     (if swbreak then ''swbreak:;''
      else if watch_addr \<noteq> 0 then ''watch:'' @ fmt_addr watch_addr @ '';''
      else if pc_addr \<noteq> 0 then ''20:'' @ fmt_addr pc_addr @ '';''
      else [])"

lemma fmt_int_x_pid: "fmt_int_x 1 = ''1''"
  by (simp add: fmt_int_x_def fmt_x_digit hex_char_def)

lemma length_stop_reply_text:
  assumes "4 dvd LENGTH('x::len)" "LENGTH('x) \<le> 64"
  shows "length (stop_reply_text (ctx :: 'x gdb_context) signal tid sw wa pa) < 128"
  using length_fmt_int_x [of tid] length_fmt_addr [OF assms(1), of wa]
    length_fmt_addr [OF assms(1), of pa] assms(2)
  by (auto simp: stop_reply_text_def length_fmt_sig)

lemma format_stop_reply_text:
  assumes "4 dvd LENGTH('x::len)" "LENGTH('x) \<le> 64"
  shows "format_stop_reply (ctx :: 'x gdb_context) 128 signal tid sw wa pa
    = stop_reply_text ctx signal tid sw wa pa"
proof -
  have "format_stop_reply ctx 128 signal tid sw wa pa = snprintf 128 (stop_reply_text ctx signal tid sw wa pa)"
    by (auto simp: format_stop_reply_def stop_reply_text_def fmt_int_x_pid Let_def)
  then show ?thesis by (simp add: length_stop_reply_text assms)
qed

lemma stop_reason_stub [frame_simps]: "stub (snd (stop_reason s a ctx)) = stub ctx"
  by (simp add: stop_reason_def Let_def)

lemma send_stop_reason_eq:
  "snd (gdb_stub_send_stop_reason s a w) =
     reply (fst (stop_reason s a (w_ctx w))) (w\<lparr>w_ctx := snd (stop_reason s a (w_ctx w))\<rparr>)"
  by (simp add: gdb_stub_send_stop_reason_def reply_def split: prod.split)

lemma send_stop_reason_frames [frame_simps]:
  "w_sim (snd (gdb_stub_send_stop_reason s a w)) = w_sim w"
  "rx (w_link (snd (gdb_stub_send_stop_reason s a w))) = rx (w_link w)"
  "w_ctx (snd (gdb_stub_send_stop_reason s a w)) = snd (stop_reason s a (w_ctx w))"
  by (simp_all add: send_stop_reason_eq reply_frames)

subsection \<open>Properties of threads and stop replies\<close>

text \<open>
  C16: A stop is reported whole, with no truncation to the 128 bytes of the response, for
  the thread \<open>stop_thread\<close> or else \<open>current_thread\<close>. A pending breakpoint
  hit comes first, then a watchpoint address, then the program counter if it is not zero;
  what is reported is consumed and nothing else in the context changes.
\<close>

theorem stop_reason_reported:
  assumes "LENGTH('x::len) = 32 \<or> LENGTH('x) = 64"
  shows "stop_reason signal a (ctx :: 'x gdb_context) =
    (let tid = (if stop_thread ctx \<noteq> 0 then stop_thread ctx else current_thread ctx) in
     (''T'' @ fmt_0x 2 (nat (signal mod 256)) @ ''thread:'' @
      (if multiprocess_active ctx then ''p1.'' else []) @ fmt_int_x tid @ '';'' @
      (if breakpoint_hit ctx then ''swbreak:;''
       else if last_watchpoint_addr ctx \<noteq> 0 then ''watch:'' @ fmt_addr (last_watchpoint_addr ctx) @ '';''
       else if a \<noteq> 0 then ''20:'' @ fmt_addr a @ '';'' else []),
      if breakpoint_hit ctx then ctx\<lparr>breakpoint_hit := False\<rparr>
      else if last_watchpoint_addr ctx \<noteq> 0 then ctx\<lparr>last_watchpoint_addr := 0\<rparr> else ctx))"
proof -
  have "4 dvd LENGTH('x)" "LENGTH('x) \<le> 64" using assms by auto
  then show ?thesis
    by (simp add: stop_reason_def format_stop_reply_text stop_reply_text_def stop_tid_def Let_def)
qed

lemma stop_reason_reported_witness:
  "fst (stop_reason 5 0x80000010
      ((zero_context :: 32 gdb_context)\<lparr>current_thread := 1, last_watchpoint_addr := 0x80001000\<rparr>))
    = ''T05thread:1;watch:80001000;''"
  using stop_reason_reported [of 5 "0x80000010"
      "(zero_context :: 32 gdb_context)\<lparr>current_thread := 1, last_watchpoint_addr := 0x80001000\<rparr>"]
  by (simp add: zero_context_def fmt_addr_def fmt_0x_def fmt_int_x_def fmt_x.simps hex_char_def Let_def)

end
