(* ===== verification/Cmd_Control.thy ===== *)
theory Cmd_Control
  imports Cmd_Memory Watchpoints Threads
begin

text \<open>
  The control commands of src/src/gdb_stub.c: breakpoints and watchpoints (\<open>Z\<close>,
  \<open>z\<close>), reset (\<open>R\<close>), thread selection (\<open>H\<close>, \<open>T\<close>), the halt
  reason (\<open>?\<close>), \<open>vCont\<close>, the queries (\<open>q\<close>) and the settings
  (\<open>Q\<close>).
\<close>

subsection \<open>Breakpoints, reset\<close>

definition handle_breakpoint :: "bool \<Rightarrow> ('x::len, 's) world \<Rightarrow> ('x, 's) world option" where
  "handle_breakpoint ins w = do {
     packet \<leftarrow> cstr (drop 1 (w_buf w));
     (case strchr packet CHR '','' of
       None \<Rightarrow> reply_E01 w
     | Some comma1 \<Rightarrow>
         (case strchr (drop (comma1 + 1) packet) CHR '','' of
           None \<Rightarrow> reply_E01 w
         | Some k \<Rightarrow> do {
             let comma2 = comma1 + 1 + k;
             let w1 = upd_buf (\<lambda>b. b[1 + comma1 := NUL, 1 + comma2 := NUL]) w;
             t \<leftarrow> parse_hex (drop 1 (w_buf w1)) comma1;
             a \<leftarrow> parse_hex (drop (2 + comma1) (w_buf w1)) (comma2 - comma1 - 1);
             text \<leftarrow> cstr (drop (2 + comma2) (w_buf w1));
             n0 \<leftarrow> parse_hex (drop (2 + comma2) (w_buf w1)) (length text);
             let type = c_int (uint (t :: 'x word));
             let n = (if 2 \<le> type \<and> type \<le> 4 \<and> n0 = 0 then 4 else n0);
             if type = 0 \<or> type = 1 then
               let (result, ctx) = (if ins then gdb_stub_add_breakpoint a (w_ctx w1)
                                    else gdb_stub_remove_breakpoint a (w_ctx w1)) in
               Some (reply (if result = 0 then ''OK'' else ''E01'') (w1\<lparr>w_ctx := ctx\<rparr>))
             else if 2 \<le> type \<and> type \<le> 4 then
               let (result, ctx) =
                 (if ins then gdb_stub_add_watchpoint a n (watchpoint_type_of type) (w_ctx w1)
                  else gdb_stub_remove_watchpoint a n (watchpoint_type_of type) (w_ctx w1)) in
               Some (reply (if result = 0 then ''OK'' else ''E01'') (w1\<lparr>w_ctx := ctx\<rparr>))
             else Some (reply '''' w1) })) }"

definition default_reset ::
    "('x::len, 's) gdb_callbacks \<Rightarrow> ('x, 's) world \<Rightarrow> ('x, 's) world" where
  "default_reset cb w = fold (\<lambda>i. cb_write_reg cb (int i) 0) [1..<32] (cb_set_pc cb 0 w)"

definition handle_reset ::
    "('x::len, 's) gdb_callbacks \<Rightarrow> ('x, 's) world \<Rightarrow> ('x, 's) world option" where
  "handle_reset cb w =
     (let w1 = (case cb_reset cb of Some f \<Rightarrow> f w | None \<Rightarrow> default_reset cb w);
          w2 = upd_ctx (\<lambda>c. (gdb_stub_clear_watchpoints (gdb_stub_clear_breakpoints c))
                 \<lparr>should_stop := True, single_step := False, last_stop_signal := 5,
                  breakpoint_hit := False, current_thread := 1, continue_thread := - 1,
                  stop_thread := 0\<rparr>) w1
      in reply_OK w2)"

subsection \<open>Threads\<close>

definition num_harts :: "('x::len, 's) gdb_callbacks \<Rightarrow> ('x, 's) world \<Rightarrow> int" where
  "num_harts cb w = (case cb_get_num_harts cb of Some f \<Rightarrow> f w | None \<Rightarrow> 1)"

definition call_set_focus ::
    "('x::len, 's) gdb_callbacks \<Rightarrow> int \<Rightarrow> ('x, 's) world \<Rightarrow> ('x, 's) world" where
  "call_set_focus cb h w = (case cb_set_focus_hart cb of Some f \<Rightarrow> f h w | None \<Rightarrow> w)"

text \<open>The thread meant by \<open>Hg0\<close> and \<open>Hg-1\<close>.\<close>

definition default_hart :: "('x::len, 's) gdb_callbacks \<Rightarrow> ('x, 's) world \<Rightarrow> int" where
  "default_hart cb w =
     (let stop_hart = (case cb_get_stop_hart cb of Some f \<Rightarrow> f w | None \<Rightarrow> 0) in
      if stop_hart < 0 then (case cb_get_focus_hart cb of Some f \<Rightarrow> f w | None \<Rightarrow> 0)
      else stop_hart)"

definition handle_set_thread ::
    "('x::len, 's) gdb_callbacks \<Rightarrow> ('x, 's) world \<Rightarrow> ('x, 's) world option" where
  "handle_set_thread cb w =
     (case drop 1 (w_buf w) of
       [] \<Rightarrow> None
     | op # tid_ptr \<Rightarrow>
         if op \<noteq> CHR ''g'' \<and> op \<noteq> CHR ''c'' then reply_E01 w
         else do {
           tid_str \<leftarrow> cstr tid_ptr;
           let (pid, tid0) = parse_thread_spec tid_str;
           if \<not> thread_pid_valid pid then reply_E01 w
           else if op = CHR ''g'' then
             let tid = (if tid0 \<le> 0 then default_hart cb w + 1 else tid0) in
             if tid < 1 \<or> tid > num_harts cb w then reply_E01 w
             else reply_OK (call_set_focus cb (tid - 1) (upd_ctx (\<lambda>c. c\<lparr>current_thread := tid\<rparr>) w))
           else
             let ct = resolve_continue_thread pid tid0;
                 w1 = upd_ctx (\<lambda>c. c\<lparr>continue_thread := ct\<rparr>) w in
             if ct = - 2 then reply_E01 w1 else reply_OK w1 })"

definition handle_thread_alive ::
    "('x::len, 's) gdb_callbacks \<Rightarrow> ('x, 's) world \<Rightarrow> ('x, 's) world option" where
  "handle_thread_alive cb w = do {
     packet \<leftarrow> cstr (drop 1 (w_buf w));
     let (pid, thread_id) = parse_thread_spec packet;
     if \<not> thread_pid_valid pid then reply_E01 w
     else if thread_id \<ge> 1 \<and> thread_id \<le> num_harts cb w then reply_OK w
     else reply_E01 w }"

definition handle_halt_reason ::
    "('x::len, 's) gdb_callbacks \<Rightarrow> ('x, 's) world \<Rightarrow> ('x, 's) world option" where
  "handle_halt_reason cb w =
     (let ctx = w_ctx w; tid = stop_tid ctx;
          (response, ctx') =
            (if single_step ctx then (format_stop_reply ctx 128 5 tid False 0 0, ctx)
             else if last_watchpoint_addr ctx \<noteq> 0 then
               (format_stop_reply ctx 128 5 tid False (last_watchpoint_addr ctx) 0,
                ctx\<lparr>last_watchpoint_addr := 0\<rparr>)
             else let (hit, ctx1) = gdb_stub_check_breakpoint (cb_get_pc cb w) ctx in
               (format_stop_reply ctx1 128 5 tid hit 0 0, ctx1))
      in Some (reply response (w\<lparr>w_ctx := ctx'\<rparr>)))"

subsection \<open>vCont\<close>

datatype vcont_result = VC_error | VC_unsupported | VC_done bool int int bool

text \<open>The optional \<open>:pid.tid\<close> after an action: what it names and what follows it.\<close>

definition vcont_spec :: "string \<Rightarrow> (int \<times> int \<times> string) option" where
  "vcont_spec actions =
     (if actions \<noteq> [] \<and> hd actions = CHR '':'' then
        let spec = takeWhile (\<lambda>c. c \<noteq> CHR '';'') (tl actions);
            after = dropWhile (\<lambda>c. c \<noteq> CHR '';'') (tl actions) in
        if length spec \<ge> 32 then None
        else let (pid, tid) = parse_thread_spec spec in Some (pid, tid, after)
      else Some (0, - 1, actions))"

definition skip_signal :: "char \<Rightarrow> string \<Rightarrow> string" where
  "skip_signal action actions =
     (if action \<in> {CHR ''C'', CHR ''S'', CHR ''T''} then
        (case actions of a # b # t \<Rightarrow> if isxdigit a \<and> isxdigit b then t else actions
         | _ \<Rightarrow> actions)
      else actions)"

definition skip_char :: "char \<Rightarrow> string \<Rightarrow> string" where
  "skip_char c s = (if s \<noteq> [] \<and> hd s = c then tl s else s)"

lemma length_vcont_parts:
  "vcont_spec s = Some (pid, tid, t) \<Longrightarrow> length t \<le> length s"
  "length (skip_signal a s) \<le> length s" "length (skip_char c s) \<le> length s"
  by (auto simp: vcont_spec_def skip_signal_def skip_char_def Let_def split: if_splits prod.splits list.splits
      intro!: order_trans [OF length_dropWhile_le])

function vcont_loop ::
    "'x::len gdb_context \<Rightarrow> string \<Rightarrow> bool \<Rightarrow> int \<Rightarrow> int \<Rightarrow> bool \<Rightarrow> vcont_result" where
  "vcont_loop ctx actions any_step step_tid continue_tid have_action =
     (case actions of
        [] \<Rightarrow> VC_done any_step step_tid continue_tid have_action
      | action # rest \<Rightarrow>
          (case vcont_spec (skip_signal action rest) of
             None \<Rightarrow> VC_error
           | Some (pid, tid, after) \<Rightarrow>
               if \<not> thread_pid_valid pid then VC_error
               else if action \<in> {CHR ''c'', CHR ''C''} then
                 let ct = resolve_continue_thread pid tid in
                 if ct = - 2 then VC_error
                 else vcont_loop ctx (skip_char CHR '';'' after) any_step step_tid ct True
               else if action \<in> {CHR ''s'', CHR ''S'', CHR ''t'', CHR ''T''} then
                 let st = resolve_step_thread ctx pid tid in
                 if st = - 2 then VC_error
                 else vcont_loop ctx (skip_char CHR '';'' after) True st continue_tid True
               else VC_unsupported))"
  by pat_completeness auto
termination
proof (relation "measure (\<lambda>(ctx, actions, _). length actions)", goal_cases)
  case (2 ctx actions _ _ _ _ action rest q pid r tid after)
  then show ?case
    using length_vcont_parts(1) [of "skip_signal action rest" pid tid after]
      length_vcont_parts(2) [of action rest] length_vcont_parts(3) [of "CHR '';''" after]
    by simp
next
  case (3 ctx actions _ _ _ _ action rest q pid r tid after)
  then show ?case
    using length_vcont_parts(1) [of "skip_signal action rest" pid tid after]
      length_vcont_parts(2) [of action rest] length_vcont_parts(3) [of "CHR '';''" after]
    by simp
qed simp

declare vcont_loop.simps [simp del]

text \<open>\<open>handle_vcont\<close> with its result \<open>*run_cpu\<close>.\<close>

definition handle_vcont ::
    "('x::len, 's) gdb_callbacks \<Rightarrow> ('x, 's) world \<Rightarrow> (bool \<times> ('x, 's) world) option" where
  "handle_vcont cb w = do {
     packet \<leftarrow> cstr (w_buf w);
     if packet = ''vCont?'' then Some (False, reply ''vCont;c;C; s;S'' w)
     else if \<not> starts_with packet ''vCont'' then Some (False, reply '''' w)
     else
       let actions = skip_char CHR '';'' (drop 5 packet) in
       if actions = [] then Some (False, reply ''E01'' w)
       else (case vcont_loop (w_ctx w) actions False (- 1) (- 1) False of
           VC_error \<Rightarrow> Some (False, reply ''E01'' w)
         | VC_unsupported \<Rightarrow> Some (False, reply '''' w)
         | VC_done any_step step_tid continue_tid have_action \<Rightarrow>
             if \<not> have_action then Some (False, reply ''E01'' w)
             else
               let w1 = upd_ctx (\<lambda>c. (if any_step then c\<lparr>single_step := True, continue_thread := step_tid\<rparr>
                          else c\<lparr>single_step := False, continue_thread := continue_tid\<rparr>)
                          \<lparr>should_stop := False, stop_thread := 0\<rparr>) w
               in Some (True, call_opt (cb_resume cb) w1)) }"

subsection \<open>Queries and settings\<close>

text \<open>
  The loop of \<open>qfThreadInfo\<close>: \<open>resp\<close> is what the reply buffer holds, \<open>pos\<close>
  the position \<open>snprintf\<close> would have reached.
\<close>

function thread_info_loop :: "bool \<Rightarrow> int \<Rightarrow> int \<Rightarrow> nat \<Rightarrow> string \<Rightarrow> nat \<times> string" where
  "thread_info_loop mp harts h pos resp =
     (if h \<le> harts \<and> pos > 0 \<and> pos < GDB_BUFFER_SIZE then
        let item = (if mp then '',p'' @ fmt_int_x GDB_STUB_PID @ ''.'' @ fmt_int_x h else '','' @ fmt_int_x h)
        in thread_info_loop mp harts (h + 1) (pos + length item)
             (resp @ snprintf (GDB_BUFFER_SIZE - pos) item)
      else (pos, resp))"
  by pat_completeness auto
termination
  by (relation "measure (\<lambda>(mp, harts, h, pos, resp). nat (harts + 1 - h))") auto

declare thread_info_loop.simps [simp del]

definition thread_info :: "bool \<Rightarrow> int \<Rightarrow> nat \<times> string" where
  "thread_info mp harts =
     (let first = (if mp then ''mp'' @ fmt_int_x GDB_STUB_PID @ ''.'' @ fmt_int_x 1 else ''m1'')
      in thread_info_loop mp harts 2 (length first) first)"

definition target_arch :: "'x::len itself \<Rightarrow> string" where
  "target_arch _ = (if LENGTH('x) = 32 then ''riscv:rv32'' else ''riscv:rv64'')"

definition target_xml :: "'x::len itself \<Rightarrow> string" where
  "target_xml x = ''l<?xml version=\"1.0\"?><!DOCTYPE target SYSTEM \"gdb-target.dtd\">'' @
     ''<target version=\"1.0\"><architecture>'' @ target_arch x @ ''</architecture></target>''"

definition handle_query ::
    "('x::len, 's) gdb_callbacks \<Rightarrow> ('x, 's) world \<Rightarrow> ('x, 's) world option" where
  "handle_query cb w = do {
     packet \<leftarrow> cstr (w_buf w);
     if starts_with packet ''qSupported'' then
       let caps = dropWhile (\<lambda>c. c = CHR '' '') (skip_char CHR '':'' (drop 10 packet)) in
       Some (reply ''PacketSize=4096;swbreak+;multiprocess+;vContSupported+;qXfer:features:read+;QStartNoAckMode+''
         (upd_ctx (\<lambda>c. c\<lparr>multiprocess_active := strstr_found caps ''multiprocess+''\<rparr>) w))
     else if starts_with packet ''qAttached'' then Some (reply ''1'' w)
     else if starts_with packet ''qC'' then
       let tid = stop_tid (w_ctx w) in
       Some (reply (snprintf 32 (if multiprocess_active (w_ctx w)
           then ''QCp'' @ fmt_int_x GDB_STUB_PID @ ''.'' @ fmt_int_x tid
           else ''QC'' @ fmt_int_x tid)) w)
     else if starts_with packet ''qfThreadInfo'' then
       let (pos, resp) = thread_info (multiprocess_active (w_ctx w)) (num_harts cb w) in
       Some (reply (if pos > 0 then resp else ''l'') w)
     else if starts_with packet ''qsThreadInfo'' then Some (reply ''l'' w)
     else if starts_with packet ''qXfer:features:read:target.xml'' then
       Some (reply (target_xml TYPE('x)) w)
     else if starts_with packet ''qOffsets'' then Some (reply ''Text=0;Data=0;Bss=0'' w)
     else if starts_with packet ''qTStatus'' then Some (reply ''T0;tnotrun:0'' w)
     else if starts_with packet ''qSearch:memory:'' then handle_search_memory cb w
     else Some (reply '''' w) }"

definition handle_general_set :: "('x::len, 's) world \<Rightarrow> ('x, 's) world option" where
  "handle_general_set w = do {
     packet \<leftarrow> cstr (w_buf w);
     if starts_with packet ''QStartNoAckMode'' then
       reply_OK (upd_ctx (stub_update (no_ack_mode_update (\<lambda>_. True))) w)
     else Some (reply '''' w) }"

subsection \<open>Breakpoint packets\<close>

lemma handle_breakpoint_packet:
  fixes w :: "('x::len, 's) world"
  assumes h: "hexstr T" "hexstr A" "hexstr N" and x: "xlen TYPE('x)" "hex_nat T < 2 ^ 31"
    and buf: "w_buf w = c # T @ CHR '','' # A @ CHR '','' # N @ NUL # r"
  defines "w1 \<equiv> upd_buf (\<lambda>_. c # T @ NUL # A @ NUL # N @ NUL # r) w"
    and "a \<equiv> word_of_nat (hex_nat A) :: 'x word" and "n \<equiv> word_of_nat (hex_nat N) :: 'x word"
  shows "handle_breakpoint ins w = Some (
    if hex_nat T \<le> 1 then
      let (result, ctx) = (if ins then gdb_stub_add_breakpoint a (w_ctx w1)
                           else gdb_stub_remove_breakpoint a (w_ctx w1)) in
      reply (if result = 0 then ''OK'' else ''E01'') (w1\<lparr>w_ctx := ctx\<rparr>)
    else if hex_nat T \<le> 4 then
      let ty = watchpoint_type_of (int (hex_nat T)); n' = (if n = 0 then 4 else n);
          (result, ctx) = (if ins then gdb_stub_add_watchpoint a n' ty (w_ctx w1)
                           else gdb_stub_remove_watchpoint a n' ty (w_ctx w1)) in
      reply (if result = 0 then ''OK'' else ''E01'') (w1\<lparr>w_ctx := ctx\<rparr>)
    else reply '''' w1)"
proof -
  have no: "NUL \<notin> set T" "CHR '','' \<notin> set T" "NUL \<notin> set A" "CHR '','' \<notin> set A" "NUL \<notin> set N"
    using hexstr_notin [OF h(1)] hexstr_notin [OF h(2)] hexstr_notin [OF h(3)] by simp_all
  define packet where "packet = T @ CHR '','' # A @ CHR '','' # N"
  have "cstr (drop 1 (w_buf w)) = Some packet" using no by (simp add: buf packet_def)
  moreover have "strchr packet CHR '','' = Some (length T)" using no by (simp add: packet_def)
  moreover have "drop (length T + 1) packet = A @ CHR '','' # N" by (simp add: packet_def)
  then have "strchr (drop (length T + 1) packet) CHR '','' = Some (length A)" using no by simp
  moreover have "upd_buf (\<lambda>b. b[1 + length T := NUL, 1 + (length T + 1 + length A) := NUL]) w = w1"
    by (subst upd_buf_const) (simp add: w1_def buf list_update_append)
  moreover have b: "w_buf w1 = c # T @ NUL # A @ NUL # N @ NUL # r" by (simp add: w1_def)
  moreover have "drop (2 + length T) (w_buf w1) = A @ NUL # N @ NUL # r"
    "drop (2 + (length T + 1 + length A)) (w_buf w1) = N @ NUL # r"
    using drop_two_arguments [of T A c NUL NUL "N @ NUL # r"] by (simp_all add: b numeral_3_eq_3)
  moreover have "cstr (N @ NUL # r) = Some N" using no by simp
  moreover have "parse_hex (drop 1 (w_buf w1)) (length T) = Some (word_of_nat (hex_nat T) :: 'x word)"
    "parse_hex (A @ NUL # N @ NUL # r) (length A) = Some a" "parse_hex (N @ NUL # r) (length N) = Some n"
    using h by (simp_all add: b a_def n_def)
  moreover have "c_int (uint (word_of_nat (hex_nat T) :: 'x word)) = int (hex_nat T)"
    by (rule register_number [OF x])
  moreover have "length T + 1 + length A - length T - 1 = length A" by simp
  ultimately show ?thesis
    unfolding handle_breakpoint_def Let_def
    by (simp only: Option.bind.simps option.case) (auto split: prod.split)
qed

text \<open>
  A packet with the type, the address and the length printed runs the operation on the table and
  answers OK exactly when it succeeded.
\<close>

lemma handle_breakpoint_run:
  fixes w :: "('x::len, 's) world" and ins :: bool
  assumes "xlen TYPE('x)" "ty \<le> 4"
    and "w_buf w = c # fmt_x ty @ CHR '','' # fmt_x (unat a) @ CHR '','' # fmt_x (unat n) @ NUL # r"
  defines "w1 \<equiv> upd_buf (\<lambda>_. c # fmt_x ty @ NUL # fmt_x (unat a) @ NUL # fmt_x (unat n) @ NUL # r) w"
  defines "res \<equiv> (if ty \<le> 1 then (if ins then gdb_stub_add_breakpoint else gdb_stub_remove_breakpoint) a (w_ctx w1)
    else (if ins then wp_add else wp_remove) (a, if n = 0 then 4 else n, watchpoint_type_of (int ty)) (w_ctx w1))"
  shows "handle_breakpoint ins w = Some (reply (if fst res = 0 then ''OK'' else ''E01'') (w1\<lparr>w_ctx := snd res\<rparr>))"
proof -
  have "hexstr (fmt_x ty)" "hexstr (fmt_x (unat a))" "hexstr (fmt_x (unat n))" by simp_all
  from handle_breakpoint_packet [OF this assms(1) _ assms(3), of ins] assms(2) show ?thesis
    by (simp add: res_def w1_def wp_add_def wp_remove_def case_prod_beta)
qed

lemma handle_breakpoint_effect:
  fixes w :: "('x::len, 's) world" and n :: "'x word"
  assumes "xlen TYPE('x)" "bp_inv (w_ctx w)"
    and "w_buf w = c # fmt_x 0 @ CHR '','' # fmt_x (unat a) @ CHR '','' # fmt_x (unat n) @ NUL # r"
  shows "\<exists>w'. w_sim w' = w_sim w \<and> w_link w' = w_link w \<and>
    connected (w_stub w') = connected (w_stub w) \<and> consecutive_failures (w_stub w') = consecutive_failures (w_stub w) \<and>
    no_ack_mode (w_stub w') = no_ack_mode (w_stub w) \<and> multiprocess_active (w_ctx w') = multiprocess_active (w_ctx w) \<and>
    handle_breakpoint ins w = Some (reply
      (if (if ins then card (bp_slots (w_ctx w)) < 64 else a \<in> bp_slots (w_ctx w)) then ''OK'' else ''E01'') w') \<and>
    bp_slots (w_ctx w') = (if ins \<and> card (bp_slots (w_ctx w)) < 64 then insert a (bp_slots (w_ctx w)) else bp_slots (w_ctx w)) \<and>
    bp_active (w_ctx w') = (if \<not> ins then bp_active (w_ctx w) - {a}
      else if card (bp_slots (w_ctx w)) < 64 then insert a (bp_active (w_ctx w)) else bp_active (w_ctx w)) \<and>
    wp_slots (w_ctx w') = wp_slots (w_ctx w) \<and> wp_active (w_ctx w') = wp_active (w_ctx w)"
proof -
  define w1 where "w1 = upd_buf (\<lambda>_. c # fmt_x 0 @ NUL # fmt_x (unat a) @ NUL # fmt_x (unat n) @ NUL # r) w"
  define res where "res = (if ins then gdb_stub_add_breakpoint else gdb_stub_remove_breakpoint) a (w_ctx w1)"
  have h: "handle_breakpoint ins w = Some (reply (if fst res = 0 then ''OK'' else ''E01'') (w1\<lparr>w_ctx := snd res\<rparr>))"
    using handle_breakpoint_run [OF assms(1) _ assms(3), of ins] by (simp add: w1_def res_def)
  have w1: "bp_inv (w_ctx w1)" "bp_active (w_ctx w1) = bp_active (w_ctx w)" "bp_slots (w_ctx w1) = bp_slots (w_ctx w)"
    using assms(2) by (simp_all add: w1_def bp_abs_defs)
  have "fst res = 0 \<longleftrightarrow> (if ins then card (bp_slots (w_ctx w)) < 64 else a \<in> bp_slots (w_ctx w))"
    "bp_slots (snd res) = (if ins \<and> card (bp_slots (w_ctx w)) < 64 then insert a (bp_slots (w_ctx w)) else bp_slots (w_ctx w))"
    "bp_active (snd res) = (if \<not> ins then bp_active (w_ctx w) - {a}
      else if card (bp_slots (w_ctx w)) < 64 then insert a (bp_active (w_ctx w)) else bp_active (w_ctx w))"
    using bp.ins_effect [OF w1(1), of a] remove_effect [OF w1(1), of a] w1(2,3) by (simp_all add: res_def)
  moreover have "stub (snd res) = w_stub w1" "wp_slots (snd res) = wp_slots (w_ctx w)" "wp_active (snd res) = wp_active (w_ctx w)"
    "multiprocess_active (snd res) = multiprocess_active (w_ctx w)"
    by (simp_all add: res_def breakpoint_frames wp_slots_def wp_active_def w1_def)
  ultimately show ?thesis
    by (intro exI [of _ "w1\<lparr>w_ctx := snd res\<rparr>"]) (simp add: h, simp add: w1_def)
qed

lemma handle_watchpoint_effect:
  fixes w :: "('x::len, 's) world"
  assumes "xlen TYPE('x)" "wp_inv (w_ctx w)" "2 \<le> ty" "ty \<le> 4"
    and "w_buf w = c # fmt_x ty @ CHR '','' # fmt_x (unat a) @ CHR '','' # fmt_x (unat n) @ NUL # r"
  defines "k \<equiv> wp_norm (a, n, watchpoint_type_of (int ty))"
  shows "\<exists>w'. w_sim w' = w_sim w \<and> w_link w' = w_link w \<and>
    connected (w_stub w') = connected (w_stub w) \<and> consecutive_failures (w_stub w') = consecutive_failures (w_stub w) \<and>
    no_ack_mode (w_stub w') = no_ack_mode (w_stub w) \<and> multiprocess_active (w_ctx w') = multiprocess_active (w_ctx w) \<and>
    handle_breakpoint ins w = Some (reply
      (if (if ins then card (wp_slots (w_ctx w)) < 32 else k \<in> wp_slots (w_ctx w)) then ''OK'' else ''E01'') w') \<and>
    wp_slots (w_ctx w') = (if ins \<and> card (wp_slots (w_ctx w)) < 32 then insert k (wp_slots (w_ctx w)) else wp_slots (w_ctx w)) \<and>
    wp_active (w_ctx w') = (if \<not> ins then wp_active (w_ctx w) - {k}
      else if card (wp_slots (w_ctx w)) < 32 then insert k (wp_active (w_ctx w)) else wp_active (w_ctx w)) \<and>
    bp_slots (w_ctx w') = bp_slots (w_ctx w) \<and> bp_active (w_ctx w') = bp_active (w_ctx w)"
proof -
  define w1 where "w1 = upd_buf (\<lambda>_. c # fmt_x ty @ NUL # fmt_x (unat a) @ NUL # fmt_x (unat n) @ NUL # r) w"
  define res where "res = (if ins then wp_add else wp_remove) k (w_ctx w1)"
  have "k = (a, if n = 0 then 4 else n, watchpoint_type_of (int ty))" by (simp add: k_def wp_norm_def)
  then have h: "handle_breakpoint ins w = Some (reply (if fst res = 0 then ''OK'' else ''E01'') (w1\<lparr>w_ctx := snd res\<rparr>))"
    using handle_breakpoint_run [OF assms(1,4,5), of ins] assms(3) by (simp add: w1_def res_def)
  have w1: "wp_inv (w_ctx w1)" "wp_active (w_ctx w1) = wp_active (w_ctx w)" "wp_slots (w_ctx w1) = wp_slots (w_ctx w)"
    using assms(2) by (simp_all add: w1_def wp_abs_defs)
  have "wp_norm k = k" by (simp add: k_def wp_norm_def)
  then have "fst res = 0 \<longleftrightarrow> (if ins then card (wp_slots (w_ctx w)) < 32 else k \<in> wp_slots (w_ctx w))"
    "wp_slots (snd res) = (if ins \<and> card (wp_slots (w_ctx w)) < 32 then insert k (wp_slots (w_ctx w)) else wp_slots (w_ctx w))"
    "wp_active (snd res) = (if \<not> ins then wp_active (w_ctx w) - {k}
      else if card (wp_slots (w_ctx w)) < 32 then insert k (wp_active (w_ctx w)) else wp_active (w_ctx w))"
    using wp.ins_effect [OF w1(1), of k] wp_remove_effect [OF w1(1), of k] w1(2,3) by (simp_all add: res_def)
  moreover have "stub (snd res) = w_stub w1" "bp_slots (snd res) = bp_slots (w_ctx w)" "bp_active (snd res) = bp_active (w_ctx w)"
    "multiprocess_active (snd res) = multiprocess_active (w_ctx w)"
    by (simp_all add: res_def wp_op_frames bp_slots_def bp_active_def w1_def)
  ultimately show ?thesis
    by (intro exI [of _ "w1\<lparr>w_ctx := snd res\<rparr>"]) (simp add: h, simp add: w1_def)
qed

subsection \<open>Reset\<close>

lemma handle_reset_effect:
  assumes "handle_reset cb w = Some w'"
  shows "bp_active (w_ctx w') = {} \<and> wp_active (w_ctx w') = {} \<and> bp_slots (w_ctx w') = {} \<and>
    wp_slots (w_ctx w') = {} \<and> should_stop (w_ctx w') \<and> \<not> single_step (w_ctx w') \<and>
    \<not> breakpoint_hit (w_ctx w') \<and> current_thread (w_ctx w') = 1 \<and> continue_thread (w_ctx w') = - 1 \<and>
    stop_thread (w_ctx w') = 0"
  using assms
  by (auto simp: handle_reset_def Let_def reply_frames bp_active_def bp_slots_def wp_active_def wp_slots_def
      gdb_stub_clear_breakpoints_def gdb_stub_clear_watchpoints_def active_keys_def slot_keys_def)

subsection \<open>Thread lists\<close>

text \<open>The text of the reply to \<open>qfThreadInfo\<close> with no limit on its length.\<close>

definition thread_item :: "bool \<Rightarrow> int \<Rightarrow> string" where
  "thread_item mp h = (if mp then ''p1.'' @ fmt_int_x h else fmt_int_x h)"

definition thread_list :: "bool \<Rightarrow> nat \<Rightarrow> string" where
  "thread_list mp n = ''m'' @ thread_item mp 1 @ concat (map (\<lambda>h. '','' @ thread_item mp (int h)) [2..<Suc n])"

lemma thread_info_loop_text:
  assumes "pos = length resp" "0 < pos"
    and "length resp + length (concat (map (\<lambda>h. '','' @ thread_item mp (int h)) [k..<Suc n])) < 4096"
  shows "thread_info_loop mp (int n) (int k) pos resp =
    (let full = resp @ concat (map (\<lambda>h. '','' @ thread_item mp (int h)) [k..<Suc n]) in (length full, full))"
  using assms
proof (induction "Suc n - k" arbitrary: k pos resp)
  case 0
  then show ?case by (subst thread_info_loop.simps) simp
next
  case (Suc d)
  let ?item = "'','' @ thread_item mp (int k)"
  have k: "k \<le> n" using Suc.hyps(2) by simp
  then have u: "[k..<Suc n] = k # [Suc k..<Suc n]" by (simp add: upt_conv_Cons del: upt_Suc)
  let ?rest = "concat (map (\<lambda>h. '','' @ thread_item mp (int h)) [Suc k..<Suc n])"
  have all: "concat (map (\<lambda>h. '','' @ thread_item mp (int h)) [k..<Suc n]) = ?item @ ?rest"
    by (simp only: u list.map concat.simps)
  have len: "length resp + (length ?item + length ?rest) < 4096"
    using Suc.prems(3) unfolding all by (simp only: length_append)
  have "thread_info_loop mp (int n) (int (Suc k)) (pos + length ?item) (resp @ ?item) =
    (let full = (resp @ ?item) @ ?rest in (length full, full))"
  proof (rule Suc.hyps(1))
    show "d = Suc n - Suc k" using Suc.hyps(2) by simp
    show "pos + length ?item = length (resp @ ?item)" using Suc.prems(1) by (simp only: length_append)
    show "0 < pos + length ?item" using Suc.prems(2) by (rule trans_less_add1)
    show "length (resp @ ?item) + length ?rest < 4096" using len by (simp only: length_append add.assoc)
  qed
  moreover have "thread_info_loop mp (int n) (int k) pos resp =
      thread_info_loop mp (int n) (int (Suc k)) (pos + length ?item) (resp @ snprintf (4096 - pos) ?item)"
  proof -
    have c: "int k \<le> int n \<and> pos > 0 \<and> pos < 4096" using k len Suc.prems(1,2) by linarith
    have i: "(if mp then '',p'' @ fmt_int_x 1 @ ''.'' @ fmt_int_x (int k) else '','' @ fmt_int_x (int k)) = ?item"
      by (simp add: thread_item_def fmt_int_x_pid)
    have s: "int k + 1 = int (Suc k)" by simp
    show ?thesis by (subst thread_info_loop.simps) (simp only: c if_True i s Let_def simp_thms)
  qed
  moreover have "snprintf (4096 - pos) ?item = ?item"
    using Suc.prems(1) len by (intro snprintf_id) linarith
  ultimately show ?case unfolding all by (simp only: append.assoc)
qed

lemma thread_info_text:
  assumes "length (thread_list mp n) < 4096"
  shows "thread_info mp (int n) = (length (thread_list mp n), thread_list mp n)"
proof -
  let ?first = "''m'' @ thread_item mp 1"
  have "thread_info_loop mp (int n) (int 2) (length ?first) ?first =
    (length (thread_list mp n), thread_list mp n)"
    using thread_info_loop_text [of "length ?first" ?first mp 2 n] assms
    by (simp only: thread_list_def Let_def append.assoc length_append) simp
  then show ?thesis
    by (cases mp) (simp_all add: thread_info_def thread_item_def fmt_int_x_pid)
qed

subsection \<open>Selecting and listing threads\<close>

lemma thread_item_facts [simp]:
  "CHR '';'' \<notin> set (thread_item mp t)" "NUL \<notin> set (thread_item mp t)" "\<not> 32 \<le> length (thread_item mp t)"
  using length_fmt_int_x [of t] by (auto simp: thread_item_def)

lemma parse_thread_item:
  "0 \<le> t \<Longrightarrow> t < 2 ^ 31 \<Longrightarrow> parse_thread_spec (thread_item mp t) = (if mp then 1 else 0, t)"
  using parse_printed_thread [of t] parse_printed_pid_thread [of 1 t] fmt_int_x_pid
  by (simp add: thread_item_def)

lemma handle_set_thread_select:
  assumes "w_buf w = ''Hg'' @ thread_item mp t @ NUL # r" "1 \<le> t" "t < 2 ^ 31"
  shows "handle_set_thread cb w = (if t \<le> num_harts cb w
      then Some (reply ''OK'' (call_set_focus cb (t - 1) (upd_ctx (\<lambda>c. c\<lparr>current_thread := t\<rparr>) w)))
      else Some (reply ''E01'' w))"
proof -
  have "cstr (thread_item mp t @ NUL # r) = Some (thread_item mp t)" by simp
  with assms parse_thread_item [of t mp] show ?thesis
    by (auto simp: handle_set_thread_def thread_pid_valid_def Let_def)
qed

lemma handle_query_threads:
  assumes "num_harts cb w = int n" "length (thread_list (multiprocess_active (w_ctx w)) n) < 4092"
    and "w_buf w = ''qfThreadInfo'' @ NUL # r"
  shows "handle_query cb w = Some (reply (thread_list (multiprocess_active (w_ctx w)) n) w)"
proof -
  have "cstr (w_buf w) = Some ''qfThreadInfo''" using assms(3) by simp
  moreover have "length (thread_list (multiprocess_active (w_ctx w)) n) > 0" by (simp add: thread_list_def)
  ultimately show ?thesis
    using assms(1,2) thread_info_text [of "multiprocess_active (w_ctx w)" n]
    by (simp add: handle_query_def starts_with_def)
qed

subsection \<open>Properties of the control commands\<close>

text \<open>
  C35: After a reset command no breakpoint or watchpoint is active and every slot is free
  again, the target is marked stopped and not stepping, and thread selection is back to its
  initial values; what the client negotiated (multiprocess identifiers, no acknowledgements)
  is what the reset callback left.
\<close>

theorem reset_postcondition:
  "\<exists>w'. handle_reset cb w = Some w' \<and> bp_active (w_ctx w') = {} \<and> bp_slots (w_ctx w') = {} \<and>
    wp_active (w_ctx w') = {} \<and> wp_slots (w_ctx w') = {} \<and> should_stop (w_ctx w') \<and> \<not> single_step (w_ctx w') \<and>
    \<not> breakpoint_hit (w_ctx w') \<and> current_thread (w_ctx w') = 1 \<and> continue_thread (w_ctx w') = - 1 \<and>
    stop_thread (w_ctx w') = 0 \<and>
    (let w1 = (case cb_reset cb of Some f \<Rightarrow> f w | None \<Rightarrow> default_reset cb w) in
     w_sim w' = w_sim w1 \<and> multiprocess_active (w_ctx w') = multiprocess_active (w_ctx w1) \<and>
     w_stub w' = w_stub w1)"
proof -
  obtain w' where w': "handle_reset cb w = Some w'" by (simp add: handle_reset_def Let_def)
  with handle_reset_effect [OF w'] show ?thesis
    by (auto simp: handle_reset_def Let_def reply_frames gdb_stub_clear_breakpoints_def
        gdb_stub_clear_watchpoints_def split: option.split)
qed

text \<open>
  \<open>qfThreadInfo\<close> lists the threads 1 to the number of harts, each once and in
  order, with the process when the client negotiated multiprocess identifiers, and
  \<open>qsThreadInfo\<close> ends the list.
\<close>

lemma thread_list_reply:
  assumes "cb_get_num_harts cb = Some f" "f w = int n" "length (thread_list (multiprocess_active (w_ctx w)) n) < 4092"
    and "w_buf w = ''qfThreadInfo'' @ NUL # r" "w_buf u = ''qsThreadInfo'' @ NUL # r'"
  shows "handle_query cb w = Some (reply (''m'' @ thread_item (multiprocess_active (w_ctx w)) 1 @
      concat (map (\<lambda>h. '','' @ thread_item (multiprocess_active (w_ctx w)) (int h)) [2..<Suc n])) w) \<and>
    handle_query cb u = Some (reply ''l'' u)"
proof -
  have n: "num_harts cb w = int n" using assms(1,2) by (simp add: num_harts_def)
  have "cstr (w_buf u) = Some ''qsThreadInfo''" using assms(5) by simp
  then have "handle_query cb u = Some (reply ''l'' u)" by (simp add: handle_query_def starts_with_def)
  with handle_query_threads [OF n assms(3,4)] show ?thesis by (simp add: thread_list_def)
qed

text \<open>
  \<open>Hg\<close> with a thread the stub printed selects it for the register commands when it
  names one of the harts, and is refused without any change otherwise; a different process
  is refused for \<open>Hg\<close> and \<open>Hc\<close> alike.
\<close>

lemma set_thread_packet:
  assumes "w_buf w = ''Hg'' @ thread_item mp t @ NUL # r" "1 \<le> t" "t < 2 ^ 31"
    and "w_buf u = op # ''p'' @ fmt_int_x pid @ ''.'' @ fmt_int_x t @ NUL # r'" 
    and "w_buf v = ''H'' @ w_buf u" "op \<in> {CHR ''g'', CHR ''c''}" "1 < pid" "pid < 2 ^ 31"
  shows "handle_set_thread cb w = (if t \<le> num_harts cb w
      then Some (reply ''OK'' (call_set_focus cb (t - 1) (upd_ctx (\<lambda>c. c\<lparr>current_thread := t\<rparr>) w)))
      else Some (reply ''E01'' w)) \<and>
    handle_set_thread cb v = Some (reply ''E01'' v)"
proof -
  have "parse_thread_spec (''p'' @ fmt_int_x pid @ ''.'' @ fmt_int_x t) = (pid, t)"
    using assms by (intro parse_printed_pid_thread) simp_all
  moreover have "cstr (''p'' @ fmt_int_x pid @ ''.'' @ fmt_int_x t @ NUL # r') =
      Some (''p'' @ fmt_int_x pid @ ''.'' @ fmt_int_x t)" by simp
  ultimately have "handle_set_thread cb v = Some (reply ''E01'' v)"
    using assms(4-8) by (auto simp: handle_set_thread_def thread_pid_valid_def Let_def)
  with handle_set_thread_select [OF assms(1-3)] show ?thesis by simp
qed

end
