(* ===== verification/Vcont_Packets.thy ===== *)
theory Vcont_Packets
  imports Cmd_Control
begin

text \<open>
  The \<open>vCont\<close> packets of the remote protocol as a client writes them: thread identifiers and
  actions as datatypes with their text, and what src/src/gdb_stub.c makes of every list of
  actions.
\<close>

subsection \<open>Thread identifiers\<close>

text \<open>
  A thread, a whole process, or a thread of a process. The number -1 stands for all, 0 for
  any.
\<close>

datatype vthread = Thread int | Process int | In_process int int

definition id_text :: "int \<Rightarrow> string" where
  "id_text n = (if n = - 1 then ''-1'' else fmt_int_x n)"

fun vthread_text :: "vthread \<Rightarrow> string" where
  "vthread_text (Thread t) = id_text t"
| "vthread_text (Process p) = CHR ''p'' # id_text p"
| "vthread_text (In_process p t) = CHR ''p'' # id_text p @ CHR ''.'' # id_text t"

definition id_ok :: "int \<Rightarrow> bool" where
  "id_ok n = (- 1 \<le> n \<and> n < 2 ^ 31)"

fun vthread_ok :: "vthread \<Rightarrow> bool" where
  "vthread_ok (Thread t) = id_ok t"
| "vthread_ok (Process p) = id_ok p"
| "vthread_ok (In_process p t) = (id_ok p \<and> id_ok t)"

text \<open>
  The process and the thread the stub reads from an identifier: it takes a process alone for
  the thread of that number.
\<close>

fun vthread_ids :: "vthread \<Rightarrow> int \<times> int" where
  "vthread_ids (Thread t) = (0, t)"
| "vthread_ids (Process p) = (0, p)"
| "vthread_ids (In_process p t) = (p, t)"

lemma id_text_facts [simp]:
  "id_text n \<noteq> []" "NUL \<notin> set (id_text n)" "CHR ''.'' \<notin> set (id_text n)" "CHR '';'' \<notin> set (id_text n)"
  "hd (id_text n) \<noteq> CHR ''p''" "hd (id_text n) \<noteq> CHR ''P''"
  by (simp_all add: id_text_def hd_fmt_int_x)

lemma length_id_text: "length (id_text n) \<le> 8"
  using length_fmt_int_x [of n] by (simp add: id_text_def)

lemma strtol16_id_text:
  assumes "id_ok n" "r = [] \<or> hd r = CHR ''.''"
  shows "c_int (strtol16 (id_text n @ r)) = n"
proof (cases "n = - 1")
  case True
  have "takeWhile isxdigit (strip_0x (CHR ''1'' # r)) = ''1''"
    using assms(2) by (cases r) (auto simp: strip_0x_def isxdigit_def u8_def split: list.split)
  then have "strtol_mag (CHR ''1'' # r) = 1" by (simp add: strtol_mag_def hex_nat_def xdigit_val_def u8_def)
  then show ?thesis using True by (simp add: id_text_def strtol16_def isspace_def u8_def c_int_def)
next
  case False
  with assms strtol16_fmt_int_x [of n r] show ?thesis by (simp add: id_text_def id_ok_def)
qed

lemma parse_vthread:
  assumes "vthread_ok v"
  shows "parse_thread_spec (vthread_text v) = vthread_ids v"
proof (cases v)
  case (Thread t)
  show ?thesis
  proof (cases "t = - 1")
    case True
    with Thread show ?thesis by (simp add: parse_thread_spec_def id_text_def)
  next
    case False
    with Thread assms parse_printed_thread [of t] show ?thesis by (simp add: id_text_def id_ok_def)
  qed
next
  case (Process p)
  with assms strtol16_id_text [of p "[]"] show ?thesis by (simp add: parse_thread_spec_def)
next
  case (In_process p t)
  with assms strtol16_id_text [of p "CHR ''.'' # id_text t"] strtol16_id_text [of t "[]"] show ?thesis
    by (simp add: parse_thread_spec_def)
qed

lemma vthread_text_facts [simp]:
  "NUL \<notin> set (vthread_text v)" "CHR '';'' \<notin> set (vthread_text v)" "\<not> 32 \<le> length (vthread_text v)"
proof -
  show "\<not> 32 \<le> length (vthread_text v)"
  proof (cases v)
    case (In_process p t)
    with length_id_text [of p] length_id_text [of t] show ?thesis by simp
  next
    case (Thread t)
    with length_id_text [of t] show ?thesis by simp
  next
    case (Process p)
    with length_id_text [of p] show ?thesis by simp
  qed
qed (cases v; simp)+

subsection \<open>Actions\<close>

text \<open>
  The actions of the protocol but for range stepping, which the stub does not offer: continue
  and step, each also with a signal, and stop.
\<close>

datatype vkind = Cont | Cont_signal byte | Step | Step_signal byte | Stop

type_synonym vaction = "vkind \<times> vthread option"

fun vkind_text :: "vkind \<Rightarrow> string" where
  "vkind_text Cont = ''c''"
| "vkind_text (Cont_signal b) = CHR ''C'' # byte_hex b"
| "vkind_text Step = ''s''"
| "vkind_text (Step_signal b) = CHR ''S'' # byte_hex b"
| "vkind_text Stop = ''t''"

definition vthread_part :: "vthread option \<Rightarrow> string" where
  "vthread_part v = (case v of None \<Rightarrow> [] | Some v \<Rightarrow> CHR '':'' # vthread_text v)"

definition vaction_text :: "vaction \<Rightarrow> string" where
  "vaction_text a = vkind_text (fst a) @ vthread_part (snd a)"

fun vactions_text :: "vaction list \<Rightarrow> string" where
  "vactions_text [] = []"
| "vactions_text (a # as) = vaction_text a @ concat (map (\<lambda>a. CHR '';'' # vaction_text a) as)"

definition vaction_ok :: "vaction \<Rightarrow> bool" where
  "vaction_ok a = (case snd a of None \<Rightarrow> True | Some v \<Rightarrow> vthread_ok v)"

text \<open>The one thread an action names, if it names one, and whether it names a foreign process.\<close>

definition vaction_thread :: "vaction \<Rightarrow> int option" where
  "vaction_thread a = (case snd a of None \<Rightarrow> None
     | Some v \<Rightarrow> if 1 \<le> snd (vthread_ids v) then Some (snd (vthread_ids v)) else None)"

definition foreign :: "vaction \<Rightarrow> bool" where
  "foreign a = (case snd a of None \<Rightarrow> False | Some v \<Rightarrow> fst (vthread_ids v) \<notin> {0, 1})"

lemma foreign_iff:
  "foreign a = (case snd a of None \<Rightarrow> False | Some v \<Rightarrow> \<not> thread_pid_valid (fst (vthread_ids v)))" "thread_pid_valid 0"
  by (simp_all add: foreign_def thread_pid_valid_def split: option.split)

definition is_step :: "vaction \<Rightarrow> bool" where
  "is_step a = (case fst a of Cont \<Rightarrow> False | Cont_signal _ \<Rightarrow> False | _ \<Rightarrow> True)"

subsection \<open>The loop over the actions\<close>

fun vaction_run :: "'x::len gdb_context \<Rightarrow> vaction \<Rightarrow> bool \<times> int \<times> int \<times> bool \<Rightarrow> bool \<times> int \<times> int \<times> bool" where
  "vaction_run ctx a (s, st, ct, h) =
     (if is_step a then (True, (case vaction_thread a of None \<Rightarrow> current_thread ctx | Some t \<Rightarrow> t), ct, True)
      else (s, st, (case vaction_thread a of None \<Rightarrow> - 1 | Some t \<Rightarrow> t), True))"

lemma vcont_spec_text:
  assumes "rest = [] \<or> hd rest = CHR '';''" "vaction_ok a"
  shows "vcont_spec (vthread_part (snd a) @ rest) =
    (case snd a of None \<Rightarrow> Some (0, - 1, rest) | Some v \<Rightarrow> Some (fst (vthread_ids v), snd (vthread_ids v), rest))"
proof (cases "snd a")
  case None
  with assms(1) show ?thesis by (auto simp: vcont_spec_def vthread_part_def)
next
  case (Some v)
  have "takeWhile (\<lambda>c. c \<noteq> CHR '';'') (vthread_text v @ rest) = vthread_text v"
    using assms(1) by (subst takeWhile_append2) (auto simp: takeWhile_eq_Nil_iff)
  moreover have "dropWhile (\<lambda>c. c \<noteq> CHR '';'') (vthread_text v @ rest) = rest"
    using assms(1) by (subst dropWhile_append2) (cases rest; auto)+
  ultimately show ?thesis
    using Some assms(2) parse_vthread [of v] by (simp add: vcont_spec_def vthread_part_def vaction_ok_def case_prod_beta)
qed

text \<open>One turn of the loop: the letter, the digits of the signal that are skipped, the thread.\<close>

lemma vcont_loop_action:
  assumes "rest = [] \<or> hd rest = CHR '';''" "vaction_ok a" "1 \<le> current_thread ctx"
  shows "vcont_loop ctx (vaction_text a @ rest) s st ct h =
    (if foreign a then VC_error
     else case vaction_run ctx a (s, st, ct, h) of (s, st, ct, h) \<Rightarrow> vcont_loop ctx (skip_char CHR '';'' rest) s st ct h)"
proof -
  obtain x ds where k: "vkind_text (fst a) = x # ds" by (cases "fst a") auto
  have "isxdigit (int_to_hex (drop_bit 4 b))" "isxdigit (int_to_hex (b AND 0xF))" for b :: byte
    using nibble_less [of b] by (simp_all only: int_to_hex_isxdigit)
  then have "skip_signal x (ds @ vthread_part (snd a) @ rest) = vthread_part (snd a) @ rest"
    using k by (cases "fst a") (auto simp: skip_signal_def byte_hex_def)
  then have "vcont_spec (skip_signal x (ds @ vthread_part (snd a) @ rest)) =
      (case snd a of None \<Rightarrow> Some (0, - 1, rest) | Some v \<Rightarrow> Some (fst (vthread_ids v), snd (vthread_ids v), rest))"
    using vcont_spec_text [OF assms(1,2)] by simp
  moreover have "x \<in> {CHR ''c'', CHR ''C''} \<longleftrightarrow> \<not> is_step a"
    "x \<in> {CHR ''s'', CHR ''S'', CHR ''t'', CHR ''T''} \<longleftrightarrow> is_step a"
    using k by (cases "fst a"; auto simp: is_step_def)+
  ultimately show ?thesis
    using assms(3)
    by (cases "snd a")
      (simp_all add: vaction_text_def k vcont_loop.simps [of ctx "_ # _"] foreign_iff vaction_thread_def
        resolve_continue_thread_def resolve_step_thread_def Let_def del: insert_iff)
qed

lemma vcont_loop_actions:
  assumes "\<forall>a \<in> set as. vaction_ok a" "1 \<le> current_thread ctx"
  shows "vcont_loop ctx (vactions_text as) s st ct h =
    (if \<exists>a \<in> set as. foreign a then VC_error
     else case fold (vaction_run ctx) as (s, st, ct, h) of (s, st, ct, h) \<Rightarrow> VC_done s st ct h)"
  using assms(1)
proof (induction as arbitrary: s st ct h)
  case Nil
  then show ?case by (simp add: vcont_loop.simps)
next
  case (Cons a as)
  let ?rest = "concat (map (\<lambda>a. CHR '';'' # vaction_text a) as)"
  have r: "?rest = [] \<or> hd ?rest = CHR '';''" by (cases as) simp_all
  have "skip_char CHR '';'' ?rest = vactions_text as" by (cases as) (simp_all add: skip_char_def)
  with Cons vcont_loop_action [OF r, of a ctx s st ct h] assms(2) show ?case
    by (simp del: vaction_run.simps split: prod.split)
qed

lemma vaction_fold:
  "fold (vaction_run ctx) as (s, st, ct, h) =
    (s \<or> (\<exists>a \<in> set as. is_step a),
     if \<exists>a \<in> set as. is_step a
     then (case vaction_thread (last (filter is_step as)) of None \<Rightarrow> current_thread ctx | Some t \<Rightarrow> t) else st,
     if \<exists>a \<in> set as. \<not> is_step a
     then (case vaction_thread (last (filter (\<lambda>a. \<not> is_step a) as)) of None \<Rightarrow> - 1 | Some t \<Rightarrow> t) else ct,
     h \<or> as \<noteq> [])"
  by (induction as rule: rev_induct) auto

subsection \<open>The packet\<close>

text \<open>
  C34: What a \<open>vCont\<close> packet does, for every list of actions \<open>c\<close>, \<open>C\<close>, \<open>s\<close>, \<open>S\<close> and \<open>t\<close>, with or
  without a thread identifier in any of its forms (\<open>N\<close>, \<open>pP\<close>, \<open>pP.N\<close>, where -1 is all and 0 any).
  If an action names a thread of a process other than 0 and 1, the packet is refused with E01 and
  changes nothing else. Otherwise the processor is started. If any of its actions is \<open>s\<close>, \<open>S\<close> or \<open>t\<close>,
  it single-steps the thread of the last of these (the selected thread when that names no single
  one), whatever the continue actions say; else it continues the thread of the last action (all
  threads when it names no single one). The stop state is cleared before the resume callback is
  called. So the signals of \<open>C\<close> and \<open>S\<close> are read and dropped, the action \<open>t\<close>, a request to stop,
  is taken for a step, and a process alone (\<open>pP\<close>) for the thread of that number.
\<close>

theorem vcont_packet:
  fixes w :: "('x::len, 's) world"
  assumes "as \<noteq> []" "\<forall>a \<in> set as. vaction_ok a" "1 \<le> current_thread (w_ctx w)"
    and "w_buf w = ''vCont;'' @ vactions_text as @ NUL # r"
  defines "step \<equiv> \<exists>a \<in> set as. is_step a"
  shows "handle_vcont cb w =
    (if \<exists>a \<in> set as. foreign a then Some (False, reply ''E01'' w)
     else Some (True, call_opt (cb_resume cb) (w_ctx_update (\<lambda>c. c
       \<lparr>single_step := step,
        continue_thread :=
          (if step then case vaction_thread (last (filter is_step as)) of None \<Rightarrow> current_thread c | Some t \<Rightarrow> t
           else case vaction_thread (last as) of None \<Rightarrow> - 1 | Some t \<Rightarrow> t),
        should_stop := False, stop_thread := 0\<rparr>) w)))"
proof -
  let ?t = "vactions_text as"
  have no: "NUL \<notin> set ?t"
  proof -
    have "NUL \<notin> set (vaction_text a)" for a
      by (cases "fst a"; cases "snd a") (auto simp: vaction_text_def vthread_part_def)
    then show ?thesis by (cases as) auto
  qed
  have hd: "?t \<noteq> []" "hd ?t \<noteq> CHR '';''"
    using assms(1) by (cases as; cases "fst (hd as)"; simp add: vaction_text_def)+
  have "cstr (w_buf w) = Some (''vCont;'' @ ?t)" using no assms(4) by simp
  moreover have "skip_char CHR '';'' (drop 5 (''vCont;'' @ ?t)) = ?t" by (simp add: skip_char_def)
  moreover have "vcont_loop (w_ctx w) ?t False (- 1) (- 1) False =
    (if \<exists>a \<in> set as. foreign a then VC_error
     else case fold (vaction_run (w_ctx w)) as (False, - 1, - 1, False) of (s, st, ct, h) \<Rightarrow> VC_done s st ct h)"
    by (rule vcont_loop_actions [OF assms(2,3)])
  moreover obtain k v where "(k, v) \<in> set as" using assms(1) by (cases as) auto
  moreover have "\<not> step \<Longrightarrow> filter (\<lambda>a. \<not> is_step a) as = as" by (auto simp: step_def filter_id_conv)
  ultimately show ?thesis using hd(1) assms(1)
    by (cases "\<exists>a \<in> set as. foreign a"; cases step)
      (auto simp: handle_vcont_def vaction_fold starts_with_def step_def Let_def simp del: vactions_text.simps
        intro!: arg_cong [of _ _ "call_opt (cb_resume cb)"] split: option.split)
qed

text \<open>The packet GDB sends after a stop at a breakpoint.\<close>

lemma vcont_packet_witness:
  "vactions_text [(Step, Some (In_process 1 1)), (Cont, Some (In_process 1 (- 1)))] = ''s:p1.1;c:p1.-1'' \<and>
   (\<exists>w. handle_vcont file_callbacks (packet_world (''vCont;s:p1.1;c:p1.-1'' @ NUL # []) (\<lambda>_. 0 :: 32 word)) = Some (True, w) \<and>
     single_step (w_ctx w) \<and> continue_thread (w_ctx w) = 1)"
proof -
  let ?as = "[(Step, Some (In_process 1 1)), (Cont, Some (In_process 1 (- 1)))]"
  let ?w = "packet_world (''vCont;s:p1.1;c:p1.-1'' @ NUL # []) (\<lambda>_. 0 :: 32 word)"
  have "fmt_int_x 1 = ''1''" by (simp add: fmt_int_x_def fmt_x_digit hex_char_def)
  then have t: "vactions_text ?as = ''s:p1.1;c:p1.-1''"
    by (simp add: vaction_text_def vthread_part_def id_text_def)
  have "handle_vcont file_callbacks ?w = Some (True, call_opt (cb_resume file_callbacks) (w_ctx_update (\<lambda>c. c
       \<lparr>single_step := True, continue_thread := 1, should_stop := False, stop_thread := 0\<rparr>) ?w))"
    by (subst vcont_packet [where as = ?as and r = "[]"])
      (simp_all add: t vaction_ok_def id_ok_def foreign_def is_step_def vaction_thread_def del: vactions_text.simps)
  with t show ?thesis by (simp add: call_opt_def file_callbacks_def)
qed

end
