(* ===== verification/Dispatch.thy ===== *)
theory Dispatch
  imports Cmd_Control
begin

text \<open>
  \<open>gdb_stub_process\<close> of src/src/gdb_stub.c: one packet is received and its command is
  carried out. The result is the C return value (-1 the session ends, 0 the command is done,
  1 the processor is to run) and the new world.
\<close>

abbreviation done0 :: "('x::len, 's) world option \<Rightarrow> (int \<times> ('x, 's) world) option" where
  "done0 r \<equiv> map_option (\<lambda>w. (0, w)) r"

definition process_interrupt ::
    "('x::len, 's) gdb_callbacks \<Rightarrow> ('x, 's) world \<Rightarrow> ('x, 's) world" where
  "process_interrupt cb w =
     (let w1 = call_opt (cb_halt_cpus cb) (upd_ctx (\<lambda>c. c\<lparr>should_stop := True\<rparr>) w);
          w2 = (if stop_thread (w_ctx w1) = 0 then upd_ctx (gdb_stub_set_stop_thread 0) w1 else w1)
      in snd (gdb_stub_send_stop_reason 2 0 w2))"

definition process_continue ::
    "('x::len, 's) gdb_callbacks \<Rightarrow> ('x, 's) world \<Rightarrow> ('x, 's) world" where
  "process_continue cb w = call_opt (cb_resume cb)
     (upd_ctx (\<lambda>c. c\<lparr>should_stop := False, single_step := False, stop_thread := 0,
        continue_thread := - 1\<rparr>) w)"

definition process_step ::
    "('x::len, 's) gdb_callbacks \<Rightarrow> ('x, 's) world \<Rightarrow> ('x, 's) world" where
  "process_step cb w = call_opt (cb_resume cb)
     (upd_ctx (\<lambda>c. (if continue_thread c < 0 then c\<lparr>continue_thread := current_thread c\<rparr> else c)
        \<lparr>should_stop := False, single_step := True, stop_thread := 0\<rparr>) w)"

definition process_v ::
    "('x::len, 's) gdb_callbacks \<Rightarrow> ('x, 's) world \<Rightarrow> (int \<times> ('x, 's) world) option" where
  "process_v cb w = do {
     packet \<leftarrow> cstr (w_buf w);
     if starts_with packet ''vCont'' then do {
       (run_cpu, w1) \<leftarrow> handle_vcont cb w;
       Some (if run_cpu then 1 else 0, w1) }
     else Some (0, reply '''' w) }"

definition dispatch ::
    "('x::len, 's) gdb_callbacks \<Rightarrow> char \<Rightarrow> ('x, 's) world \<Rightarrow> (int \<times> ('x, 's) world) option" where
  "dispatch cb cmd w =
     (if cmd = CHR 0x03 then Some (0, process_interrupt cb w)
      else if cmd = CHR ''?'' then done0 (handle_halt_reason cb w)
      else if cmd = CHR ''q'' then done0 (handle_query cb w)
      else if cmd = CHR ''Q'' then done0 (handle_general_set w)
      else if cmd = CHR ''g'' then done0 (handle_read_registers cb w)
      else if cmd = CHR ''G'' then done0 (handle_write_registers cb w)
      else if cmd = CHR ''m'' then done0 (handle_read_memory cb w)
      else if cmd = CHR ''M'' then done0 (handle_write_memory cb w)
      else if cmd = CHR ''p'' then done0 (handle_read_single_register cb w)
      else if cmd = CHR ''P'' then done0 (handle_write_single_register cb w)
      else if cmd = CHR ''X'' then done0 (handle_write_memory_binary cb w)
      else if cmd = CHR ''R'' then done0 (handle_reset cb w)
      else if cmd = CHR ''H'' then done0 (handle_set_thread cb w)
      else if cmd = CHR ''T'' then done0 (handle_thread_alive cb w)
      else if cmd = CHR ''v'' then process_v cb w
      else if cmd = CHR ''c'' then Some (1, process_continue cb w)
      else if cmd = CHR ''s'' then Some (1, process_step cb w)
      else if cmd = CHR ''Z'' then done0 (handle_breakpoint True w)
      else if cmd = CHR ''z'' then done0 (handle_breakpoint False w)
      else if cmd = CHR ''k'' then Some (- 1, w)
      else if cmd = CHR ''D'' then
        Some (- 1, upd_ctx (stub_update (connected_update (\<lambda>_. False))) (reply ''OK'' w))
      else Some (0, reply '''' w))"

definition gdb_stub_process ::
    "('x::len, 's) gdb_callbacks \<Rightarrow> ('x, 's) world \<Rightarrow> (int \<times> ('x, 's) world) option" where
  "gdb_stub_process cb w =
     (if \<not> connected (w_stub w) then Some (- 1, w)
      else if consecutive_failures (w_stub w) \<ge> 50 then Some (- 1, w)
      else
        let (r, gs, l) = receive_packet (w_stub w) (w_link w);
            w1 = upd_ctx (stub_update (\<lambda>_. gs)) (w\<lparr>w_link := l\<rparr>) in
        if r < 0 then Some (- 1, w1)
        else (case w_buf w1 of [] \<Rightarrow> None | cmd # _ \<Rightarrow> dispatch cb cmd w1))"

end
