(* ===== verification/Reply_Text.thy ===== *)
theory Reply_Text
  imports Dispatch
begin

text \<open>
  The language of the output: what the stub sends is a sequence of acknowledgements and frames
  around plain text. Here are the tokens, the relation between what was sent before and after,
  and the text of every reply; theory Session carries the relation through the commands.
\<close>

subsection \<open>Plain text\<close>

text \<open>
  Printable characters without those that the protocol gives a meaning inside a packet: the start,
  the end, run lengths and the escape.
\<close>

definition plain_char :: "char \<Rightarrow> bool" where
  "plain_char c = (32 \<le> (of_char c :: nat) \<and> (of_char c :: nat) < 127 \<and> c \<notin> set ''#$}*'')"

definition plain :: "string \<Rightarrow> bool" where
  "plain d = list_all plain_char d"

lemma plain_simps [simp]:
  "plain []" "plain (c # d) = (plain_char c \<and> plain d)" "plain (d @ d') = (plain d \<and> plain d')"
  "plain d \<Longrightarrow> plain (take n d)" "plain d \<Longrightarrow> plain (snprintf n d)"
  "plain (concat ds) = (\<forall>d \<in> set ds. plain d)"
  by (auto simp: plain_def snprintf_def list_all_iff dest: in_set_takeD)

lemma plain_hex_char [simp]: "n < 16 \<Longrightarrow> plain_char (hex_char n)"
proof -
  assume "n < 16"
  then have "n \<in> set [0..<16]" by simp
  moreover have "\<forall>n \<in> set [0..<16]. plain_char (hex_char n)" by code_simp
  ultimately show ?thesis by blast
qed

lemma plain_fmt [simp]: "plain (fmt_x n)" "plain (fmt_0x k n)" "plain (fmt_int_x v)" "plain (fmt_addr a)"
proof -
  show x: "plain (fmt_x n)" for n using plain_hex_char by (auto simp: plain_def list_all_iff dest!: fmt_x_chars)
  have "plain_char CHR ''0''" by code_simp
  then show "plain (fmt_0x k n)" for k n using x [of n] by (auto simp: fmt_0x_def plain_def list_all_iff Let_def)
  then show "plain (fmt_int_x v)" "plain (fmt_addr a)" using x by (simp_all add: fmt_int_x_def fmt_addr_def)
qed

lemma plain_hex [simp]: "plain (byte_hex b)" "plain (encode_hex v n)" "plain (registers_image cb w)"
proof -
  have h: "plain_char (int_to_hex v)" if "v < 16" for v
    using that by (elim byte_less_16_cases) (auto simp: int_to_hex_nat)
  show "plain (byte_hex b)" for b using h [OF nibble_less(1)] h [OF nibble_less(2)] by (simp add: byte_hex_def)
  then show "plain (encode_hex v n)" for v n by (auto simp: encode_hex_def)
  then show "plain (registers_image cb w)" by (auto simp: registers_image_def)
qed

lemma plain_char_literal [simp]:
  "plain_char (Char a b c d e f g h) = (let x = Char a b c d e f g h in
     32 \<le> (of_char x :: nat) \<and> (of_char x :: nat) < 127 \<and> x \<notin> set ''#$}*'')"
  by (simp only: plain_char_def Let_def)

lemma plain_thread_info:
  assumes "thread_info mp n = (p, r)"
  shows "plain r"
proof -
  have *: "plain r \<Longrightarrow> plain (snd (thread_info_loop mp n h p r))" for h p r
  proof (induction mp n h p r rule: thread_info_loop.induct)
    case (1 mp harts h pos resp)
    then show ?case by (subst thread_info_loop.simps) (simp add: Let_def)
  qed
  from * [of "if mp then ''mp'' @ fmt_int_x GDB_STUB_PID @ ''.'' @ fmt_int_x 1 else ''m1''"] assms show ?thesis
    by (auto simp: thread_info_def Let_def dest: arg_cong [where f = "\<lambda>x. plain (snd x)"])
qed

lemma plain_format_stop_reply [simp]: "plain (format_stop_reply ctx n s tid sw wa pa)"
  by (simp add: format_stop_reply_def Let_def)

lemma plain_stop_reason [simp]: "plain (fst (stop_reason s a ctx))"
  by (simp add: stop_reason_def Let_def)

lemma plain_target_xml [simp]: "plain (target_xml x)"
  by (simp add: target_xml_def target_arch_def)

subsection \<open>Tokens\<close>

datatype token = Ack | Nak | Packet string

fun token_text :: "token \<Rightarrow> string" where
  "token_text Ack = ''+''"
| "token_text Nak = ''-''"
| "token_text (Packet d) = frame d"

fun token_ok :: "token \<Rightarrow> bool" where
  "token_ok (Packet d) = (plain d \<and> length d < 4092)"
| "token_ok _ = True"

text \<open>From one state of the link to a later one, when the operating system takes all it is given.\<close>

definition says :: "link \<Rightarrow> link \<Rightarrow> bool" where
  "says l l' = (wsched l = [] \<longrightarrow> wsched l' = [] \<and>
     (\<exists>ts. list_all token_ok ts \<and> tx l' = tx l @ concat (map token_text ts)))"

lemma says_refl [simp]: "says l l"
  unfolding says_def by (intro impI conjI exI [of _ "[]"]) simp_all

lemma says_trans:
  assumes "says l l'" "says l' l''"
  shows "says l l''"
  unfolding says_def
proof (intro impI)
  assume "wsched l = []"
  with assms obtain ts ts' where "wsched l'' = []" "list_all token_ok ts" "list_all token_ok ts'"
      "tx l' = tx l @ concat (map token_text ts)" "tx l'' = tx l' @ concat (map token_text ts')"
    by (auto simp: says_def)
  then show "wsched l'' = [] \<and> (\<exists>ts. list_all token_ok ts \<and> tx l'' = tx l @ concat (map token_text ts))"
    by (intro conjI exI [of _ "ts @ ts'"]) simp_all
qed

lemma says_token: "token_ok t \<Longrightarrow> wsched l' = [] \<Longrightarrow> tx l' = tx l @ token_text t \<Longrightarrow> says l l'"
  unfolding says_def by (intro impI conjI exI [of _ "[t]"]) simp_all

lemma says_rx [simp]: "says (l\<lparr>rx := r\<rparr>) l' = says l l'" "says l (l'\<lparr>rx := r\<rparr>) = says l l'"
  by (simp_all add: says_def)

lemma says_send: "plain d \<Longrightarrow> says l (snd (send_packet d l))"
proof (cases "wsched l = [] \<and> length d < 4092")
  case True
  assume "plain d"
  with True show ?thesis by (intro says_token [of "Packet d"]) (simp_all add: send_packet_ok)
qed (auto simp: says_def send_packet_too_long intro: exI [of _ "[]"])

lemma says_receive:
  assumes "receive_packet gs l = (r, gs', l')"
  shows "says l l'"
proof -
  have w: "says l (snd (os_write ''+'' l))" "says l (snd (os_write ''-'' l))" for l
    using says_token [of Ack "snd (os_write ''+'' l)" l] says_token [of Nak "snd (os_write ''-'' l)" l]
    by (auto simp: os_write_def says_def split: list.split)
  have "receive_loop cs st i e d gs l = (r, gs', l') \<Longrightarrow> says l l'" for cs st i e d
  proof (induction cs st i e d gs l rule: receive_loop.induct)
    case (4 c cs index expected received gs l)
    then show ?case using w [of "l\<lparr>rx := cs\<rparr>"] by (auto simp: Let_def split: if_splits prod.splits)
  qed (auto simp: Let_def split: if_splits)
  with assms show ?thesis by (simp add: receive_packet_def)
qed

text \<open>What a command does to the link: it says something and leaves what is to be received.\<close>

definition speaks :: "link \<Rightarrow> link \<Rightarrow> bool" where
  "speaks l l' = (rx l' = rx l \<and> says l l')"

lemma speaks_refl [simp]: "speaks l l"
  by (simp add: speaks_def)

lemma speaks_trans: "speaks l l' \<Longrightarrow> speaks l' l'' \<Longrightarrow> speaks l l''"
  by (auto simp: speaks_def intro: says_trans)

lemma speaks_reply: "plain d \<Longrightarrow> speaks (w_link w) (w_link (reply d w))"
  using says_send [of d "w_link w"] by (simp add: speaks_def reply_frames) (simp add: reply_def)

end
