(* ===== verification/Session.thy ===== *)
theory Session
  imports Reply_Text
begin

text \<open>
  A session with the debugger: the invariant of the context, that every command keeps it
  when the callbacks do (locale \<open>stub_callbacks\<close>), which commands have a defined
  execution, and what a call of \<open>gdb_stub_process\<close> does with the bytes of the client.
\<close>

subsection \<open>The invariant of the context\<close>

definition stub_inv :: "'x::len gdb_context \<Rightarrow> bool" where
  "stub_inv ctx = (length (packet_buffer (stub ctx)) = 4096 \<and> bp_inv ctx \<and> wp_inv ctx \<and>
     1 \<le> current_thread ctx \<and> 0 \<le> stop_thread ctx)"

lemma table_invs_cong:
  "breakpoints c = breakpoints c' \<Longrightarrow> breakpoint_count c = breakpoint_count c' \<Longrightarrow> bp_inv c = bp_inv c'"
  "watchpoints c = watchpoints c' \<Longrightarrow> watchpoint_count c = watchpoint_count c' \<Longrightarrow> wp_inv c = wp_inv c'"
  by (simp_all add: bp_abs_defs wp_abs_defs)

lemma stub_inv_flags [simp]:
  "stub_inv (ctx\<lparr>single_step := b\<rparr>) = stub_inv ctx"
  "stub_inv (ctx\<lparr>should_stop := b\<rparr>) = stub_inv ctx"
  "stub_inv (ctx\<lparr>breakpoint_hit := b\<rparr>) = stub_inv ctx"
  "stub_inv (ctx\<lparr>multiprocess_active := b\<rparr>) = stub_inv ctx"
  "stub_inv (ctx\<lparr>last_watchpoint_addr := a\<rparr>) = stub_inv ctx"
  "stub_inv (ctx\<lparr>last_stop_signal := s\<rparr>) = stub_inv ctx"
  "stub_inv (ctx\<lparr>continue_thread := t\<rparr>) = stub_inv ctx"
  by (simp_all add: stub_inv_def bp_abs_defs wp_abs_defs)

lemma stub_inv_threads [simp]:
  "stub_inv ctx \<Longrightarrow> 1 \<le> t \<Longrightarrow> stub_inv (ctx\<lparr>current_thread := t\<rparr>)"
  "stub_inv ctx \<Longrightarrow> 0 \<le> t \<Longrightarrow> stub_inv (ctx\<lparr>stop_thread := t\<rparr>)"
  by (simp_all add: stub_inv_def bp_abs_defs wp_abs_defs)

lemma stub_inv_stub [simp]:
  "stub_inv ctx \<Longrightarrow> (\<And>g. length (packet_buffer (f g)) = length (packet_buffer g)) \<Longrightarrow>
    stub_inv (stub_update f ctx)"
  by (simp add: stub_inv_def bp_abs_defs wp_abs_defs)

lemma stub_inv_tables [simp]:
  assumes "stub_inv ctx"
  shows "stub_inv (snd (gdb_stub_add_breakpoint a ctx))" "stub_inv (snd (gdb_stub_remove_breakpoint a ctx))"
    "stub_inv (gdb_stub_clear_breakpoints ctx)"
    "stub_inv (snd (gdb_stub_add_watchpoint a l ty ctx))" "stub_inv (snd (gdb_stub_remove_watchpoint a l ty ctx))"
    "stub_inv (gdb_stub_clear_watchpoints ctx)"
    "stub_inv (snd (gdb_stub_check_breakpoint a ctx))"
    "stub_inv (snd (gdb_stub_check_watchpoint_read a l ctx))"
    "stub_inv (snd (gdb_stub_check_watchpoint_write a l ctx))"
    "stub_inv (gdb_stub_set_stop_thread t ctx)"
    "stub_inv (snd (stop_reason sig x ctx))"
proof -
  have w: "wp_inv (snd (gdb_stub_add_breakpoint a ctx))" "wp_inv (snd (gdb_stub_remove_breakpoint a ctx))"
    "wp_inv (gdb_stub_clear_breakpoints ctx)"
    and b: "bp_inv (snd (gdb_stub_add_watchpoint a l ty ctx))" "bp_inv (snd (gdb_stub_remove_watchpoint a l ty ctx))"
    "bp_inv (gdb_stub_clear_watchpoints ctx)"
    using assms
    by (auto simp: stub_inv_def gdb_stub_add_breakpoint_def gdb_stub_remove_breakpoint_def
        gdb_stub_clear_breakpoints_def gdb_stub_add_watchpoint_def gdb_stub_remove_watchpoint_def
        gdb_stub_clear_watchpoints_def bp_abs_defs wp_abs_defs Let_def split: option.split)
  have t: "current_thread (snd (gdb_stub_add_breakpoint a ctx)) = current_thread ctx"
    "stop_thread (snd (gdb_stub_add_breakpoint a ctx)) = stop_thread ctx"
    "current_thread (snd (gdb_stub_remove_breakpoint a ctx)) = current_thread ctx"
    "stop_thread (snd (gdb_stub_remove_breakpoint a ctx)) = stop_thread ctx"
    "current_thread (snd (gdb_stub_add_watchpoint a l ty ctx)) = current_thread ctx"
    "stop_thread (snd (gdb_stub_add_watchpoint a l ty ctx)) = stop_thread ctx"
    "current_thread (snd (gdb_stub_remove_watchpoint a l ty ctx)) = current_thread ctx"
    "stop_thread (snd (gdb_stub_remove_watchpoint a l ty ctx)) = stop_thread ctx"
    by (simp_all add: gdb_stub_add_breakpoint_def gdb_stub_remove_breakpoint_def gdb_stub_add_watchpoint_def
        gdb_stub_remove_watchpoint_def Let_def split: option.split)
  have "wp_inv (snd (gdb_stub_add_watchpoint a l ty ctx))" "wp_inv (snd (gdb_stub_remove_watchpoint a l ty ctx))"
    using wp.inv_ins [of ctx "(a, l, ty)"] wp.inv_del [of ctx "(a, l, ty)"] assms
    by (simp_all add: wp_add_def wp_remove_def stub_inv_def)
  with w b t assms show "stub_inv (snd (gdb_stub_add_breakpoint a ctx))" "stub_inv (snd (gdb_stub_remove_breakpoint a ctx))"
    "stub_inv (gdb_stub_clear_breakpoints ctx)"
    "stub_inv (snd (gdb_stub_add_watchpoint a l ty ctx))" "stub_inv (snd (gdb_stub_remove_watchpoint a l ty ctx))"
    "stub_inv (gdb_stub_clear_watchpoints ctx)"
    using bp.inv_ins [of ctx a] bp.inv_del [of ctx a] clear_effect(2) [of ctx] wp_clear_effect(2) [of ctx]
    by (auto simp: stub_inv_def breakpoint_frames watchpoint_frames)
      (simp_all add: gdb_stub_clear_breakpoints_def gdb_stub_clear_watchpoints_def)
qed (use assms in \<open>auto simp: check_breakpoint_eq gdb_stub_check_watchpoint_read_def
      gdb_stub_check_watchpoint_write_def gdb_stub_set_stop_thread_def stop_reason_def Let_def split: option.split\<close>)

text \<open>
  A good world: the context satisfies its invariant, and the simulator and the link satisfy one
  that the client of the lemmas chooses.
\<close>

definition good :: "('s \<Rightarrow> link \<Rightarrow> bool) \<Rightarrow> ('x::len, 's) world \<Rightarrow> bool" where
  "good ok w = (stub_inv (w_ctx w) \<and> ok (w_sim w) (w_link w))"

lemma good_frames [simp]:
  "good (\<lambda>s _. P s) (reply d w) = good (\<lambda>s _. P s) w" "good (\<lambda>s _. P s) (w\<lparr>w_link := l\<rparr>) = good (\<lambda>s _. P s) w"
  "good (\<lambda>s _. P s) (w_link_update g w) = good (\<lambda>s _. P s) w"
  "good (\<lambda>s _. P s) (snd (gdb_stub_send_stop_reason s a w)) =
    good (\<lambda>s _. P s) (w_ctx_update (\<lambda>c. snd (stop_reason s a c)) w)"
  by (simp_all add: good_def reply_frames send_stop_reason_frames)

lemma good_upd_ctx [simp]:
  "good ok w \<Longrightarrow> (stub_inv (w_ctx w) \<Longrightarrow> stub_inv (f (w_ctx w))) \<Longrightarrow> good ok (w_ctx_update f w)"
  by (simp add: good_def)

lemma good_stub_inv: "good ok w \<Longrightarrow> stub_inv (w_ctx w)"
  by (simp add: good_def)

text \<open>A command that is defined ends in a good world.\<close>

definition keeps :: "('s \<Rightarrow> link \<Rightarrow> bool) \<Rightarrow> ('x::len, 's) world option \<Rightarrow> bool" where
  "keeps ok r = (\<forall>w. r = Some w \<longrightarrow> good ok w)"

lemma keeps_rules:
  "good ok w \<Longrightarrow> keeps ok (Some w)"
  "keeps ok None"
  "(\<And>x. m = Some x \<Longrightarrow> keeps ok (f x)) \<Longrightarrow> keeps ok (Option.bind m f)"
  "(b \<Longrightarrow> keeps ok r) \<Longrightarrow> (\<not> b \<Longrightarrow> keeps ok r') \<Longrightarrow> keeps ok (if b then r else r')"
  "(x = None \<Longrightarrow> keeps ok r) \<Longrightarrow> (\<And>y. x = Some y \<Longrightarrow> keeps ok (g y)) \<Longrightarrow> keeps ok (case x of None \<Rightarrow> r | Some y \<Rightarrow> g y)"
  "(\<And>y z. p = (y, z) \<Longrightarrow> keeps ok (h y z)) \<Longrightarrow> keeps ok (case p of (y, z) \<Rightarrow> h y z)"
  by (auto simp: keeps_def bind_eq_Some_conv split: option.split prod.splits)

subsection \<open>Callbacks that keep the invariant\<close>

locale stub_callbacks =
  fixes cb :: "('x::len, 's) gdb_callbacks"
    and ok :: "'s \<Rightarrow> link \<Rightarrow> bool"
  assumes speaks_inv: "ok s l \<Longrightarrow> speaks l l' \<Longrightarrow> ok s l'"
    and write_reg_inv: "good ok w \<Longrightarrow> good ok ((cb_write_reg cb i v w))"
    and read_mem_inv: "good ok w \<Longrightarrow> good ok ((snd (cb_read_mem cb a n w)))"
    and write_mem_inv: "good ok w \<Longrightarrow> good ok ((cb_write_mem cb a v n w))"
    and set_pc_inv: "good ok w \<Longrightarrow> good ok ((cb_set_pc cb v w))"
    and reset_inv: "cb_reset cb = Some f \<Longrightarrow> good ok w \<Longrightarrow> good ok ((f w))"
    and resume_inv: "cb_resume cb = Some f \<Longrightarrow> good ok w \<Longrightarrow> good ok ((f w))"
    and focus_inv: "cb_set_focus_hart cb = Some g \<Longrightarrow> good ok w \<Longrightarrow> good ok ((g h w))"
    and halt_inv: "cb_halt_cpus cb = Some f \<Longrightarrow> good ok w \<Longrightarrow> good ok ((f w))"
begin

lemma reply_inv [simp]: "good ok w \<Longrightarrow> plain d \<Longrightarrow> good ok (reply d w)"
  using speaks_inv [OF _ speaks_reply] by (auto simp: good_def reply_frames)

lemma send_stop_inv:
  "good ok (w_ctx_update (\<lambda>c. snd (stop_reason s a c)) w) \<Longrightarrow> good ok (snd (gdb_stub_send_stop_reason s a w))"
  unfolding send_stop_reason_eq by (rule reply_inv) (simp_all add: good_def)

lemmas callback_invs = write_reg_inv read_mem_inv write_mem_inv set_pc_inv

lemma optional_invs:
  assumes "good ok w"
  shows "good ok ((call_opt (cb_resume cb) w))" "good ok ((call_opt (cb_halt_cpus cb) w))"
    "good ok ((call_set_focus cb h w))"
  using resume_inv halt_inv focus_inv assms by (auto simp: call_opt_def call_set_focus_def split: option.split)

lemma upd_buf_inv:
  "good ok w \<Longrightarrow> (\<And>b. length (f b) = length b) \<Longrightarrow> good ok ((upd_buf f w))"
  by simp

lemma write_regs_loop_inv:
  "write_regs_loop cb is w = Some w' \<Longrightarrow> good ok w \<Longrightarrow> good ok w'"
  by (induction "is" arbitrary: w) (auto simp: bind_eq_Some_conv write_reg_inv)

lemma read_bytes_inv: "good ok w \<Longrightarrow> good ok ((snd (read_bytes cb a n w)))"
proof (induction n arbitrary: a w)
  case (Suc n)
  then show ?case using read_mem_inv [of w a 1] by (auto simp: Let_def split: prod.split) (metis snd_conv)
qed simp

lemma write_hex_loop_inv:
  "write_hex_loop cb a off n w = Some w' \<Longrightarrow> good ok w \<Longrightarrow> good ok w'"
  by (induction n arbitrary: a off w) (auto simp: write_mem_inv split: list.splits)

lemma write_bytes_inv: "good ok w \<Longrightarrow> good ok ((write_bytes cb a bs w))"
  by (induction bs arbitrary: a w) (auto simp: write_mem_inv)

lemma match_at_inv:
  "match_at cb a off n w = Some (found, w') \<Longrightarrow> good ok w \<Longrightarrow> good ok w'"
proof (induction n arbitrary: a off w)
  case (Suc n)
  then show ?case using read_mem_inv [of w a 1]
    by (auto simp: Let_def split: list.splits prod.splits if_splits)
qed simp

lemma search_loop_inv_aux:
  assumes "search_loop cb' end_a off n a w = Some res"
  shows "cb' = cb \<longrightarrow> good ok w \<longrightarrow> good ok ((snd res))"
proof (rule search_loop.raw_induct [OF _ assms])
  fix f cb' end_a off n a w res
  assume IH: "\<And>cb' end_a off n a w res. f cb' end_a off n a w = Some res \<Longrightarrow>
      cb' = cb \<longrightarrow> good ok w \<longrightarrow> good ok ((snd res))"
    and run: "(if a \<le> end_a then do {
        (found, w1) \<leftarrow> match_at cb' a off n w;
        if found then Some (Some a, w1) else f cb' end_a off n (a + 1) w1 }
      else Some (None, w)) = Some res"
  show "cb' = cb \<longrightarrow> good ok w \<longrightarrow> good ok ((snd res))"
  proof (intro impI)
    assume c: "cb' = cb" and w: "good ok w"
    show "good ok ((snd res))"
    proof (cases "a \<le> end_a")
      case True
      with run obtain found w1 where m: "match_at cb' a off n w = Some (found, w1)"
        by (auto simp: bind_eq_Some_conv)
      then have "good ok w1" using c w match_at_inv by simp
      with True run m c IH [of cb end_a off n "a + 1" w1 res] show ?thesis by (auto split: if_splits)
    qed (use run w in auto)
  qed
qed

lemma search_loop_inv:
  "search_loop cb end_a off n a w = Some res \<Longrightarrow> good ok w \<Longrightarrow> good ok ((snd res))"
  using search_loop_inv_aux by blast

lemma loop_invs:
  "write_regs_loop cb is w = Some w' \<Longrightarrow> good ok w \<Longrightarrow> good ok w'"
  "read_bytes cb a n w = (bs, w') \<Longrightarrow> good ok w \<Longrightarrow> good ok w'"
  "write_hex_loop cb a off n w = Some w' \<Longrightarrow> good ok w \<Longrightarrow> good ok w'"
  "search_loop cb end_a off n a w = Some (found, w') \<Longrightarrow> good ok w \<Longrightarrow> good ok w'"
  using write_regs_loop_inv read_bytes_inv [of w a n] write_hex_loop_inv search_loop_inv [of end_a off n a w "(found, w')"]
  by auto

text \<open>Every command handler.\<close>

lemma default_reset_inv: "good ok w \<Longrightarrow> good ok ((default_reset cb w))"
proof -
  have "good ok w \<Longrightarrow> good ok ((fold (\<lambda>i. cb_write_reg cb (int i) 0) is w))" for "is" and w
    by (induction "is" arbitrary: w) (auto simp: write_reg_inv)
  then show "good ok w \<Longrightarrow> ?thesis" by (simp add: default_reset_def set_pc_inv)
qed

lemma register_handlers_inv:
  assumes "good ok w"
  shows "keeps ok (handle_read_registers cb w)" "keeps ok (handle_write_registers cb w)"
    "keeps ok (handle_read_single_register cb w)" "keeps ok (handle_write_single_register cb w)"
  using assms
  unfolding handle_read_registers_def handle_write_registers_def handle_read_single_register_def
    handle_write_single_register_def Let_def
  by (intro keeps_rules; auto simp: reply_frames callback_invs dest: loop_invs)+

lemma memory_handlers_inv:
  assumes "good ok w"
  shows "keeps ok (handle_read_memory cb w)" "keeps ok (handle_write_memory cb w)"
    "keeps ok (handle_write_memory_binary cb w)" "keeps ok (handle_search_memory cb w)"
proof -
  have w: "good ok ((upd_buf (\<lambda>b. b[i := x]) w))" "good ok ((upd_buf (\<lambda>b. b[i := x, j := y]) w))" for i x j y
    using assms by simp_all
  show "keeps ok (handle_read_memory cb w)"
    unfolding handle_read_memory_def Let_def
    by (intro keeps_rules) (auto simp: reply_frames assms dest!: loop_invs(2))
  show "keeps ok (handle_write_memory cb w)"
    unfolding handle_write_memory_def Let_def
    by (intro keeps_rules) (auto simp: reply_frames assms dest!: loop_invs(3))
  show "keeps ok (handle_write_memory_binary cb w)"
    unfolding handle_write_memory_binary_def Let_def
    by (intro keeps_rules) (auto simp: assms intro!: reply_inv write_bytes_inv)
  show "keeps ok (handle_search_memory cb w)"
    unfolding handle_search_memory_def Let_def
    by (intro keeps_rules) (auto simp: reply_frames assms dest!: loop_invs(4))
qed

lemma control_handlers_inv:
  assumes "good ok w"
  shows "keeps ok (handle_breakpoint ins w)" "keeps ok (handle_reset cb w)" "keeps ok (handle_set_thread cb w)"
    "keeps ok (handle_thread_alive cb w)" "keeps ok (handle_halt_reason cb w)" "keeps ok (handle_general_set w)"
proof -
  have tables: "stub_inv c" if "p = (r, c)" "stub_inv (snd p)" for p :: "int \<times> 'x gdb_context" and r c
    using that by simp
  show "keeps ok (handle_breakpoint ins w)"
    unfolding handle_breakpoint_def Let_def
    by (intro keeps_rules) (auto simp: reply_frames assms good_stub_inv [OF assms] dest!: tables split: if_splits)
  have "good ok ((case cb_reset cb of Some f \<Rightarrow> f w | None \<Rightarrow> default_reset cb w))"
    using assms reset_inv default_reset_inv by (auto split: option.split)
  then show "keeps ok (handle_reset cb w)"
    unfolding handle_reset_def Let_def by (intro keeps_rules) (simp add: reply_frames)
  show "keeps ok (handle_set_thread cb w)"
    unfolding handle_set_thread_def Let_def
    by (cases "drop 1 (w_buf w)"; simp only: list.case; intro keeps_rules)
      (auto simp: reply_frames assms optional_invs)
  show "keeps ok (handle_thread_alive cb w)"
    unfolding handle_thread_alive_def Let_def by (intro keeps_rules) (auto simp: reply_frames assms)
  show "keeps ok (handle_halt_reason cb w)"
    unfolding handle_halt_reason_def Let_def
    by (intro keeps_rules) (auto simp: reply_frames assms check_breakpoint_eq split: if_splits)
  show "keeps ok (handle_general_set w)"
    unfolding handle_general_set_def by (intro keeps_rules) (auto simp: reply_frames assms)
qed

lemma handle_query_inv: "good ok w \<Longrightarrow> keeps ok (handle_query cb w)"
  unfolding handle_query_def Let_def
  by (intro keeps_rules memory_handlers_inv)
    (auto dest: plain_thread_info)

lemma handle_vcont_inv:
  "handle_vcont cb w = Some (run_cpu, w') \<Longrightarrow> good ok w \<Longrightarrow> good ok w'"
  by (auto simp: handle_vcont_def bind_eq_Some_conv reply_frames Let_def optional_invs
      split: if_splits vcont_result.splits)

lemma process_commands_inv:
  assumes "good ok w"
  shows "good ok ((process_interrupt cb w))" "good ok ((process_continue cb w))"
    "good ok ((process_step cb w))" "keeps ok (map_option snd (process_v cb w))"
proof -
  have "good ok ((call_opt (cb_halt_cpus cb) (upd_ctx (\<lambda>c. c\<lparr>should_stop := True\<rparr>) w)))"
    using assms by (intro optional_invs) simp
  then show "good ok ((process_interrupt cb w))"
    unfolding process_interrupt_def Let_def by (intro send_stop_inv) simp
  show "good ok ((process_continue cb w))" "good ok ((process_step cb w))"
    unfolding process_continue_def process_step_def using assms by (auto intro!: optional_invs)
  show "keeps ok (map_option snd (process_v cb w))"
    using assms by (auto simp: keeps_def process_v_def bind_eq_Some_conv reply_frames
        split: if_splits dest: handle_vcont_inv)
qed

lemma dispatch_keeps:
  assumes "good ok w"
  shows "keeps ok (map_option snd (dispatch cb cmd w))"
proof -
  have d: "map_option snd (done0 k) = k" for k :: "('x, 's) world option" by (cases k) simp_all
  have i: "map_option snd (if b then x else y) = (if b then map_option snd x else map_option snd y)"
    for b and x y :: "(int \<times> ('x, 's) world) option" by simp
  show ?thesis
    unfolding dispatch_def i d option.map snd_conv
    by (intro keeps_rules register_handlers_inv memory_handlers_inv control_handlers_inv handle_query_inv
        process_commands_inv assms)
      (use assms in simp_all)
qed

lemma process_inv:
  assumes "gdb_stub_process cb w = Some (r, w')" "good ok w"
    and "ok (w_sim w) (w_link w) \<Longrightarrow> ok (w_sim w) (snd (snd (receive_packet (w_stub w) (w_link w))))"
  shows "good ok w'"
proof -
  obtain r1 gs l where rp: "receive_packet (w_stub w) (w_link w) = (r1, gs, l)"
    by (cases "receive_packet (w_stub w) (w_link w)") auto
  have "length (packet_buffer gs) = 4096"
    using receive_packet_length [of "w_stub w" "w_link w"] rp good_stub_inv [OF assms(2)] by (simp add: stub_inv_def)
  then have i: "stub_inv (stub_update (\<lambda>_. gs) (w_ctx w))"
    using good_stub_inv [OF assms(2)] by (simp add: stub_inv_def bp_abs_defs wp_abs_defs)
  define w1 where "w1 = upd_ctx (stub_update (\<lambda>_. gs)) (w\<lparr>w_link := l\<rparr>)"
  have w1: "good ok w1" using i assms(2,3) by (simp add: w1_def good_def rp)
  consider "w' = w" | "w' = w1" | cmd where "dispatch cb cmd w1 = Some (r, w')"
    using assms(1) by (auto simp: gdb_stub_process_def rp Let_def w1_def split: if_splits list.splits)
  then show ?thesis
  proof cases
    case 3
    with dispatch_keeps [OF w1, of cmd] show ?thesis by (simp add: keeps_def)
  qed (use assms w1 in simp_all)
qed

end

subsection \<open>Commands with a defined execution\<close>

definition defined :: "'r option \<Rightarrow> bool" where
  "defined x = (x \<noteq> None)"

lemma defined_Some [simp]: "defined (Some x)" "\<not> defined None"
  by (simp_all add: defined_def)

text \<open>A NUL at a position of the buffer, which separators overwritten by NULs do not disturb.\<close>

definition ends_at :: "char list \<Rightarrow> nat \<Rightarrow> bool" where
  "ends_at b i = (i < length b \<and> b ! i = NUL)"

lemma ends_at_update [simp]: "ends_at b i \<Longrightarrow> ends_at (b[j := NUL]) i"
  by (cases "i = j") (simp_all add: ends_at_def)

lemma ends_at_drop:
  assumes "ends_at b i" "k \<le> i"
  shows "NUL \<in> set (drop k b)"
proof -
  have "drop k b ! (i - k) = NUL" "i - k < length (drop k b)" using assms by (auto simp: ends_at_def)
  then show ?thesis by (metis nth_mem)
qed

lemma parse_hex_ends: "ends_at b i \<Longrightarrow> k \<le> i \<Longrightarrow> defined (parse_hex (drop k b) n)"
  using parse_hex_defined [of n "drop k b"] ends_at_drop [of b i k] by (auto simp: defined_def)

lemma cstr_ends: "ends_at b i \<Longrightarrow> k \<le> i \<Longrightarrow> defined (cstr (drop k b))"
  using ends_at_drop [of b i k] by (simp add: cstr_def defined_def)

lemma decode_ends: "ends_at b i \<Longrightarrow> k \<le> i \<Longrightarrow> defined (decode_rsp_binary (drop k b) n)"
  using ends_at_drop [of b i k] decode_loop_defined [of "drop k b" n "[]"]
  by (cases "decode_rsp_binary (drop k b) n") (auto simp: decode_rsp_binary_def defined_def)

lemmas ends_updated = parse_hex_ends [OF ends_at_update] decode_ends [OF ends_at_update]
  parse_hex_ends [OF ends_at_update [OF ends_at_update]] decode_ends [OF ends_at_update [OF ends_at_update]]

text \<open>A pointer that has a string gives the position of its end.\<close>

lemma cstr_ends_at:
  assumes "cstr (drop k b) = Some s"
  shows "ends_at b (k + length s)"
proof -
  obtain r where r: "drop k b = s @ NUL # r" using assms by (rule cstr_SomeE)
  then have "length (drop k b) = length s + Suc (length r)" by simp
  then have "k + length s < length b" by simp
  moreover have "drop k b ! length s = NUL" using r by simp
  ultimately show ?thesis by (simp add: ends_at_def)
qed

lemma defined_rules:
  "defined (Some x)"
  "defined m \<Longrightarrow> (\<And>x. m = Some x \<Longrightarrow> defined (f x)) \<Longrightarrow> defined (Option.bind m f)"
  "(b \<Longrightarrow> defined r) \<Longrightarrow> (\<not> b \<Longrightarrow> defined r') \<Longrightarrow> defined (if b then r else r')"
  "(x = None \<Longrightarrow> defined r) \<Longrightarrow> (\<And>y. x = Some y \<Longrightarrow> defined (g y)) \<Longrightarrow> defined (case x of None \<Rightarrow> r | Some y \<Rightarrow> g y)"
  "(\<And>y z. p = (y, z) \<Longrightarrow> defined (h y z)) \<Longrightarrow> defined (case p of (y, z) \<Rightarrow> h y z)"
  by (auto simp: defined_def split: option.split prod.split)

lemma defined_cstr: "NUL \<in> set p \<Longrightarrow> defined (cstr p)"
  by (simp add: defined_def cstr_def)

lemma strchr_length: "strchr s c = Some i \<Longrightarrow> i < length s"
  using strchr_SomeD by blast

lemma handle_breakpoint_defined: "NUL \<in> set (drop 1 (w_buf w)) \<Longrightarrow> defined (handle_breakpoint ins w)"
  unfolding handle_breakpoint_def Let_def
  by (intro defined_rules)
    (auto simp: defined_cstr dest!: cstr_ends_at strchr_length intro: ends_updated parse_hex_ends cstr_ends)

lemma handle_write_memory_binary_defined:
  "NUL \<in> set (drop 1 (w_buf w)) \<Longrightarrow> defined (handle_write_memory_binary cb w)"
  unfolding handle_write_memory_binary_def Let_def
  by (intro defined_rules)
    (auto simp: defined_cstr dest!: cstr_ends_at strchr_length intro: decode_ends ends_updated)

lemma thread_handlers_defined:
  assumes "NUL \<in> set (drop 1 (w_buf w))"
  shows "defined (handle_set_thread cb w)" "defined (handle_thread_alive cb w)"
    "defined (handle_halt_reason cb w)" "defined (handle_reset cb w)" "defined (handle_read_single_register cb w)"
proof -
  show "defined (handle_set_thread cb w)"
  proof (cases "drop 1 (w_buf w)")
    case (Cons op t)
    show ?thesis
      using assms unfolding handle_set_thread_def Let_def Cons list.case
      by (intro defined_rules) (auto intro!: defined_cstr)
  qed (use assms in simp)
  show "defined (handle_thread_alive cb w)"
    using assms unfolding handle_thread_alive_def Let_def by (intro defined_rules) (auto intro!: defined_cstr)
  show "defined (handle_halt_reason cb w)" "defined (handle_reset cb w)"
    unfolding handle_halt_reason_def handle_reset_def Let_def by (auto split: prod.split)
  show "defined (handle_read_single_register cb w)"
    using assms unfolding handle_read_single_register_def Let_def
    by (intro defined_rules) (auto simp: defined_cstr dest!: cstr_ends_at intro!: parse_hex_ends)
qed

lemma write_regs_loop_defined:
  fixes cb :: "('x::len, 's) gdb_callbacks"
  assumes x: "xlen TYPE('x)" and f: "\<And>i v w. w_buf (cb_write_reg cb i v w) = w_buf w"
    and "length (w_buf w) = 4096" "\<forall>i \<in> set is. i < 32"
  shows "\<exists>w'. write_regs_loop cb is w = Some w' \<and> w_buf w' = w_buf w"
  using assms(3,4)
proof (induction "is" arbitrary: w)
  case (Cons i "is")
  have "reg_chars TYPE('x) \<le> length (drop (1 + i * reg_chars TYPE('x)) (w_buf w))"
    using Cons.prems x by (auto simp: xlen_def)
  then obtain v where "parse_hex_le (drop (1 + i * reg_chars TYPE('x)) (w_buf w)) (reg_chars TYPE('x)) = Some (v :: 'x word)"
    using parse_register_defined [OF x] by blast
  with Cons.IH [of "cb_write_reg cb (int i) v w"] Cons.prems show ?case by (simp add: f)
qed simp

lemma handle_write_registers_defined:
  fixes cb :: "('x::len, 's) gdb_callbacks"
  assumes x: "xlen TYPE('x)" and f: "\<And>i v w. w_buf (cb_write_reg cb i v w) = w_buf w"
    and l: "length (w_buf w) = 4096"
  shows "defined (handle_write_registers cb w)"
proof -
  obtain w' where w': "write_regs_loop cb [0..<32] w = Some w'" "w_buf w' = w_buf w"
    using write_regs_loop_defined [OF assms, of "[0..<32]"] by auto
  have "reg_chars TYPE('x) \<le> length (drop (1 + 32 * reg_chars TYPE('x)) (w_buf w'))"
    using w' l x by (auto simp: xlen_def)
  then obtain v where "parse_hex_le (drop (1 + 32 * reg_chars TYPE('x)) (w_buf w')) (reg_chars TYPE('x)) = Some (v :: 'x word)"
    using parse_register_defined [OF x] by blast
  with w' show ?thesis by (simp add: handle_write_registers_def)
qed

lemma handle_vcont_defined: "NUL \<in> set (w_buf w) \<Longrightarrow> defined (handle_vcont cb w)"
  unfolding handle_vcont_def Let_def
  by (intro defined_rules) (auto simp: defined_cstr split: vcont_result.split)

lemma dispatch_defined:
  fixes cb :: "('x::len, 's) gdb_callbacks"
  assumes x: "xlen TYPE('x)" and f: "\<And>i v w. w_buf (cb_write_reg cb i v w) = w_buf w"
    and buf: "w_buf w = cmd # p" "NUL \<in> set (w_buf w)" "length (w_buf w) = 4096"
    and cmd: "cmd \<notin> set ''mMPq''"
  shows "defined (dispatch cb cmd w)"
proof -
  have m: "defined (done0 r) = defined r" for r :: "('x, 's) world option" by (simp add: defined_def)
  have "defined (process_v cb w)"
    unfolding process_v_def by (intro defined_rules) (auto simp: defined_cstr buf(2) handle_vcont_defined)
  moreover have "defined (handle_general_set w)" "defined (handle_read_registers cb w)"
    using defined_cstr [OF buf(2)]
    by (auto simp: handle_general_set_def handle_read_registers_def defined_def)
  ultimately show ?thesis
  proof (cases "cmd = NUL")
    case False
    then have n: "NUL \<in> set (drop 1 (w_buf w))" using buf(1,2) by auto
    show ?thesis
      using cmd \<open>defined (process_v cb w)\<close> \<open>defined (handle_general_set w)\<close> \<open>defined (handle_read_registers cb w)\<close>
      by (auto simp: dispatch_def m handle_write_registers_defined [OF x f buf(3)] thread_handlers_defined [OF n]
          handle_write_memory_binary_defined [OF n] handle_breakpoint_defined [OF n])
  qed (simp add: dispatch_def)
qed

subsection \<open>From the bytes of the client to a command\<close>

text \<open>The world after a packet with data \<open>d\<close> was accepted, with \<open>rest\<close> still unread.\<close>

definition received :: "string \<Rightarrow> string \<Rightarrow> ('x::len, 's) world \<Rightarrow> ('x, 's) world" where
  "received d rest w = w
     \<lparr>w_ctx := stub_update (\<lambda>gs. (stored d gs)\<lparr>consecutive_failures := 0\<rparr>) (w_ctx w),
      w_link := (w_link w)\<lparr>rx := rest, tx := tx (w_link w) @ (if no_ack_mode (w_stub w) then '''' else ''+'')\<rparr>\<rparr>"

lemma received_simps [simp]:
  "w_sim (received d rest w) = w_sim w"
  "w_buf (received d rest w) = d @ NUL # drop (length d + 1) (w_buf w)"
  "rx (w_link (received d rest w)) = rest" "wsched (w_link (received d rest w)) = wsched (w_link w)"
  "connected (w_stub (received d rest w)) = connected (w_stub w)"
  "consecutive_failures (w_stub (received d rest w)) = 0"
  by (simp_all add: received_def stored_def)

lemma process_frame:
  assumes "connected (w_stub w)" "consecutive_failures (w_stub w) < 50" "wsched (w_link w) = []"
    and "rx (w_link w) = junk @ frame d @ rest" "CHR ''$'' \<notin> set junk" "CHR 0x03 \<notin> set junk"
    and "CHR ''#'' \<notin> set d" "length d \<le> 4095" "length (w_buf w) = 4096"
  shows "gdb_stub_process cb w = dispatch cb (if d = [] then NUL else hd d) (received d rest w)"
proof -
  have "receive_packet (w_stub w) (w_link w) = accept_packet (stored d (w_stub w)) ((w_link w)\<lparr>rx := rest\<rparr>)"
    by (rule receive_frame [OF assms(4-9)])
  then have rp: "receive_packet (w_stub w) (w_link w) =
      (0, (stored d (w_stub w))\<lparr>consecutive_failures := 0\<rparr>,
       (w_link w)\<lparr>rx := rest, tx := tx (w_link w) @ (if no_ack_mode (w_stub w) then '''' else ''+'')\<rparr>)"
    using assms(3) by (simp add: accept_packet_ok stored_def)
  have w1: "upd_ctx (stub_update (\<lambda>_. (stored d (w_stub w))\<lparr>consecutive_failures := 0\<rparr>))
      (w\<lparr>w_link := (w_link w)\<lparr>rx := rest, tx := tx (w_link w) @ (if no_ack_mode (w_stub w) then '''' else ''+'')\<rparr>\<rparr>)
    = received d rest w"
    by (simp add: received_def)
  have b: "w_buf (received d rest w) = (if d = [] then NUL else hd d) # tl (w_buf (received d rest w))"
    by (cases d) simp_all
  show ?thesis
    unfolding gdb_stub_process_def rp Let_def prod.case w1
    using assms(1,2) by (subst b) simp
qed

subsection \<open>Properties of a session\<close>

text \<open>
  C27: A well-framed packet that arrives on an open connection is acknowledged and its command,
  the first character of its data, is carried out on a world in which the packet buffer
  holds exactly that data, NUL-terminated; noise before it is skipped and what follows it
  stays unread.
\<close>

theorem framed_command_dispatched:
  assumes "connected (w_stub w)" "consecutive_failures (w_stub w) < 50" "wsched (w_link w) = []"
    and "rx (w_link w) = junk @ frame (cmd # args) @ rest" "CHR ''$'' \<notin> set junk" "CHR 0x03 \<notin> set junk"
    and "CHR ''#'' \<notin> set (cmd # args)" "length args < 4095" "length (w_buf w) = 4096"
  shows "\<exists>w1. gdb_stub_process cb w = dispatch cb cmd w1 \<and> w_sim w1 = w_sim w \<and>
    take (length args + 2) (w_buf w1) = cmd # args @ [NUL] \<and> length (w_buf w1) = 4096 \<and>
    rx (w_link w1) = rest \<and> tx (w_link w1) = tx (w_link w) @ (if no_ack_mode (w_stub w) then '''' else ''+'') \<and>
    consecutive_failures (w_stub w1) = 0 \<and>
    breakpoints (w_ctx w1) = breakpoints (w_ctx w) \<and> breakpoint_count (w_ctx w1) = breakpoint_count (w_ctx w)"
  using process_frame [OF assms(1-7) _ assms(9), of cb] assms(8,9)
  by (intro exI [of _ "received (cmd # args) rest w"]) (simp add: received_def stored_def)

lemma framed_command_dispatched_witness:
  "\<exists>w1. gdb_stub_process file_callbacks
      (w_link_update (rx_update (\<lambda>_. ''+'' @ frame (CHR ''g'' # []) @ ''x'')) (packet_world (replicate 4096 NUL) (\<lambda>_. 0 :: 32 word)))
    = dispatch file_callbacks CHR ''g'' w1 \<and> rx (w_link w1) = ''x''"
  using framed_command_dispatched [of "w_link_update (rx_update (\<lambda>_. ''+'' @ frame (CHR ''g'' # []) @ ''x''))
      (packet_world (replicate 4096 NUL) (\<lambda>_. 0 :: 32 word))" "''+''" "CHR ''g''" "[]" "''x''" file_callbacks]
  by (auto simp: packet_world_def zero_context_def)

text \<open>
  The failure limit. Every call whose packet cannot be read returns -1, counts one
  failure and leaves the target alone; an accepted packet clears the count before its command
  runs; once the count has reached 50 every call returns -1 and reads nothing.
\<close>

lemma process_failure:
  "(consecutive_failures (w_stub w) \<ge> 50 \<longrightarrow> gdb_stub_process cb w = Some (- 1, w)) \<and>
   (connected (w_stub w) \<and> consecutive_failures (w_stub w) < 50 \<and> fst (receive_packet (w_stub w) (w_link w)) \<noteq> 0 \<longrightarrow>
     (\<exists>w'. gdb_stub_process cb w = Some (- 1, w') \<and> w_sim w' = w_sim w \<and>
       consecutive_failures (w_stub w') = consecutive_failures (w_stub w) + 1 \<and> connected (w_stub w')))"
proof -
  obtain r gs l where rp: "receive_packet (w_stub w) (w_link w) = (r, gs, l)"
    by (cases "receive_packet (w_stub w) (w_link w)") auto
  have "r = 0 \<or> r = - 1 \<and> consecutive_failures gs = consecutive_failures (w_stub w) + 1"
    using receive_loop_result [of "rx (w_link w)" Wait_dollar 0 0 0 "w_stub w" "w_link w"] rp
    by (simp add: receive_packet_def)
  moreover have "connected gs = connected (w_stub w)"
    using receive_packet_connected [of "w_stub w" "w_link w"] rp by simp
  ultimately show ?thesis by (auto simp: gdb_stub_process_def rp Let_def)
qed

text \<open>
  C20: Every command other than \<open>m\<close>, \<open>M\<close>, \<open>P\<close> and \<open>q\<close> has a defined
  execution whatever its arguments are, malformed ones included: it stays within the
  packet buffer and shifts by less than a register. Needed of the target: writing a register
  leaves the packet buffer alone.
\<close>

theorem commands_defined:
  fixes cb :: "('x::len, 's) gdb_callbacks"
  assumes "xlen TYPE('x)" "\<And>i v w. w_buf (cb_write_reg cb i v w) = w_buf w"
    and "w_buf w = cmd # p" "NUL \<in> set (w_buf w)" "length (w_buf w) = 4096" "cmd \<notin> set ''mMPq''"
  shows "\<exists>r w'. dispatch cb cmd w = Some (r, w') \<and> r \<in> {- 1, 0, 1}"
proof -
  have "defined (dispatch cb cmd w)" by (rule dispatch_defined [OF assms])
  then obtain r w' where d: "dispatch cb cmd w = Some (r, w')" by (auto simp: defined_def)
  moreover have "r \<in> {- 1, 0, 1}" using d
    by (auto simp: dispatch_def process_v_def bind_eq_Some_conv split: if_splits)
  ultimately show ?thesis by blast
qed

lemma commands_defined_witness:
  "\<exists>r w'. dispatch file_callbacks CHR ''X'' (packet_world (CHR ''X'' # '',:*'' @ replicate 4092 NUL) (\<lambda>_. 0 :: 32 word)) = Some (r, w')"
  using commands_defined [of file_callbacks "packet_world (CHR ''X'' # '',:*'' @ replicate 4092 NUL) (\<lambda>_. 0 :: 32 word)"
      "CHR ''X''" "'',:*'' @ replicate 4092 NUL"]
  by (auto simp: xlen_def)

end
