(* ===== verification/Target_Memory.thy ===== *)
theory Target_Memory
  imports Cmd_Memory
begin

text \<open>
  What the memory commands promise, for any simulator whose memory callbacks satisfy the
  contract \<open>target_memory\<close>: reads see a byte per address, writes to plain memory are
  stored, and neither touches the packet buffer or the connection. The emulator's callbacks
  are shown to satisfy it in the theory of the emulator.
\<close>

subsection \<open>Ranges of memory\<close>

definition load_bytes :: "('x::len word \<Rightarrow> byte) \<Rightarrow> 'x word \<Rightarrow> nat \<Rightarrow> byte list" where
  "load_bytes m a n = map (\<lambda>i. m (a + word_of_nat i)) [0..<n]"

fun store_bytes :: "'x::len word \<Rightarrow> byte list \<Rightarrow> ('x word \<Rightarrow> byte) \<Rightarrow> 'x word \<Rightarrow> byte" where
  "store_bytes a [] m = m"
| "store_bytes a (b # bs) m = store_bytes (a + 1) bs (m(a := b))"

lemma length_load_bytes [simp]: "length (load_bytes m a n) = n"
  by (simp add: load_bytes_def)

lemma load_bytes_0 [simp]: "load_bytes m a 0 = []"
  by (simp add: load_bytes_def)

lemma load_bytes_Suc: "load_bytes m a (Suc n) = m a # load_bytes m (a + 1) n"
proof -
  have "map (\<lambda>i. m (a + word_of_nat i)) [Suc 0..<Suc n] = map (\<lambda>i. m (a + 1 + word_of_nat i)) [0..<n]"
    by (simp flip: map_Suc_upt add: add.assoc del: upt_Suc)
  then show ?thesis by (simp add: load_bytes_def upt_conv_Cons del: upt_Suc)
qed

lemma store_bytes_other:
  "(\<forall>i < length bs. c \<noteq> a + word_of_nat i) \<Longrightarrow> store_bytes a bs m c = m c"
proof (induction bs arbitrary: a m)
  case (Cons b bs)
  have "c \<noteq> a + 1 + word_of_nat i" if "i < length bs" for i
    using Cons.prems [rule_format, of "Suc i"] that by (simp add: add.assoc)
  moreover have "c \<noteq> a" using Cons.prems [rule_format, of 0] by simp
  ultimately show ?case by (simp add: Cons.IH)
qed simp

lemma word_offset_inj:
  assumes "i < 2 ^ LENGTH('x::len)" "j < 2 ^ LENGTH('x)" "(a :: 'x word) + word_of_nat i = a + word_of_nat j"
  shows "i = j"
proof -
  have "unat (word_of_nat i :: 'x word) = unat (word_of_nat j :: 'x word)"
    using add_left_imp_eq [OF assms(3)] by (rule arg_cong)
  then show ?thesis by (simp only: unat_word_of_nat_id [OF assms(1)] unat_word_of_nat_id [OF assms(2)])
qed

lemma store_bytes_cong: "m c = m' c \<Longrightarrow> store_bytes a bs m c = store_bytes a bs m' c"
proof (induction bs arbitrary: a m m')
  case (Cons b bs)
  then show ?case unfolding store_bytes.simps by (intro Cons.IH) simp
qed simp

text \<open>A range no longer than the address space holds what was stored in it.\<close>

lemma load_store_bytes:
  fixes a :: "'x::len word"
  assumes "length bs \<le> 2 ^ LENGTH('x)"
  shows "load_bytes (store_bytes a bs m) a (length bs) = bs"
  using assms
proof (induction bs arbitrary: a m)
  case (Cons b bs)
  have "a \<noteq> a + 1 + word_of_nat i" if "i < length bs" for i
  proof -
    have "Suc i < 2 ^ LENGTH('x)" using that Cons.prems by simp
    from word_offset_inj [of 0, OF _ this, of a] show ?thesis by (auto simp: add.assoc)
  qed
  then have "store_bytes (a + 1) bs (m(a := b)) a = b" by (simp add: store_bytes_other)
  with Cons show ?case by (simp add: load_bytes_Suc)
qed simp

lemma store_bytes_nth:
  fixes a :: "'x::len word"
  assumes "length bs \<le> 2 ^ LENGTH('x)"
  shows "store_bytes a bs m c = (if unat (c - a) < length bs then bs ! unat (c - a) else m c)"
proof (cases "unat (c - a) < length bs")
  case True
  then have "store_bytes a bs m c = load_bytes (store_bytes a bs m) a (length bs) ! unat (c - a)"
    by (simp add: load_bytes_def)
  with True show ?thesis by (simp add: load_store_bytes [OF assms])
next
  case False
  have "c \<noteq> a + word_of_nat i" if "i < length bs" for i
  proof
    assume "c = a + word_of_nat i"
    moreover have "unat (word_of_nat i :: 'x word) = i" using that assms by (intro unat_word_of_nat_id) simp
    ultimately show False using False that by simp
  qed
  with False show ?thesis by (simp add: store_bytes_other)
qed

subsection \<open>The contract\<close>

text \<open>The parts of the connection state that decide whether the session goes on.\<close>

abbreviation conn :: "('x::len, 's) world \<Rightarrow> bool \<times> int \<times> bool" where
  "conn w \<equiv> (connected (w_stub w), consecutive_failures (w_stub w), no_ack_mode (w_stub w))"

text \<open>A target that takes single bytes at the addresses \<open>ram\<close> and keeps the connection.\<close>

locale write_target =
  fixes cb :: "('x::len, 's) gdb_callbacks"
    and ok :: "('x, 's) world \<Rightarrow> bool"
    and ram :: "'x word \<Rightarrow> bool"
  assumes write_ok: "ok w \<Longrightarrow> ram a \<Longrightarrow> ok (cb_write_mem cb a v 1 w)"
    and write_stub: "ok w \<Longrightarrow> ram a \<Longrightarrow> w_stub (cb_write_mem cb a v 1 w) = w_stub w"
    and write_link: "ok w \<Longrightarrow> ram a \<Longrightarrow> w_link (cb_write_mem cb a v 1 w) = w_link w"
    and buf_ok: "ok (upd_buf f w) = ok w"
    and link_ok: "ok (w_link_update g w) = ok w"
begin

lemma write_buf: "ok w \<Longrightarrow> ram a \<Longrightarrow> w_buf (cb_write_mem cb a v 1 w) = w_buf w"
  by (simp add: write_stub)

lemma ram_tail:
  "\<forall>i < length (b # bs). ram (a + word_of_nat i) \<Longrightarrow> \<forall>i < length bs. ram (a + 1 + word_of_nat i)"
proof (intro allI impI)
  fix i assume "\<forall>i < length (b # bs). ram (a + word_of_nat i)" "i < length bs"
  then have "ram (a + word_of_nat (Suc i))" by (metis Suc_mono length_Cons)
  then show "ram (a + 1 + word_of_nat i)" by (simp add: add.assoc)
qed

lemma write_bytes_frame:
  assumes "ok w" "\<forall>i < length bs. ram (a + word_of_nat i)"
  shows "ok (write_bytes cb a bs w) \<and> w_stub (write_bytes cb a bs w) = w_stub w \<and>
    w_link (write_bytes cb a bs w) = w_link w"
  using assms
proof (induction bs arbitrary: a w)
  case (Cons b bs)
  have "ram a" using Cons.prems(2) [rule_format, of 0] by simp
  with Cons.IH [OF write_ok [OF Cons.prems(1)] ram_tail [OF Cons.prems(2)]] show ?case
    by (simp add: Cons.prems(1) write_stub write_link)
qed simp

text \<open>The digits of a byte sequence in the buffer are written as those bytes.\<close>

lemma write_hex_loop_image:
  assumes "ok w" "\<forall>i < length bs. ram (a + word_of_nat i)" "drop off (w_buf w) = hex_image bs @ r"
  shows "write_hex_loop cb a off (length bs) w = Some (write_bytes cb a bs w)"
  using assms
proof (induction bs arbitrary: a off w)
  case (Cons b bs)
  have a: "ram a" using Cons.prems(2) [rule_format, of 0] by simp
  have d: "drop off (w_buf w) = byte_hex b @ hex_image bs @ r" using Cons.prems(3) by simp
  then have "drop (off + 2) (w_buf w) = hex_image bs @ r"
    by (metis (no_types) append_eq_conv_conj drop_drop add.commute length_byte_hex)
  then have "write_hex_loop cb (a + 1) (off + 2) (length bs) (cb_write_mem cb a (ucast b) 1 w)
    = Some (write_bytes cb (a + 1) bs (cb_write_mem cb a (ucast b) 1 w))"
    using Cons.prems(1) a by (intro Cons.IH write_ok ram_tail [OF Cons.prems(2)]) (simp_all add: write_buf)
  then show ?case using d by (simp add: byte_hex_def)
qed simp

lemma write_packet_bytes:
  assumes "hexstr A" "hexstr N" "hex_nat N = length bs" "length bs < 2 ^ LENGTH('x)" "ok w"
    and "w_buf w = ''M'' @ A @ CHR '','' # N @ CHR '':'' # hex_image bs @ NUL # r"
    and "a = word_of_nat (hex_nat A)" "\<forall>i < length bs. ram (a + word_of_nat i)"
  shows "\<exists>f. handle_write_memory cb w = Some (reply ''OK'' (write_bytes cb a bs (upd_buf f w))) \<and>
    ok (write_bytes cb a bs (upd_buf f w)) \<and> w_link (write_bytes cb a bs (upd_buf f w)) = w_link w \<and>
    conn (write_bytes cb a bs (upd_buf f w)) = conn w"
proof -
  define w1 where "w1 = upd_buf (\<lambda>_. ''M'' @ A @ NUL # N @ NUL # hex_image bs @ NUL # r) w"
  have w1: "ok w1" "w_link w1 = w_link w" "conn w1 = conn w"
    using assms(5) by (simp_all add: w1_def buf_ok)
  have "drop (length A + length N + 3) (w_buf w1) = hex_image bs @ NUL # r"
    by (simp add: w1_def drop_two_arguments)
  then have "write_hex_loop cb a (length A + length N + 3) (length bs) w1 = Some (write_bytes cb a bs w1)"
    by (intro write_hex_loop_image w1 assms) simp_all
  then have "handle_write_memory cb w = Some (reply ''OK'' (write_bytes cb a bs w1))"
    using handle_write_memory_packet [OF assms(1,2), of "hex_image bs" w r cb, folded w1_def] assms(3,4,6,7)
    by simp
  moreover have "ok (write_bytes cb a bs w1) \<and> w_link (write_bytes cb a bs w1) = w_link w \<and>
      conn (write_bytes cb a bs w1) = conn w"
    using write_bytes_frame [OF w1(1) assms(8)] w1 by simp
  ultimately show ?thesis unfolding w1_def by blast
qed

end

text \<open>A target whose memory can also be read back.\<close>

locale target_memory = write_target cb ok ram
  for cb :: "('x::len, 's) gdb_callbacks"
    and ok :: "('x, 's) world \<Rightarrow> bool"
    and ram :: "'x word \<Rightarrow> bool" +
  fixes mem :: "('x, 's) world \<Rightarrow> 'x word \<Rightarrow> byte"
  assumes read_value: "ok w \<Longrightarrow> ucast (fst (cb_read_mem cb a 1 w) AND 0xFF) = mem w a"
    and read_mem: "ok w \<Longrightarrow> mem (snd (cb_read_mem cb a 1 w)) = mem w"
    and read_ok: "ok w \<Longrightarrow> ok (snd (cb_read_mem cb a 1 w))"
    and read_stub: "ok w \<Longrightarrow> w_stub (snd (cb_read_mem cb a 1 w)) = w_stub w"
    and read_link: "ok w \<Longrightarrow> w_link (snd (cb_read_mem cb a 1 w)) = w_link w"
    and write_mem: "ok w \<Longrightarrow> ram a \<Longrightarrow> ram c \<Longrightarrow>
      mem (cb_write_mem cb a (ucast b) 1 w) c = (if c = a then b else mem w c)"
    and buf_mem: "mem (upd_buf f w) = mem w"
    and link_mem: "mem (w_link_update g w) = mem w"
begin

lemma read_buf: "ok w \<Longrightarrow> w_buf (snd (cb_read_mem cb a 1 w)) = w_buf w"
  by (simp add: read_stub)

lemma read_bytes_load:
  "ok w \<Longrightarrow> fst (read_bytes cb a n w) = load_bytes (mem w) a n \<and>
     ok (snd (read_bytes cb a n w)) \<and> mem (snd (read_bytes cb a n w)) = mem w \<and>
     w_stub (snd (read_bytes cb a n w)) = w_stub w \<and> w_link (snd (read_bytes cb a n w)) = w_link w"
proof (induction n arbitrary: a w)
  case (Suc n)
  let ?w1 = "snd (cb_read_mem cb a 1 w)"
  from Suc.prems have "ok ?w1" by (rule read_ok)
  from Suc.IH [OF this, of "a + 1"] Suc.prems show ?case
    using read_value [of w a] read_mem [of w a] read_stub [of w a] read_link [of w a]
    by (cases "cb_read_mem cb a 1 w"; cases "read_bytes cb (a + 1) n ?w1") (simp add: load_bytes_Suc)
qed simp

lemma write_bytes_store:
  assumes "ok w" "\<forall>i < length bs. ram (a + word_of_nat i)" "ram c"
  shows "mem (write_bytes cb a bs w) c = store_bytes a bs (mem w) c"
  using assms
proof (induction bs arbitrary: a w)
  case (Cons b bs)
  let ?w1 = "cb_write_mem cb a (ucast b) 1 w"
  have a: "ram a" using Cons.prems(2) [rule_format, of 0] by simp
  have r: "\<forall>i < length bs. ram (a + 1 + word_of_nat i)" by (rule ram_tail [OF Cons.prems(2)])
  note IH = Cons.IH [OF write_ok [OF Cons.prems(1) a] r Cons.prems(3)]
  have agree: "store_bytes (a + 1) bs m c = store_bytes (a + 1) bs m' c" if "m c = m' c" for m m'
    using that by (rule store_bytes_cong)
  show ?case
    using IH agree [of "mem ?w1" "(mem w)(a := b)"] write_mem [OF Cons.prems(1) a Cons.prems(3), of b]
    by simp
qed simp

text \<open>The three memory packets.\<close>

lemma read_packet:
  assumes "xlen TYPE('x)" "hexstr A" "hexstr N" "hex_nat N < 2048" "ok w"
    and "w_buf w = ''m'' @ A @ CHR '','' # N @ NUL # r"
  shows "\<exists>w'. handle_read_memory cb w =
      Some (reply (hex_image (load_bytes (mem w) (word_of_nat (hex_nat A)) (hex_nat N))) w') \<and>
    ok w' \<and> mem w' = mem w \<and> w_link w' = w_link w \<and> conn w' = conn w"
proof -
  define w1 where "w1 = upd_buf (\<lambda>_. ''m'' @ A @ NUL # N @ NUL # r) w"
  have "(2 :: nat) ^ 32 \<le> 2 ^ LENGTH('x)" using xlenD(4) [OF assms(1)] by (intro power_increasing) auto
  then have "hex_nat N < 2 ^ LENGTH('x)" using assms(4) by simp
  note p = handle_read_memory_packet [OF assms(1-3) this assms(6), of cb, folded w1_def]
  have "ok w1" "mem w1 = mem w" "w_link w1 = w_link w" "conn w1 = conn w" using assms(5) by (simp_all add: w1_def buf_ok buf_mem)
  with read_bytes_load [of w1 "word_of_nat (hex_nat A)" "hex_nat N"] p assms(4) show ?thesis
    by (cases "read_bytes cb (word_of_nat (hex_nat A)) (hex_nat N) w1") (auto simp: hex_image_def)
qed

lemma write_packet:
  assumes "hexstr A" "hexstr N" "hex_nat N = length bs" "length bs < 2 ^ LENGTH('x)" "ok w"
    and "w_buf w = ''M'' @ A @ CHR '','' # N @ CHR '':'' # hex_image bs @ NUL # r"
    and "a = word_of_nat (hex_nat A)" "\<forall>i < length bs. ram (a + word_of_nat i)"
  shows "\<exists>w'. handle_write_memory cb w = Some (reply ''OK'' w') \<and> ok w' \<and> w_link w' = w_link w \<and> conn w' = conn w \<and>
    (\<forall>c. ram c \<longrightarrow> mem w' c = store_bytes a bs (mem w) c)"
proof -
  obtain f where f: "handle_write_memory cb w = Some (reply ''OK'' (write_bytes cb a bs (upd_buf f w)))"
    "ok (write_bytes cb a bs (upd_buf f w))" "w_link (write_bytes cb a bs (upd_buf f w)) = w_link w"
    "conn (write_bytes cb a bs (upd_buf f w)) = conn w"
    using write_packet_bytes [OF assms] by blast
  have "ok (upd_buf f w)" using assms(5) by (simp add: buf_ok)
  from write_bytes_store [OF this assms(8)] f show ?thesis by (auto simp: buf_mem)
qed

lemma binary_packet:
  assumes "hexstr A" "hexstr N" "hex_nat N = length bs" "bs \<noteq> []" "length bs \<le> 4096" "0 \<notin> set bs"
    and "32 \<le> LENGTH('x)" "ok w"
    and "w_buf w = ''X'' @ A @ CHR '','' # N @ CHR '':'' # rsp_escape bs @ NUL # r"
    and "a = word_of_nat (hex_nat A)" "\<forall>i < length bs. ram (a + word_of_nat i)"
  shows "\<exists>w'. handle_write_memory_binary cb w = Some (reply ''OK'' w') \<and> ok w' \<and> w_link w' = w_link w \<and> conn w' = conn w \<and>
    (\<forall>c. ram c \<longrightarrow> mem w' c = store_bytes a bs (mem w) c)"
proof -
  define w1 where "w1 = upd_buf (\<lambda>_. ''X'' @ A @ NUL # N @ NUL # rsp_escape bs @ NUL # r) w"
  have w1: "ok w1" "mem w1 = mem w" "w_link w1 = w_link w" "conn w1 = conn w"
    using assms(8) by (simp_all add: w1_def buf_ok buf_mem)
  have "decode_rsp_binary (rsp_escape bs @ NUL # r) (length bs) = Some (0, bs)"
    using assms(6) by (simp add: decode_rsp_binary_def decode_loop_escaped) (simp add: decode_loop.simps)
  moreover have "hex_nat N < 2 ^ 32" using assms(3,5) by simp
  ultimately have "handle_write_memory_binary cb w = Some (reply ''OK'' (write_bytes cb a bs w1))"
    using handle_write_memory_binary_packet [OF assms(1,2) _ assms(7) rsp_escape_no_NUL [OF assms(6)] assms(9), of cb, folded w1_def]
      assms(3,4,5,10) by simp
  moreover have "mem (write_bytes cb a bs w1) c = store_bytes a bs (mem w) c" if "ram c" for c
    using write_bytes_store [OF w1(1) assms(11) that] w1 by simp
  moreover have "ok (write_bytes cb a bs w1) \<and> w_link (write_bytes cb a bs w1) = w_link w \<and>
      conn (write_bytes cb a bs w1) = conn w"
    using write_bytes_frame [OF w1(1) assms(11)] w1 by simp
  ultimately show ?thesis by blast
qed

end

subsection \<open>Searching\<close>

context target_memory
begin

text \<open>
  A world in the middle of a search: nothing the search depends on has changed since
  \<open>w\<close>, and the pattern is at its place in the buffer.
\<close>

definition same_view :: "('x, 's) world \<Rightarrow> ('x, 's) world \<Rightarrow> bool" where
  "same_view w w' = (ok w' \<and> mem w' = mem w \<and> w_stub w' = w_stub w \<and> w_link w' = w_link w)"

lemma same_view_refl: "ok w \<Longrightarrow> same_view w w"
  by (simp add: same_view_def)

lemma same_view_trans: "same_view w u \<Longrightarrow> same_view u v \<Longrightarrow> same_view w v"
  by (simp add: same_view_def)

lemma match_at_result:
  assumes "ok w" "drop off (w_buf w) = hex_image pat @ r"
  shows "\<exists>w'. match_at cb a off (length pat) w = Some (load_bytes (mem w) a (length pat) = pat, w') \<and>
    same_view w w'"
  using assms
proof (induction pat arbitrary: a off w)
  case Nil
  then show ?case by (simp add: same_view_refl)
next
  case (Cons b pat)
  obtain v w1 where rd: "cb_read_mem cb a 1 w = (v, w1)" by fastforce
  have w1: "same_view w w1" "ucast (v AND 0xFF) = mem w a"
    using read_value [OF Cons.prems(1), of a] read_mem [OF Cons.prems(1), of a]
      read_ok [OF Cons.prems(1), of a] read_stub [OF Cons.prems(1), of a] read_link [OF Cons.prems(1), of a]
    by (simp_all add: rd same_view_def)
  have d: "drop off (w_buf w) = byte_hex b @ hex_image pat @ r" using Cons.prems(2) by simp
  then have "drop (off + 2) (w_buf w1) = hex_image pat @ r"
    using w1(1) by (metis (no_types) append_eq_conv_conj drop_drop add.commute length_byte_hex same_view_def)
  with Cons.IH [of w1 "off + 2" "a + 1"] w1(1)
  obtain w2 where "match_at cb (a + 1) (off + 2) (length pat) w1
      = Some (load_bytes (mem w) (a + 1) (length pat) = pat, w2)" "same_view w w2"
    using same_view_trans by (auto simp: same_view_def)
  with d rd w1 show ?case by (auto simp: byte_hex_def load_bytes_Suc)
qed

lemma search_step:
  assumes "ok w" "drop off (w_buf w) = hex_image pat @ r" "a \<le> end_a"
  shows "\<exists>w'. same_view w w' \<and> search_loop cb end_a off (length pat) a w =
    (if load_bytes (mem w) a (length pat) = pat then Some (Some a, w')
     else search_loop cb end_a off (length pat) (a + 1) w')"
  using match_at_result [OF assms(1,2), of a] assms(3) by (subst search_loop.simps) auto

text \<open>The first match at or after the start is found.\<close>

lemma search_found:
  assumes "ok w" "drop off (w_buf w) = hex_image pat @ r"
    and "unat a + k \<le> unat end_a" "load_bytes (mem w) (a + word_of_nat k) (length pat) = pat"
    and "\<forall>j < k. load_bytes (mem w) (a + word_of_nat j) (length pat) \<noteq> pat"
  shows "\<exists>w'. search_loop cb end_a off (length pat) a w = Some (Some (a + word_of_nat k), w') \<and> same_view w w'"
  using assms
proof (induction k arbitrary: a w)
  case 0
  then have "a \<le> end_a" by (simp add: word_le_nat_alt)
  from search_step [OF 0(1,2) this] 0(4) show ?case by auto
next
  case (Suc k)
  have "a \<le> end_a" using Suc.prems(3) by (simp add: word_le_nat_alt)
  moreover have "load_bytes (mem w) a (length pat) \<noteq> pat" using Suc.prems(5) [rule_format, of 0] by simp
  ultimately obtain w1 where w1: "same_view w w1"
    "search_loop cb end_a off (length pat) a w = search_loop cb end_a off (length pat) (a + 1) w1"
    using search_step [OF Suc.prems(1,2)] by metis
  have "unat end_a < 2 ^ LENGTH('x)" by (rule unsigned_less)
  then have "unat a + 1 < 2 ^ LENGTH('x)" using Suc.prems(3) by linarith
  then have "unat (a + 1) = unat a + 1" by (simp add: unat_word_ariths(1))
  then have "unat (a + 1) + k \<le> unat end_a" using Suc.prems(3) by simp
  moreover have "load_bytes (mem w1) (a + 1 + word_of_nat j) (length pat) =
      load_bytes (mem w) (a + word_of_nat (Suc j)) (length pat)" for j
    using w1(1) by (simp add: same_view_def add.assoc)
  moreover have "ok w1" "drop off (w_buf w1) = hex_image pat @ r"
    using w1(1) Suc.prems(2) by (simp_all add: same_view_def)
  ultimately obtain w' where "search_loop cb end_a off (length pat) (a + 1) w1 =
      Some (Some (a + 1 + word_of_nat k), w')" "same_view w1 w'"
    using Suc.IH [of w1 "a + 1"] Suc.prems(4,5) by (metis Suc_less_eq)
  then show ?case using w1 same_view_trans by (auto simp: add.assoc)
qed

text \<open>Without a match the search ends, provided the last address is not the greatest of all.\<close>

lemma search_not_found:
  assumes "ok w" "drop off (w_buf w) = hex_image pat @ r" "unat end_a + 1 < 2 ^ LENGTH('x)"
    and "\<forall>c. a \<le> c \<and> c \<le> end_a \<longrightarrow> load_bytes (mem w) c (length pat) \<noteq> pat"
  shows "\<exists>w'. search_loop cb end_a off (length pat) a w = Some (None, w') \<and> same_view w w'"
  using assms
proof (induction "unat end_a + 1 - unat a" arbitrary: a w)
  case 0
  then have "\<not> a \<le> end_a" by (simp add: word_le_nat_alt)
  then show ?case using 0(2) by (subst search_loop.simps) (simp add: same_view_refl)
next
  case (Suc n)
  then have le: "a \<le> end_a" by (simp add: word_le_nat_alt)
  then obtain w1 where w1: "same_view w w1"
    "search_loop cb end_a off (length pat) a w = search_loop cb end_a off (length pat) (a + 1) w1"
    using search_step [OF Suc.prems(1,2)] Suc.prems(4) by (metis order_refl)
  have "unat a + 1 < 2 ^ LENGTH('x)" using le Suc.prems(3) by (simp add: word_le_nat_alt)
  then have a1: "unat (a + 1) = unat a + 1" by (simp add: unat_word_ariths(1))
  have "\<forall>c. a + 1 \<le> c \<and> c \<le> end_a \<longrightarrow> load_bytes (mem w1) c (length pat) \<noteq> pat"
    using Suc.prems(4) w1(1) a1 by (auto simp: same_view_def word_le_nat_alt)
  moreover have "n = unat end_a + 1 - unat (a + 1)" using Suc.hyps(2) a1 by simp
  ultimately obtain w' where "search_loop cb end_a off (length pat) (a + 1) w1 = Some (None, w')" "same_view w1 w'"
    using Suc.hyps(1) [of "a + 1" w1] Suc.prems(2,3) w1(1) by (metis same_view_def)
  then show ?case using w1 same_view_trans by auto
qed

text \<open>The loop finds the first of the places at which the pattern lies in the range.\<close>

lemma search_hits:
  assumes "ok w1" "drop off (w_buf w1) = hex_image pat @ r"
    and "0 < length pat" "length pat \<le> unat len" "unat a + unat len < 2 ^ LENGTH('x)"
  defines "hits \<equiv> {k. k + length pat \<le> unat len \<and> load_bytes (mem w1) (a + word_of_nat k) (length pat) = pat}"
  shows "\<exists>w2. same_view w1 w2 \<and> search_loop cb (a + len - word_of_nat (length pat)) off (length pat) a w1 =
    Some (if hits = {} then None else Some (a + word_of_nat (Min hits)), w2)"
proof -
  define e where "e = a + len - word_of_nat (length pat)"
  have "e = word_of_nat (unat a + unat len - length pat)"
    using assms(4) by (simp add: e_def of_nat_diff)
  then have ue: "unat e = unat a + unat len - length pat"
    using assms(5) by (simp add: unsigned_of_nat take_bit_nat_eq_self)
  have fin: "finite hits" by (rule finite_subset [of _ "{..unat len}"]) (auto simp: hits_def)
  show ?thesis
  proof (cases "hits = {}")
    case False
    define k where "k = Min hits"
    have k: "k \<in> hits" "\<And>j. j < k \<Longrightarrow> j \<notin> hits"
      using Min_in [OF fin False] Min_le [OF fin] by (auto simp: k_def not_le [symmetric])
    then have k1: "unat a + k \<le> unat e" "load_bytes (mem w1) (a + word_of_nat k) (length pat) = pat"
      using ue by (auto simp: hits_def)
    have "\<forall>j < k. load_bytes (mem w1) (a + word_of_nat j) (length pat) \<noteq> pat"
      using k by (auto simp: hits_def)
    from search_found [OF assms(1,2) k1 this] show ?thesis using False by (auto simp: e_def k_def)
  next
    case True
    have no_match: "load_bytes (mem w1) c (length pat) \<noteq> pat" if c: "a \<le> c" "c \<le> e" for c
    proof -
      have "c = a + word_of_nat (unat c - unat a)" using c(1) by (simp add: word_le_nat_alt of_nat_diff)
      moreover have "unat c - unat a + length pat \<le> unat len" using c ue assms(4) by (simp add: word_le_nat_alt)
      ultimately show ?thesis using True unfolding hits_def by (metis (mono_tags, lifting) empty_iff mem_Collect_eq)
    qed
    have "unat e + 1 < 2 ^ LENGTH('x)" using assms(3-5) unfolding ue by linarith
    then show ?thesis
      using search_not_found [OF assms(1,2), of e a] no_match True by (auto simp: e_def)
  qed
qed

text \<open>
  With the greatest address as its last one the search has no last address: without a match
  anywhere it never ends.
\<close>

lemma search_diverges_aux:
  assumes "search_loop cb' end_a off n a w = Some res"
  shows "cb' = cb \<longrightarrow> end_a = - 1 \<longrightarrow> n = length pat \<longrightarrow> ok w \<longrightarrow> drop off (w_buf w) = hex_image pat @ r \<longrightarrow>
    (\<forall>c. load_bytes (mem w) c (length pat) \<noteq> pat) \<longrightarrow> False"
proof (rule search_loop.raw_induct [OF _ assms])
  fix f cb' end_a off n a w res
  assume IH: "\<And>cb' end_a off n a w res. f cb' end_a off n a w = Some res \<Longrightarrow>
      cb' = cb \<longrightarrow> end_a = - 1 \<longrightarrow> n = length pat \<longrightarrow> ok w \<longrightarrow> drop off (w_buf w) = hex_image pat @ r \<longrightarrow>
      (\<forall>c. load_bytes (mem w) c (length pat) \<noteq> pat) \<longrightarrow> False"
    and run: "(if a \<le> end_a then do {
        (found, w1) \<leftarrow> match_at cb' a off n w;
        if found then Some (Some a, w1) else f cb' end_a off n (a + 1) w1 }
      else Some (None, w)) = Some res"
  show "cb' = cb \<longrightarrow> end_a = - 1 \<longrightarrow> n = length pat \<longrightarrow> ok w \<longrightarrow> drop off (w_buf w) = hex_image pat @ r \<longrightarrow>
      (\<forall>c. load_bytes (mem w) c (length pat) \<noteq> pat) \<longrightarrow> False"
  proof (intro impI)
    assume c: "cb' = cb" "end_a = - 1" "n = length pat" and w: "ok w" "drop off (w_buf w) = hex_image pat @ r"
      and no: "\<forall>c. load_bytes (mem w) c (length pat) \<noteq> pat"
    obtain w1 where "match_at cb a off n w = Some (False, w1)" "same_view w w1"
      using match_at_result [OF w, of a] no c(3) by auto
    with run c have "f cb' end_a off n (a + 1) w1 = Some res" by simp
    from IH [OF this] \<open>same_view w w1\<close> c w no show False by (auto simp: same_view_def)
  qed
qed

lemma search_diverges:
  assumes "ok w" "drop off (w_buf w) = hex_image pat @ r"
    and "\<forall>c. load_bytes (mem w) c (length pat) \<noteq> pat"
  shows "search_loop cb (- 1) off (length pat) a w = None"
  using search_diverges_aux [of cb "- 1" off "length pat" a w _ pat r] assms
  by (cases "search_loop cb (- 1) off (length pat) a w") auto

end

end
