(* ===== verification/RV32_Cpu.thy ===== *)
theory RV32_Cpu
  imports Stub_Prelude
begin

text \<open>
  The RV32I processor of src/emu/rv32_cpu.c. A machine is its harts, what was written to
  standard output, by the serial port and by the messages of the code, and an environment that only the watchpoint hooks use. A hart refers to
  another one by its index: \<open>shared_ram = Some k\<close> is a pointer to the memory array of
  hart \<open>k\<close>, \<open>watchpoint_ctx\<close> the hart handed to the hooks. Multi-byte accesses are
  little-endian, as on the hosts the program is built for. Messages on stderr are not
  modelled.
\<close>

subsection \<open>State\<close>

abbreviation (input) RAM_SIZE :: "32 word" where "RAM_SIZE \<equiv> 0x10000"
abbreviation (input) RAM_BASE :: "32 word" where "RAM_BASE \<equiv> 0x80000000"
abbreviation (input) UART_BASE :: "32 word" where "UART_BASE \<equiv> 0x10000000"

type_synonym 'e check_fn = "int \<Rightarrow> 32 word \<Rightarrow> 32 word \<Rightarrow> 'e \<Rightarrow> bool \<times> 'e"

record 'e rv32_cpu =
  regs :: "nat \<Rightarrow> 32 word"
  pc :: "32 word"
  memory :: "nat \<Rightarrow> byte"
  shared_ram :: "nat option"
  hart_id :: int
  running :: bool
  single_step_mode :: bool
  halted :: bool
  instruction_count :: "64 word"
  watchpoint_ctx :: nat
  check_watchpoint_read :: "'e check_fn option"
  check_watchpoint_write :: "'e check_fn option"

record 'e mach =
  harts :: "nat \<Rightarrow> 'e rv32_cpu"
  stdout :: string
  env :: 'e

definition upd_hart :: "nat \<Rightarrow> ('e rv32_cpu \<Rightarrow> 'e rv32_cpu) \<Rightarrow> 'e mach \<Rightarrow> 'e mach" where
  "upd_hart h f m = m\<lparr>harts := (harts m)(h := f (harts m h))\<rparr>"

definition put_text :: "string \<Rightarrow> 'e mach \<Rightarrow> 'e mach" where
  "put_text s m = m\<lparr>stdout := stdout m @ s\<rparr>"

text \<open>The hart whose memory array is used, and an update of that array.\<close>

definition rv32_cpu_ram :: "nat \<Rightarrow> 'e mach \<Rightarrow> nat" where
  "rv32_cpu_ram h m = (case shared_ram (harts m h) of Some k \<Rightarrow> k | None \<Rightarrow> h)"

abbreviation ram_of :: "nat \<Rightarrow> 'e mach \<Rightarrow> nat \<Rightarrow> byte" where
  "ram_of h m \<equiv> memory (harts m (rv32_cpu_ram h m))"

definition set_ram :: "nat \<Rightarrow> (nat \<Rightarrow> byte) \<Rightarrow> 'e mach \<Rightarrow> 'e mach" where
  "set_ram h r m = upd_hart (rv32_cpu_ram h m) (memory_update (\<lambda>_. r)) m"

definition rv32_cpu_init :: "'e rv32_cpu" where
  "rv32_cpu_init = \<lparr>regs = (\<lambda>_. 0)(2 := RAM_BASE + RAM_SIZE - 4), pc = RAM_BASE, memory = \<lambda>_. 0,
     shared_ram = None, hart_id = 0, running = True, single_step_mode = False, halted = False,
     instruction_count = 0, watchpoint_ctx = 0, check_watchpoint_read = None,
     check_watchpoint_write = None\<rparr>"

definition rv32_cpu_reset :: "'e rv32_cpu \<Rightarrow> 'e rv32_cpu" where
  "rv32_cpu_reset cpu = cpu
     \<lparr>regs := (\<lambda>_. 0)(2 := RAM_BASE + RAM_SIZE - 4, 4 := word_of_int (hart_id cpu)),
      pc := RAM_BASE, running := True, halted := False, single_step_mode := False,
      instruction_count := 0\<rparr>"

subsection \<open>Memory\<close>

text \<open>Little-endian access to an array of bytes.\<close>

definition le16 :: "(nat \<Rightarrow> byte) \<Rightarrow> nat \<Rightarrow> 32 word" where
  "le16 r i = ucast (r i) OR push_bit 8 (ucast (r (i + 1)))"

definition le32 :: "(nat \<Rightarrow> byte) \<Rightarrow> nat \<Rightarrow> 32 word" where
  "le32 r i = ucast (r i) OR push_bit 8 (ucast (r (i + 1))) OR push_bit 16 (ucast (r (i + 2)))
     OR push_bit 24 (ucast (r (i + 3)))"

definition put16 :: "nat \<Rightarrow> 32 word \<Rightarrow> (nat \<Rightarrow> byte) \<Rightarrow> nat \<Rightarrow> byte" where
  "put16 i v r = r(i := ucast v, i + 1 := ucast (drop_bit 8 v))"

definition put32 :: "nat \<Rightarrow> 32 word \<Rightarrow> (nat \<Rightarrow> byte) \<Rightarrow> nat \<Rightarrow> byte" where
  "put32 i v r = r(i := ucast v, i + 1 := ucast (drop_bit 8 v), i + 2 := ucast (drop_bit 16 v),
     i + 3 := ucast (drop_bit 24 v))"

definition in_ram :: "32 word \<Rightarrow> int \<Rightarrow> bool" where
  "in_ram addr sz = (addr \<ge> RAM_BASE \<and> addr < RAM_BASE + RAM_SIZE - word_of_int sz + 1)"

text \<open>The hook of a hart, if one is installed; a hit halts the hart.\<close>

definition call_check :: "'e check_fn option \<Rightarrow> nat \<Rightarrow> 32 word \<Rightarrow> int \<Rightarrow> 'e mach \<Rightarrow> 'e mach" where
  "call_check f h addr sz m =
     (case f of None \<Rightarrow> m
      | Some check \<Rightarrow>
          let (hit, e) = check (hart_id (harts m (watchpoint_ctx (harts m h)))) addr (word_of_int sz) (env m);
              m1 = m\<lparr>env := e\<rparr>
          in if hit then upd_hart h (halted_update (\<lambda>_. True)) m1 else m1)"

definition rv32_cpu_read_mem :: "nat \<Rightarrow> 32 word \<Rightarrow> int \<Rightarrow> 'e mach \<Rightarrow> 32 word \<times> 'e mach" where
  "rv32_cpu_read_mem h addr sz m =
     (let m1 = call_check (check_watchpoint_read (harts m h)) h addr sz m in
      if in_ram addr sz then
        let off = unat (addr - RAM_BASE); ram = ram_of h m1 in
        (if sz = 1 then ucast (ram off) else if sz = 2 then le16 ram off
         else if sz = 4 then le32 ram off else 0, m1)
      else (0, m1))"

definition rv32_cpu_write_mem :: "nat \<Rightarrow> 32 word \<Rightarrow> 32 word \<Rightarrow> int \<Rightarrow> 'e mach \<Rightarrow> 'e mach" where
  "rv32_cpu_write_mem h addr v sz m =
     (let m1 = call_check (check_watchpoint_write (harts m h)) h addr sz m in
      if in_ram addr sz then
        let off = unat (addr - RAM_BASE); ram = ram_of h m1 in
        (if sz = 1 then set_ram h (ram(off := ucast (v AND 0xFF))) m1
         else if sz = 2 then set_ram h (put16 off (v AND 0xFFFF) ram) m1
         else if sz = 4 then set_ram h (put32 off v ram) m1 else m1)
      else if addr = UART_BASE then
        (if sz = 1 then put_text [ch (ucast (v AND 0xFF))] m1 else m1)
      else m1)"

subsection \<open>Registers\<close>

definition rv32_cpu_read_reg :: "'e rv32_cpu \<Rightarrow> int \<Rightarrow> 32 word" where
  "rv32_cpu_read_reg cpu reg =
     (if reg = 0 then 0 else if reg < 0 \<or> reg \<ge> 32 then 0 else regs cpu (nat reg))"

definition rv32_cpu_write_reg :: "int \<Rightarrow> 32 word \<Rightarrow> 'e rv32_cpu \<Rightarrow> 'e rv32_cpu" where
  "rv32_cpu_write_reg reg v cpu =
     (if reg = 0 then cpu else if reg < 0 \<or> reg \<ge> 32 then cpu
      else cpu\<lparr>regs := (regs cpu)(nat reg := v)\<rparr>)"

definition sign_extend :: "32 word \<Rightarrow> nat \<Rightarrow> 32 word" where
  "sign_extend v bits =
     (if v AND push_bit (bits - 1) 1 \<noteq> 0 then v OR NOT (push_bit bits 1 - 1) else v)"

subsection \<open>One instruction\<close>

text \<open>The fields of an instruction.\<close>

definition f_rd :: "32 word \<Rightarrow> int" where "f_rd i = uint (drop_bit 7 i AND 0x1F)"
definition f_rs1 :: "32 word \<Rightarrow> int" where "f_rs1 i = uint (drop_bit 15 i AND 0x1F)"
definition f_rs2 :: "32 word \<Rightarrow> int" where "f_rs2 i = uint (drop_bit 20 i AND 0x1F)"
definition f_funct3 :: "32 word \<Rightarrow> 32 word" where "f_funct3 i = drop_bit 12 i AND 0x7"
definition f_funct7 :: "32 word \<Rightarrow> 32 word" where "f_funct7 i = drop_bit 25 i AND 0x7F"
definition f_imm12 :: "32 word \<Rightarrow> 32 word" where "f_imm12 i = drop_bit 20 i AND 0xFFF"

abbreviation get_reg :: "nat \<Rightarrow> int \<Rightarrow> 'e mach \<Rightarrow> 32 word" where
  "get_reg h r m \<equiv> rv32_cpu_read_reg (harts m h) r"

abbreviation set_reg :: "nat \<Rightarrow> int \<Rightarrow> 32 word \<Rightarrow> 'e mach \<Rightarrow> 'e mach" where
  "set_reg h r v m \<equiv> upd_hart h (rv32_cpu_write_reg r v) m"

abbreviation set_pc :: "nat \<Rightarrow> 32 word \<Rightarrow> 'e mach \<Rightarrow> 'e mach" where
  "set_pc h v m \<equiv> upd_hart h (pc_update (\<lambda>_. v)) m"

definition imm_jal :: "32 word \<Rightarrow> 32 word" where
  "imm_jal i = push_bit 20 (drop_bit 31 i) OR push_bit 12 (drop_bit 12 i AND 0xFF) OR
     push_bit 11 (drop_bit 20 i AND 0x1) OR push_bit 1 (drop_bit 21 i AND 0x3FF)"

definition imm_branch :: "32 word \<Rightarrow> 32 word" where
  "imm_branch i = push_bit 12 (drop_bit 31 i) OR push_bit 11 (drop_bit 7 i AND 0x1) OR
     push_bit 5 (drop_bit 25 i AND 0x3F) OR push_bit 1 (drop_bit 8 i AND 0xF)"

definition imm_store :: "32 word \<Rightarrow> 32 word" where
  "imm_store i = push_bit 5 (drop_bit 25 i) OR (drop_bit 7 i AND 0x1F)"

definition exec_jal :: "nat \<Rightarrow> 32 word \<Rightarrow> 32 word \<Rightarrow> 'e mach \<Rightarrow> 'e mach" where
  "exec_jal h i current_pc m =
     (let offset = sign_extend (imm_jal i) 21 in
      set_pc h (current_pc + offset) (set_reg h (f_rd i) (pc (harts m h)) m))"

definition exec_jalr :: "nat \<Rightarrow> 32 word \<Rightarrow> 'e mach \<Rightarrow> 'e mach" where
  "exec_jalr h i m =
     (let offset = sign_extend (f_imm12 i) 12;
          target = (get_reg h (f_rs1 i) m + offset) AND NOT 1
      in set_pc h target (set_reg h (f_rd i) (pc (harts m h)) m))"

definition branch_taken :: "32 word \<Rightarrow> 32 word \<Rightarrow> 32 word \<Rightarrow> bool" where
  "branch_taken funct3 val1 val2 =
     (if funct3 = 0 then val1 = val2
      else if funct3 = 1 then val1 \<noteq> val2
      else if funct3 = 4 then sint val1 < sint val2
      else if funct3 = 5 then sint val1 \<ge> sint val2
      else if funct3 = 6 then val1 < val2
      else if funct3 = 7 then val1 \<ge> val2
      else False)"

definition exec_branch :: "nat \<Rightarrow> 32 word \<Rightarrow> 32 word \<Rightarrow> 'e mach \<Rightarrow> 'e mach" where
  "exec_branch h i current_pc m =
     (let offset = sign_extend (imm_branch i) 13 in
      if branch_taken (f_funct3 i) (get_reg h (f_rs1 i) m) (get_reg h (f_rs2 i) m)
      then set_pc h (current_pc + offset) m else m)"

definition exec_load :: "nat \<Rightarrow> 32 word \<Rightarrow> 'e mach \<Rightarrow> 'e mach" where
  "exec_load h i m =
     (let addr = get_reg h (f_rs1 i) m + sign_extend (f_imm12 i) 12;
          (v, m1) =
            (if f_funct3 i = 0 then let (v, m1) = rv32_cpu_read_mem h addr 1 m in (sign_extend v 8, m1)
             else if f_funct3 i = 1 then let (v, m1) = rv32_cpu_read_mem h addr 2 m in (sign_extend v 16, m1)
             else if f_funct3 i = 2 then rv32_cpu_read_mem h addr 4 m
             else if f_funct3 i = 4 then let (v, m1) = rv32_cpu_read_mem h addr 1 m in (v AND 0xFF, m1)
             else if f_funct3 i = 5 then let (v, m1) = rv32_cpu_read_mem h addr 2 m in (v AND 0xFFFF, m1)
             else (0, m))
      in set_reg h (f_rd i) v m1)"

definition exec_store :: "nat \<Rightarrow> 32 word \<Rightarrow> 'e mach \<Rightarrow> 'e mach" where
  "exec_store h i m =
     (let addr = get_reg h (f_rs1 i) m + sign_extend (imm_store i) 12;
          v = get_reg h (f_rs2 i) m
      in if f_funct3 i = 0 then rv32_cpu_write_mem h addr v 1 m
         else if f_funct3 i = 1 then rv32_cpu_write_mem h addr v 2 m
         else if f_funct3 i = 2 then rv32_cpu_write_mem h addr v 4 m
         else m)"

text \<open>Arithmetic, with an immediate and with a register.\<close>

definition alu_imm :: "32 word \<Rightarrow> 32 word \<Rightarrow> 32 word \<Rightarrow> 32 word" where
  "alu_imm funct3 val1 imm =
     (let imm_val = sign_extend imm 12 in
      if funct3 = 0 then val1 + imm_val
      else if funct3 = 2 then (if sint val1 < sint imm_val then 1 else 0)
      else if funct3 = 3 then (if val1 < imm_val then 1 else 0)
      else if funct3 = 4 then val1 XOR imm_val
      else if funct3 = 6 then val1 OR imm_val
      else if funct3 = 7 then val1 AND imm_val
      else if funct3 = 1 then push_bit (unat (imm AND 0x1F)) val1
      else if imm AND 0x400 \<noteq> 0 then signed_drop_bit (unat (imm AND 0x1F)) val1
      else drop_bit (unat (imm AND 0x1F)) val1)"

definition alu_reg :: "32 word \<Rightarrow> 32 word \<Rightarrow> 32 word \<Rightarrow> 32 word \<Rightarrow> 32 word" where
  "alu_reg funct3 funct7 val1 val2 =
     (if funct3 = 0 then (if funct7 = 0x20 then val1 - val2 else val1 + val2)
      else if funct3 = 1 then push_bit (unat (val2 AND 0x1F)) val1
      else if funct3 = 2 then (if sint val1 < sint val2 then 1 else 0)
      else if funct3 = 3 then (if val1 < val2 then 1 else 0)
      else if funct3 = 4 then val1 XOR val2
      else if funct3 = 5 then
        (if funct7 = 0x20 then signed_drop_bit (unat (val2 AND 0x1F)) val1
         else drop_bit (unat (val2 AND 0x1F)) val1)
      else if funct3 = 6 then val1 OR val2
      else val1 AND val2)"

definition exec_op_imm :: "nat \<Rightarrow> 32 word \<Rightarrow> 'e mach \<Rightarrow> 'e mach" where
  "exec_op_imm h i m =
     set_reg h (f_rd i) (alu_imm (f_funct3 i) (get_reg h (f_rs1 i) m) (f_imm12 i)) m"

definition exec_op :: "nat \<Rightarrow> 32 word \<Rightarrow> 'e mach \<Rightarrow> 'e mach" where
  "exec_op h i m =
     set_reg h (f_rd i) (alu_reg (f_funct3 i) (f_funct7 i) (get_reg h (f_rs1 i) m) (get_reg h (f_rs2 i) m)) m"

text \<open>The messages \<open>ECALL executed at PC=0x%08x\<close> and \<open>Unknown opcode: 0x%02x at PC=0x%08x\<close>.\<close>

definition ecall_text :: "32 word \<Rightarrow> string" where
  "ecall_text a = text_line (''ECALL executed at PC=0x'' @ fmt_0x 8 (unat a))"

definition unknown_text :: "32 word \<Rightarrow> 32 word \<Rightarrow> string" where
  "unknown_text opcode a = text_line (''Unknown opcode: 0x'' @ fmt_0x 2 (unat opcode) @ '' at PC=0x'' @ fmt_0x 8 (unat a))"

definition exec_system :: "nat \<Rightarrow> 32 word \<Rightarrow> 32 word \<Rightarrow> 'e mach \<Rightarrow> 'e mach" where
  "exec_system h i current_pc m =
     (if f_funct3 i = 0 then
        (if f_imm12 i = 0 then put_text (ecall_text current_pc) m
         else if f_imm12 i = 1 then upd_hart h (halted_update (\<lambda>_. True)) m
         else m)
      else m)"

text \<open>Decoding and execution after the fetch, then a whole step.\<close>

definition rv32_execute :: "nat \<Rightarrow> 32 word \<Rightarrow> 32 word \<Rightarrow> 'e mach \<Rightarrow> 'e mach" where
  "rv32_execute h i current_pc m =
     (let opcode = i AND 0x7F in
      if opcode = 0x37 then set_reg h (f_rd i) (i AND 0xFFFFF000) m
      else if opcode = 0x17 then set_reg h (f_rd i) (current_pc + (i AND 0xFFFFF000)) m
      else if opcode = 0x6F then exec_jal h i current_pc m
      else if opcode = 0x67 then exec_jalr h i m
      else if opcode = 0x63 then exec_branch h i current_pc m
      else if opcode = 0x03 then exec_load h i m
      else if opcode = 0x23 then exec_store h i m
      else if opcode = 0x13 then exec_op_imm h i m
      else if opcode = 0x33 then exec_op h i m
      else if opcode = 0x73 then exec_system h i current_pc m
      else upd_hart h (running_update (\<lambda>_. False)) (put_text (unknown_text opcode current_pc) m))"

definition rv32_cpu_step :: "nat \<Rightarrow> 'e mach \<Rightarrow> 'e mach" where
  "rv32_cpu_step h m =
     (if \<not> running (harts m h) then m
      else
        let (instruction, m1) = rv32_cpu_read_mem h (pc (harts m h)) 4 m;
            current_pc = pc (harts m1 h);
            m2 = upd_hart h (\<lambda>c. c\<lparr>pc := pc c + 4, instruction_count := instruction_count c + 1\<rparr>) m1
        in rv32_execute h instruction current_pc m2)"

subsection \<open>Loading a program\<close>

definition rv32_cpu_load_program :: "nat \<Rightarrow> byte list \<Rightarrow> 32 word \<Rightarrow> 'e mach \<Rightarrow> bool \<times> 'e mach" where
  "rv32_cpu_load_program h prog base_addr m =
     (if base_addr < RAM_BASE \<or> unat base_addr + length prog > unat (RAM_BASE + RAM_SIZE) then (False, m)
      else
        let off = unat (base_addr - RAM_BASE) in
        (True, set_ram h (\<lambda>i. if off \<le> i \<and> i < off + length prog then prog ! (i - off) else ram_of h m i) m))"

subsection \<open>The disassembler\<close>

definition x_reg :: "int \<Rightarrow> string" where
  "x_reg r = CHR ''x'' # fmt_d r"

definition rv32_cpu_disassemble :: "32 word \<Rightarrow> 32 word \<Rightarrow> nat \<Rightarrow> string" where
  "rv32_cpu_disassemble i addr n =
     (let opcode = i AND 0x7F; rd = x_reg (f_rd i); rs1 = x_reg (f_rs1 i); rs2 = x_reg (f_rs2 i);
          f3 = f_funct3 i; hex = fmt_0x 8 (unat i); imm = fmt_d (sint (sign_extend (f_imm12 i) 12)) in
      snprintf n
       (if opcode = 0x37 then ''lui '' @ rd @ '', 0x'' @ fmt_0x 5 (unat (drop_bit 12 i))
        else if opcode = 0x17 then ''auipc '' @ rd @ '', 0x'' @ fmt_0x 5 (unat (drop_bit 12 i))
        else if opcode = 0x6F then ''jal '' @ rd @ '', 0x'' @ fmt_0x 8 (unat (addr + sign_extend (imm_jal i) 21))
        else if opcode = 0x13 then
          (if f3 = 0 then ''addi '' @ rd @ '', '' @ rs1 @ '', '' @ imm
           else if f3 = 4 then ''xori '' @ rd @ '', '' @ rs1 @ '', '' @ imm
           else if f3 = 6 then ''ori '' @ rd @ '', '' @ rs1 @ '', '' @ imm
           else if f3 = 7 then ''andi '' @ rd @ '', '' @ rs1 @ '', '' @ imm
           else ''unknown_op_imm 0x'' @ hex)
        else if opcode = 0x33 then
          (if f3 = 0 then (if drop_bit 30 i AND 1 \<noteq> 0 then ''sub '' else ''add '') @ rd @ '', '' @ rs1 @ '', '' @ rs2
           else if f3 = 4 then ''xor '' @ rd @ '', '' @ rs1 @ '', '' @ rs2
           else if f3 = 6 then ''or '' @ rd @ '', '' @ rs1 @ '', '' @ rs2
           else if f3 = 7 then ''and '' @ rd @ '', '' @ rs1 @ '', '' @ rs2
           else ''unknown_op 0x'' @ hex)
        else if opcode = 0x73 then
          (if f_imm12 i = 0 then ''ecall'' else if f_imm12 i = 1 then ''ebreak''
           else ''unknown_system 0x'' @ hex)
        else ''unknown 0x'' @ hex))"

subsection \<open>What an operation can change\<close>

text \<open>
  No operation changes how a hart is wired: its memory array, its number and its hooks. Nor does
  one write outside the arrays of a hart (32 registers, \<open>RAM_SIZE\<close> bytes) or to register 0, or
  take back what was printed. The
  environment changes only through the hooks, so a property of it that they keep is kept.
\<close>

definition edges :: "'e rv32_cpu \<Rightarrow> (nat \<Rightarrow> 32 word) \<times> (nat \<Rightarrow> byte)" where
  "edges c = (\<lambda>i. if i = 0 \<or> 32 \<le> i then regs c i else 0, \<lambda>j. if 0x10000 \<le> j then memory c j else 0)"

definition config ::
    "'e rv32_cpu \<Rightarrow> nat option \<times> int \<times> nat \<times> 'e check_fn option \<times> 'e check_fn option \<times> (nat \<Rightarrow> 32 word) \<times> (nat \<Rightarrow> byte)" where
  "config c = (shared_ram c, hart_id c, watchpoint_ctx c, check_watchpoint_read c, check_watchpoint_write c, edges c)"

definition hooks_keep :: "('e \<Rightarrow> bool) \<Rightarrow> 'e mach \<Rightarrow> bool" where
  "hooks_keep P m = (\<forall>h f. check_watchpoint_read (harts m h) = Some f \<or> check_watchpoint_write (harts m h) = Some f \<longrightarrow>
     (\<forall>i a l e. P e \<longrightarrow> P (snd (f i a l e))))"

definition confined :: "('e \<Rightarrow> bool) \<Rightarrow> 'e mach \<Rightarrow> 'e mach \<Rightarrow> bool" where
  "confined P m m' = ((\<forall>h. config (harts m' h) = config (harts m h)) \<and> prefix (stdout m) (stdout m') \<and>
     (hooks_keep P m \<longrightarrow> P (env m) \<longrightarrow> P (env m')))"

lemma config_eq_iff:
  "config c = config c' \<longleftrightarrow> shared_ram c = shared_ram c' \<and> hart_id c = hart_id c' \<and>
     watchpoint_ctx c = watchpoint_ctx c' \<and> check_watchpoint_read c = check_watchpoint_read c' \<and>
     check_watchpoint_write c = check_watchpoint_write c' \<and> edges c = edges c'"
  by (simp add: config_def)

lemma edges_eq_iff:
  "edges c = edges c' \<longleftrightarrow> (\<forall>i. i = 0 \<or> 32 \<le> i \<longrightarrow> regs c i = regs c' i) \<and> (\<forall>j \<ge> 0x10000. memory c j = memory c' j)"
  by (auto simp: edges_def fun_eq_iff)

lemma confined_refl [simp]: "confined P m m"
  by (simp add: confined_def)

lemma confined_trans: "confined P m m' \<Longrightarrow> confined P m' m'' \<Longrightarrow> confined P m m''"
  by (auto simp: confined_def hooks_keep_def config_eq_iff)

lemma confined_upd_hart:
  "(\<And>c. config (f c) = config c) \<Longrightarrow> confined P m (upd_hart h f m)"
  by (simp add: confined_def upd_hart_def)

lemma config_updates [simp]:
  "config (c\<lparr>pc := v\<rparr>) = config c" "config (c\<lparr>halted := b\<rparr>) = config c" "config (c\<lparr>running := b\<rparr>) = config c"
  "config (rv32_cpu_write_reg i v c) = config c" "config (c\<lparr>instruction_count := n\<rparr>) = config c"
  "(\<And>j. 0x10000 \<le> j \<Longrightarrow> g (memory c) j = memory c j) \<Longrightarrow> config (memory_update g c) = config c"
  "(\<And>i. i = 0 \<or> 32 \<le> i \<Longrightarrow> q i = regs c i) \<Longrightarrow> config (c\<lparr>regs := q\<rparr>) = config c"
  "(\<And>i. i = 0 \<or> 32 \<le> i \<Longrightarrow> regs c i = 0) \<Longrightarrow> config (rv32_cpu_reset c) = config c"
  by (auto simp: config_eq_iff edges_eq_iff rv32_cpu_write_reg_def rv32_cpu_reset_def)

lemma put_text_simps [simp]: "harts (put_text s m) = harts m" "env (put_text s m) = env m" "stdout (put_text s m) = stdout m @ s"
  by (simp_all add: put_text_def)

lemma confined_put_text [simp]: "confined P m (put_text s m)"
  by (simp add: confined_def)

lemma confined_set_ram: "(\<And>j. 0x10000 \<le> j \<Longrightarrow> r j = ram_of h m j) \<Longrightarrow> confined P m (set_ram h r m)"
  by (simp add: set_ram_def confined_def upd_hart_def)

lemma put_outside: "i + 2 \<le> j \<Longrightarrow> put16 i v r j = r j" "i + 4 \<le> j \<Longrightarrow> put32 i v r j = r j"
  by (simp_all add: put16_def put32_def)

lemma in_ram_bound:
  assumes "in_ram addr sz" "sz = 1 \<or> sz = 2 \<or> sz = 4"
  shows "unat (addr - RAM_BASE) + nat sz \<le> 0x10000"
proof -
  have "unat (addr - RAM_BASE) = unat addr - 0x80000000"
    using assms(1) by (subst unat_sub) (simp_all add: in_ram_def)
  then show ?thesis using assms by (auto simp: in_ram_def word_less_nat_alt)
qed

lemma confined_call_check:
  "f = check_watchpoint_read (harts m h) \<or> f = check_watchpoint_write (harts m h) \<Longrightarrow>
    confined P m (call_check f h addr n m)"
  by (auto simp: call_check_def confined_def upd_hart_def hooks_keep_def Let_def split: option.split prod.splits)
    (metis snd_conv)+

lemma confined_read_mem: "confined P m (snd (rv32_cpu_read_mem h addr n m))"
  by (simp add: rv32_cpu_read_mem_def Let_def confined_call_check)

lemma confined_write_mem: "confined P m (rv32_cpu_write_mem h addr v n m)"
proof -
  let ?m = "call_check (check_watchpoint_write (harts m h)) h addr n m"
  have "confined P ?m (rv32_cpu_write_mem h addr v n m)"
    using in_ram_bound [of addr n]
    by (auto simp: rv32_cpu_write_mem_def Let_def put_outside intro!: confined_set_ram)
  then show ?thesis by (rule confined_trans [rotated]) (simp add: confined_call_check)
qed

lemma confined_execute: "confined P m (rv32_execute h i a m)"
proof -
  have u: "confined P m (upd_hart h f m)" if "\<And>c. config (f c) = config c" for f m
    using that by (rule confined_upd_hart)
  have "confined P m (exec_jal h i a m)" "confined P m (exec_jalr h i m)"
    unfolding exec_jal_def exec_jalr_def Let_def by (rule confined_trans; rule u; simp)+
  moreover have "confined P m (exec_load h i m)"
    unfolding exec_load_def Let_def case_prod_beta
    by (rule confined_trans [OF _ u]) (auto simp: confined_read_mem)
  moreover have "confined P m (upd_hart h (running_update (\<lambda>_. False)) (put_text s m))" for s
    by (rule confined_trans [OF confined_put_text u]) simp
  ultimately show ?thesis
    unfolding rv32_execute_def exec_branch_def exec_store_def exec_op_imm_def exec_op_def exec_system_def Let_def
    by (simp add: u confined_write_mem)
qed

lemma confined_step: "confined P m (rv32_cpu_step h m)"
proof -
  obtain i m1 where rd: "rv32_cpu_read_mem h (pc (harts m h)) 4 m = (i, m1)" by fastforce
  then have "confined P m m1" using confined_read_mem [of P m h "pc (harts m h)" 4] by simp
  moreover have "confined P m1 (upd_hart h (\<lambda>c. c\<lparr>pc := pc c + 4, instruction_count := instruction_count c + 1\<rparr>) m1)"
    by (rule confined_upd_hart) simp
  ultimately show ?thesis
    unfolding rv32_cpu_step_def rd Let_def prod.case
    by (auto intro: confined_trans [OF _ confined_execute] confined_trans)
qed

text \<open>
  Nor does an operation of a hart change another hart, but for the memory array that they
  share; and executing an instruction does not count it.
\<close>

definition apart :: "nat \<Rightarrow> 'e mach \<Rightarrow> 'e mach \<Rightarrow> bool" where
  "apart h m m' = ((\<forall>k z. k \<noteq> h \<longrightarrow> (harts m' k)\<lparr>memory := z\<rparr> = (harts m k)\<lparr>memory := z\<rparr>) \<and>
     instruction_count (harts m' h) = instruction_count (harts m h))"

lemma apart_refl [simp]: "apart h m m"
  by (simp add: apart_def)

lemma apart_trans: "apart h m m' \<Longrightarrow> apart h m' m'' \<Longrightarrow> apart h m m''"
  by (simp add: apart_def)

lemma apart_upd_hart [simp]:
  "(\<And>c. instruction_count (f c) = instruction_count c) \<Longrightarrow> apart h m (upd_hart h f m)"
  by (simp add: apart_def upd_hart_def)

lemma apart_memory [simp]: "apart h m (set_ram h' r m)" "apart h m (put_text s m)"
  by (simp_all add: apart_def set_ram_def upd_hart_def)

lemma apart_write_reg [simp]: "instruction_count (rv32_cpu_write_reg i v c) = instruction_count c"
  by (simp add: rv32_cpu_write_reg_def)

lemma apart_access:
  "apart h m (call_check f h addr n m)" "apart h m (snd (rv32_cpu_read_mem h addr n m))"
  "apart h m (rv32_cpu_write_mem h addr v n m)"
proof -
  show c: "apart h m (call_check f h addr n m)" for f
    by (auto simp: call_check_def apart_def upd_hart_def Let_def split: option.split prod.split)
  then show "apart h m (snd (rv32_cpu_read_mem h addr n m))" by (simp add: rv32_cpu_read_mem_def Let_def)
  let ?m = "call_check (check_watchpoint_write (harts m h)) h addr n m"
  have "apart h ?m (rv32_cpu_write_mem h addr v n m)" by (simp add: rv32_cpu_write_mem_def Let_def)
  with c show "apart h m (rv32_cpu_write_mem h addr v n m)" by (rule apart_trans)
qed

lemma apart_execute: "apart h m (rv32_execute h i a m)"
proof -
  have u: "apart h m (upd_hart h f m)" if "\<And>c. instruction_count (f c) = instruction_count c" for f m
    using that by (rule apart_upd_hart)
  have "apart h m (exec_jal h i a m)" "apart h m (exec_jalr h i m)"
    unfolding exec_jal_def exec_jalr_def Let_def by (rule apart_trans; rule u; simp)+
  moreover have "apart h m (exec_load h i m)"
    unfolding exec_load_def Let_def case_prod_beta
    by (rule apart_trans [OF _ u]) (auto simp: apart_access)
  moreover have "apart h m (upd_hart h (running_update (\<lambda>_. False)) (put_text s m))" for s
    by (rule apart_trans [OF apart_memory(2) u]) simp
  ultimately show ?thesis
    unfolding rv32_execute_def exec_branch_def exec_store_def exec_op_imm_def exec_op_def exec_system_def Let_def
    by (simp add: u apart_access)
qed

lemma step_apart:
  assumes "k \<noteq> h"
  shows "(harts (rv32_cpu_step h m) k)\<lparr>memory := z\<rparr> = (harts m k)\<lparr>memory := z\<rparr>"
proof (cases "running (harts m h)")
  case True
  obtain i m1 where rd: "rv32_cpu_read_mem h (pc (harts m h)) 4 m = (i, m1)" by fastforce
  let ?m2 = "upd_hart h (\<lambda>c. c\<lparr>pc := pc c + 4, instruction_count := instruction_count c + 1\<rparr>) m1"
  have "apart h m m1" using apart_access(2) [of h m "pc (harts m h)" 4] rd by simp
  moreover have "apart h ?m2 (rv32_execute h i (pc (harts m1 h)) ?m2)" by (rule apart_execute)
  ultimately show ?thesis using True assms by (simp add: rv32_cpu_step_def rd apart_def upd_hart_def)
qed (simp add: rv32_cpu_step_def)

lemma step_counts:
  "instruction_count (harts (rv32_cpu_step h m) h) = instruction_count (harts m h) + of_bool (running (harts m h))"
proof (cases "running (harts m h)")
  case True
  obtain i m1 where rd: "rv32_cpu_read_mem h (pc (harts m h)) 4 m = (i, m1)" by fastforce
  let ?m2 = "upd_hart h (\<lambda>c. c\<lparr>pc := pc c + 4, instruction_count := instruction_count c + 1\<rparr>) m1"
  have "apart h m m1" using apart_access(2) [of h m "pc (harts m h)" 4] rd by simp
  moreover have "apart h ?m2 (rv32_execute h i (pc (harts m1 h)) ?m2)" by (rule apart_execute)
  ultimately show ?thesis using True by (simp add: rv32_cpu_step_def rd apart_def upd_hart_def)
qed (simp add: rv32_cpu_step_def)

end
