(* ===== verification/Smp_Sync.thy ===== *)
theory Smp_Sync
  imports RV32_Cpu
begin

text \<open>
  The synchronisation of the harts in src/emu/smp_sync.c and src/emu/smp_program.h: a block
  of shared words at 0x80002000, the delivery of an inter-processor interrupt by writing
  into it, and the worker harts that run their handler until no interrupt is pending. The
  number of harts (\<open>sys->num_harts\<close>) is the argument \<open>nh\<close>.
\<close>

abbreviation (input) SMP_SYNC_BASE :: "32 word" where "SMP_SYNC_BASE \<equiv> 0x80002000"
abbreviation (input) SMP_IPI_MMIO :: "32 word" where "SMP_IPI_MMIO \<equiv> 0x10000004"
abbreviation (input) OFF_LOCK :: "32 word" where "OFF_LOCK \<equiv> 0x00"
abbreviation (input) OFF_WORK_ITEM :: "32 word" where "OFF_WORK_ITEM \<equiv> 0x04"
abbreviation (input) OFF_WORK_READY :: "32 word" where "OFF_WORK_READY \<equiv> 0x08"
abbreviation (input) OFF_SHARED_DONE :: "32 word" where "OFF_SHARED_DONE \<equiv> 0x0c"
abbreviation (input) OFF_IPI_PENDING :: "32 word" where "OFF_IPI_PENDING \<equiv> 0x10"
abbreviation (input) OFF_NUM_HARTS :: "32 word" where "OFF_NUM_HARTS \<equiv> 0x30"
abbreviation (input) SMP_WORKER_WAIT :: "32 word" where "SMP_WORKER_WAIT \<equiv> 0x80000030"
abbreviation (input) SMP_WORKER_POLL :: "32 word" where "SMP_WORKER_POLL \<equiv> 0x80000034"
abbreviation (input) SMP_WORKER_SPIN :: "32 word" where "SMP_WORKER_SPIN \<equiv> 0x80000050"
abbreviation (input) SMP_WORKER_HANDLE :: "32 word" where "SMP_WORKER_HANDLE \<equiv> 0x80000054"
abbreviation (input) SMP_WORKER_END :: "32 word" where "SMP_WORKER_END \<equiv> 0x80000090"

record smp_sync =
  sync_num_harts :: "32 word"

subsection \<open>Words in shared memory\<close>

text \<open>The shared memory is the one hart 0 uses.\<close>

definition ram_read32 :: "32 word \<Rightarrow> 'e mach \<Rightarrow> 32 word" where
  "ram_read32 addr m =
     (if addr < RAM_BASE \<or> addr + 4 > RAM_BASE + RAM_SIZE then 0
      else le32 (ram_of 0 m) (unat (addr - RAM_BASE)))"

definition ram_write32 :: "32 word \<Rightarrow> 32 word \<Rightarrow> 'e mach \<Rightarrow> 'e mach" where
  "ram_write32 addr v m =
     (if addr < RAM_BASE \<or> addr + 4 > RAM_BASE + RAM_SIZE then m
      else set_ram 0 (put32 (unat (addr - RAM_BASE)) v (ram_of 0 m)) m)"

definition ipi_addr :: "int \<Rightarrow> 32 word" where
  "ipi_addr h = SMP_SYNC_BASE + OFF_IPI_PENDING + word_of_int h * 4"

definition smp_worker_target :: "int \<Rightarrow> 32 word \<Rightarrow> int" where
  "smp_worker_target nh work_item =
     (let workers = nh - 1 in if workers \<le> 0 then - 1 else uint work_item mod workers + 1)"

definition smp_deliver_ipi :: "int \<Rightarrow> int \<Rightarrow> 32 word \<Rightarrow> 'e mach \<Rightarrow> 'e mach" where
  "smp_deliver_ipi nh target_hart work_item m =
     (if target_hart \<le> 0 \<or> target_hart \<ge> nh then m
      else ram_write32 (ipi_addr target_hart) 1
             (ram_write32 (SMP_SYNC_BASE + OFF_WORK_READY) 1
               (ram_write32 (SMP_SYNC_BASE + OFF_WORK_ITEM) work_item m)))"

definition smp_sync_reset :: "int \<Rightarrow> smp_sync" where
  "smp_sync_reset nh = \<lparr>sync_num_harts = word_of_int nh\<rparr>"

definition smp_sync_init :: "int \<Rightarrow> smp_sync" where
  "smp_sync_init nh = smp_sync_reset nh"

definition smp_sync_ram_init :: "int \<Rightarrow> 'e mach \<Rightarrow> 'e mach" where
  "smp_sync_ram_init nh m =
     fold (\<lambda>h. ram_write32 (ipi_addr (int h)) 0) [0..<8]
      (ram_write32 (SMP_SYNC_BASE + OFF_NUM_HARTS) (word_of_int nh)
       (ram_write32 (SMP_SYNC_BASE + OFF_SHARED_DONE) 0
        (ram_write32 (SMP_SYNC_BASE + OFF_WORK_READY) 0
         (ram_write32 (SMP_SYNC_BASE + OFF_WORK_ITEM) 0
          (ram_write32 (SMP_SYNC_BASE + OFF_LOCK) 0 m)))))"

subsection \<open>Worker harts\<close>

definition smp_sync_init_worker_hart :: "'e rv32_cpu \<Rightarrow> 'e rv32_cpu" where
  "smp_sync_init_worker_hart cpu = cpu\<lparr>regs := (regs cpu)(8 := SMP_SYNC_BASE), pc := SMP_WORKER_POLL\<rparr>"

definition smp_sync_worker_should_run :: "int \<Rightarrow> int \<Rightarrow> 'e mach \<Rightarrow> bool" where
  "smp_sync_worker_should_run nh h m =
     (if h \<le> 0 \<or> h \<ge> nh then False
      else if pc (harts m (nat h)) \<ge> SMP_WORKER_HANDLE \<and> pc (harts m (nat h)) < SMP_WORKER_END then True
      else ram_read32 (ipi_addr h) m \<noteq> 0)"

text \<open>The loop with its guard of 128 instructions.\<close>

fun worker_loop :: "nat \<Rightarrow> nat \<Rightarrow> 'e mach \<Rightarrow> 'e mach" where
  "worker_loop 0 h m = m"
| "worker_loop (Suc guard) h m =
     (if running (harts m h) \<and> \<not> halted (harts m h) then
        let m1 = rv32_cpu_step h m in
        if (pc (harts m1 h) = SMP_WORKER_POLL \<or> pc (harts m1 h) = SMP_WORKER_SPIN) \<and>
           ram_read32 (ipi_addr (int h)) m1 = 0
        then m1 else worker_loop guard h m1
      else m)"

definition smp_sync_run_worker_jobs :: "int \<Rightarrow> int \<Rightarrow> 'e mach \<Rightarrow> 'e mach" where
  "smp_sync_run_worker_jobs nh h m =
     (if h \<le> 0 \<or> h \<ge> nh then m
      else if \<not> smp_sync_worker_should_run nh h m then m
      else worker_loop 128 (nat h) m)"

subsection \<open>Memory-mapped access\<close>

definition smp_sync_handle_mmio :: "int \<Rightarrow> 32 word \<Rightarrow> 32 word \<Rightarrow> int \<Rightarrow> 'e mach \<Rightarrow> bool \<times> 'e mach" where
  "smp_sync_handle_mmio nh addr v sz m =
     (if addr \<noteq> SMP_IPI_MMIO \<or> sz \<noteq> 4 then (False, m)
      else
        let target0 = uint (drop_bit 16 v AND 0xff);
            work_item = v AND 0xffff;
            target = (if target0 \<le> 0 then smp_worker_target nh work_item else target0)
        in (True, smp_sync_run_worker_jobs nh target (smp_deliver_ipi nh target work_item m)))"

definition in_sync :: "32 word \<Rightarrow> int \<Rightarrow> bool" where
  "in_sync addr sz = (\<not> (addr < SMP_SYNC_BASE \<or> addr + word_of_int sz > SMP_SYNC_BASE + 0x40))"

definition smp_sync_write_ram :: "32 word \<Rightarrow> 32 word \<Rightarrow> int \<Rightarrow> 'e mach \<Rightarrow> bool \<times> 'e mach" where
  "smp_sync_write_ram addr v sz m =
     (if \<not> in_sync addr sz then (False, m)
      else
        let off = unat (addr - RAM_BASE); ram = ram_of 0 m in
        if sz = 1 then (True, set_ram 0 (ram(off := ucast v)) m)
        else if sz = 2 then (True, set_ram 0 (put16 off v ram) m)
        else if sz = 4 then (True, set_ram 0 (put32 off v ram) m)
        else (False, m))"

definition smp_sync_read_ram :: "32 word \<Rightarrow> int \<Rightarrow> 'e mach \<Rightarrow> 32 word" where
  "smp_sync_read_ram addr sz m =
     (if \<not> in_sync addr sz then 0
      else
        let off = unat (addr - RAM_BASE); ram = ram_of 0 m in
        if sz = 1 then ucast (ram off) else if sz = 2 then le16 ram off
        else if sz = 4 then le32 ram off else 0)"

definition smp_sync_read_mmio :: "32 word \<Rightarrow> int \<Rightarrow> 'e mach \<Rightarrow> 32 word" where
  "smp_sync_read_mmio addr sz m =
     (if addr = SMP_IPI_MMIO then ram_read32 (SMP_SYNC_BASE + OFF_SHARED_DONE) m else 0)"

definition smp_sync_on_counter_store :: "int \<Rightarrow> int \<Rightarrow> 32 word \<Rightarrow> 'e mach \<Rightarrow> 'e mach" where
  "smp_sync_on_counter_store nh src_hart counter m =
     (if nh \<le> 1 \<or> src_hart \<noteq> 0 then m
      else
        let target = smp_worker_target nh counter in
        if target < 0 then m
        else smp_sync_run_worker_jobs nh target (smp_deliver_ipi nh target counter m))"

subsection \<open>The worker program\<close>

definition smp_worker_code :: "32 word list" where
  "smp_worker_code =
     [0x80002437, 0x01040293, 0x00221e13, 0x01c282b3, 0x0002a303, 0x00030663, 0x0002a023, 0x008000ef,
      0xfe5ff06f, 0x00042283, 0xfe029ee3, 0x00120293, 0x00542023, 0x00842383, 0x02038063, 0x00442303,
      0x00042423, 0x00030493, 0x00c42383, 0x00138393, 0x00742623, 0x00038913, 0x00042023, 0xfa9ff06f]"

text \<open>The bytes of a program, as the cast of the array of words to bytes gives them.\<close>

definition word_bytes :: "32 word \<Rightarrow> byte list" where
  "word_bytes v = [ucast v, ucast (drop_bit 8 v), ucast (drop_bit 16 v), ucast (drop_bit 24 v)]"

definition code_bytes :: "32 word list \<Rightarrow> byte list" where
  "code_bytes ws = concat (map word_bytes ws)"

subsection \<open>What an operation can change\<close>

lemma confined_ram_write32:
  assumes "addr \<le> 0xFFFFFFFB"
  shows "confined P m (ram_write32 addr v m)"
proof -
  have "unat (addr - RAM_BASE) + 4 \<le> 0x10000" if "RAM_BASE \<le> addr" "addr + 4 \<le> RAM_BASE + RAM_SIZE"
  proof -
    have "unat (addr + 4) = unat addr + 4" using assms by (simp add: word_le_nat_alt unat_word_ariths)
    moreover have "unat (addr - RAM_BASE) = unat addr - 0x80000000" using that(1) by (simp add: unat_sub)
    ultimately show ?thesis using that by (simp add: word_le_nat_alt)
  qed
  then show ?thesis by (auto simp: ram_write32_def put_outside not_less not_le intro!: confined_set_ram)
qed

lemma ipi_addr_bound:
  assumes "0 \<le> h" "h < 8"
  shows "ipi_addr h \<le> 0xFFFFFFFB"
proof -
  from assms have "h \<in> {0, 1, 2, 3, 4, 5, 6, 7}" by auto
  then show ?thesis by (auto simp: ipi_addr_def)
qed

lemma confined_fold:
  "(\<And>x m. x \<in> set xs \<Longrightarrow> confined P m (f x m)) \<Longrightarrow> confined P m (fold f xs m)"
  by (induction xs arbitrary: m) (auto intro: confined_trans)

text \<open>
  The check of \<open>smp_sync_write_ram\<close> alone lets the last address through, whose sum with the size
  wraps to 0; its caller in main.c checks the address first.
\<close>

lemma in_sync_bound:
  assumes "in_sync addr sz" "addr < SMP_SYNC_BASE + 0x40"
  shows "unat (addr - RAM_BASE) + 4 \<le> 0x10000"
proof -
  have "0x80002000 \<le> unat addr" using assms(1) by (simp add: in_sync_def not_less word_le_nat_alt)
  then have "unat (addr - RAM_BASE) = unat addr - 0x80000000" by (simp add: unat_sub word_le_nat_alt)
  then show ?thesis using assms by (auto simp: in_sync_def word_less_nat_alt)
qed

lemma in_sync_wraps: "in_sync 0xFFFFFFFF 1" "\<not> unat (0xFFFFFFFF - RAM_BASE :: 32 word) < 0x10000"
  by (simp_all add: in_sync_def)

lemma confined_deliver: "nh \<le> 8 \<Longrightarrow> confined P m (smp_deliver_ipi nh t v m)"
  unfolding smp_deliver_ipi_def
  by (auto intro!: confined_trans [OF _ confined_ram_write32] ipi_addr_bound)

lemma confined_ram_init: "confined P m (smp_sync_ram_init nh m)"
  unfolding smp_sync_ram_init_def
  by (rule confined_trans [OF _ confined_fold]) (auto intro!: confined_trans [OF _ confined_ram_write32] confined_ram_write32 ipi_addr_bound)

lemma confined_worker_loop: "confined P m (worker_loop guard h m)"
proof (induction guard arbitrary: m)
  case (Suc guard)
  have "confined P m (worker_loop guard h (rv32_cpu_step h m))"
    by (rule confined_trans [OF confined_step Suc.IH])
  then show ?case by (simp add: Let_def confined_step)
qed simp

lemma confined_run_jobs: "confined P m (smp_sync_run_worker_jobs nh h m)"
  by (simp add: smp_sync_run_worker_jobs_def confined_worker_loop)

lemma confined_mmio:
  "nh \<le> 8 \<Longrightarrow> confined P m (snd (smp_sync_handle_mmio nh addr v n m))"
  "addr < SMP_SYNC_BASE + 0x40 \<Longrightarrow> confined P m (snd (smp_sync_write_ram addr v n m))"
  "nh \<le> 8 \<Longrightarrow> confined P m (smp_sync_on_counter_store nh src c m)"
proof -
  show "nh \<le> 8 \<Longrightarrow> confined P m (snd (smp_sync_handle_mmio nh addr v n m))"
    "nh \<le> 8 \<Longrightarrow> confined P m (smp_sync_on_counter_store nh src c m)"
    by (auto simp: smp_sync_handle_mmio_def smp_sync_on_counter_store_def Let_def
        intro: confined_trans [OF confined_deliver confined_run_jobs])
  show "addr < SMP_SYNC_BASE + 0x40 \<Longrightarrow> confined P m (snd (smp_sync_write_ram addr v n m))"
    using in_sync_bound [of addr n]
    by (auto simp: smp_sync_write_ram_def Let_def put_outside intro!: confined_set_ram)
qed

text \<open>The workers leave hart 0 alone but for its memory.\<close>

lemma worker_loop_apart: "k \<noteq> h \<Longrightarrow> (harts (worker_loop guard h m) k)\<lparr>memory := z\<rparr> = (harts m k)\<lparr>memory := z\<rparr>"
  by (induction guard arbitrary: m) (simp_all add: Let_def step_apart)

lemma ram_write32_apart: "(harts (ram_write32 a v m) k)\<lparr>memory := z\<rparr> = (harts m k)\<lparr>memory := z\<rparr>"
  by (simp add: ram_write32_def set_ram_def upd_hart_def)

lemma counter_store_apart:
  "(harts (smp_sync_on_counter_store nh src c m) 0)\<lparr>memory := z\<rparr> = (harts m 0)\<lparr>memory := z\<rparr>"
  by (simp add: smp_sync_on_counter_store_def smp_sync_run_worker_jobs_def smp_deliver_ipi_def Let_def
      worker_loop_apart ram_write32_apart)

end
