(* ===== verification/Console.thy ===== *)
theory Console
  imports Smp_Sync
begin

text \<open>
  What \<open>main\<close> of src/emu/main.c prints on standard output, and the register dump of
  src/emu/rv32_cpu.c.
\<close>

subsection \<open>The state of a processor\<close>

text \<open>\<open>%2d\<close> of a value that is not negative.\<close>

definition fmt_2d :: "nat \<Rightarrow> string" where
  "fmt_2d n = (if n < 10 then '' '' @ fmt_nat n else fmt_nat n)"

definition reg_text :: "'e rv32_cpu \<Rightarrow> nat \<Rightarrow> string" where
  "reg_text cpu i = ''x'' @ fmt_2d i @ '': 0x'' @ fmt_0x 8 (unat (regs cpu i))"

definition rv32_cpu_print_state :: "'e rv32_cpu \<Rightarrow> string" where
  "rv32_cpu_print_state cpu =
     text_line (''PC: 0x'' @ fmt_0x 8 (unat (pc cpu)) @ ''  Instructions: '' @ fmt_nat (unat (instruction_count cpu))) @
     concat (map (\<lambda>i. text_line (reg_text cpu i @ ''  '' @ reg_text cpu (i + 1) @ ''  '' @ reg_text cpu (i + 2) @ ''  '' @
       reg_text cpu (i + 3))) [0, 4, 8, 12, 16, 20, 24, 28]) @
     text_line ''''"

text \<open>The line of a step with \<open>-d\<close>, and that of every thousandth instruction of a continue.\<close>

definition executing_text :: "'e rv32_cpu \<Rightarrow> 32 word \<Rightarrow> string" where
  "executing_text cpu instruction =
     text_line (''Hart '' @ fmt_d (hart_id cpu) @ '' executing: 0x'' @ fmt_0x 8 (unat (pc cpu)) @ '': '' @
       rv32_cpu_disassemble instruction (pc cpu) 128)"

definition progress_text :: "nat \<Rightarrow> 'e rv32_cpu \<Rightarrow> string" where
  "progress_text h cpu =
     text_line (''Hart '' @ fmt_nat h @ '' PC: 0x'' @ fmt_0x 8 (unat (pc cpu)) @ '', Instructions: '' @
       fmt_nat (unat (instruction_count cpu)))"

text \<open>The prompt of interactive mode, with its single quotes.\<close>

definition quoted :: "string \<Rightarrow> string" where
  "quoted s = [CHR 0x27] @ s @ [CHR 0x27]"

definition prompt_text :: "'e rv32_cpu \<Rightarrow> string" where
  "prompt_text cpu =
     text_line '''' @ text_line (''CPU State (hart '' @ fmt_d (hart_id cpu) @ ''):'') @
     text_line (''PC: 0x'' @ fmt_0x 8 (unat (pc cpu)) @ ''  Instructions executed: '' @ fmt_nat (unat (instruction_count cpu))) @
     ''Press Enter to continue, '' @ quoted ''q'' @ '' to quit, '' @ quoted ''r'' @ '' to show registers: ''"

subsection \<open>Start and end\<close>

text \<open>Before the system is set up, after it, with the debugger connected, and at the end.\<close>

definition banner_text :: string where
  "banner_text = text_line ''RISC-V RV32I Emulator with GDB Stub'' @ text_line ''===================================''"

definition loaded_text :: "int \<Rightarrow> string" where
  "loaded_text n =
     text_line (''Test program loaded at 0x'' @ fmt_0x 8 (unat RAM_BASE) @ '' ('' @ fmt_d n @ '' hart'' @
       (if n = 1 then '''' else ''s'') @ '')'') @
     (if n > 1 then
        text_line (''Hart 0 runs demo; harts 1-'' @ fmt_d (n - 1) @ '' are worker harts at 0x'' @
          fmt_0x 8 (unat SMP_WORKER_POLL) @ '' (RV32I poll/handler)'') @
        text_line (''Shared sync at 0x'' @ fmt_0x 8 (unat SMP_SYNC_BASE) @ '', IPI MMIO at 0x'' @ fmt_0x 8 (unat SMP_IPI_MMIO))
      else [])"

definition connected_text :: "int \<Rightarrow> string" where
  "connected_text n =
     text_line '''' @ text_line ''GDB connected! CPU execution will be controlled by GDB.'' @
     (if n > 1 then text_line (''SMP mode: use '' @ quoted ''info threads'' @ '' and '' @ quoted ''thread N'' @
        '' to switch harts.'') else []) @
     concat (map text_line
       [''In GDB, use these commands:'',
        ''  info registers  - Show CPU registers'',
        ''  x/10i $pc      - Disassemble 10 instructions at PC'',
        ''  break *0x80000000 - Set breakpoint at address'',
        ''  step           - Single step'',
        ''  continue       - Continue execution'',
        ''  quit           - Exit GDB'',
        ''''])"

definition shutdown_text :: string where
  "shutdown_text = text_line '''' @ text_line ''Shutting down...''"

end
