(* ===== verification/Emulator.thy ===== *)
theory Emulator
  imports Session Target_Memory Console
begin

text \<open>
  The emulator of src/emu/main.c and src/emu/rv32_system.h: the system of harts, the
  callbacks it gives to the stub, the watchpoint hooks, stepping and continuing, and one turn
  of the main loop. The globals \<open>g_sys\<close>, \<open>g_gdb_ctx\<close> (never null once the main loop
  runs) and \<open>g_interrupt_received\<close> are parts of the world the functions act on.
\<close>

subsection \<open>The system\<close>

text \<open>What the watchpoint hooks see and change: the context and \<open>stop_hart\<close>.\<close>

record dbg =
  d_ctx :: "32 gdb_context"
  d_stop_hart :: int

text \<open>
  \<open>sys_stdout\<close> and \<open>g_interrupt_received\<close> are no fields of the struct: the text printed so far, and
  the global flag.
\<close>

record rv32_system =
  sys_harts :: "nat \<Rightarrow> dbg rv32_cpu"
  sys_stdout :: string
  sys_sync :: smp_sync
  sys_num_harts :: int
  sys_focus_hart :: int
  sys_stop_hart :: int
  g_interrupt_received :: bool

type_synonym emu = "(32, rv32_system) world"

text \<open>Running an operation of the processor or of the shared memory on the world.\<close>

definition to_mach :: "emu \<Rightarrow> dbg mach" where
  "to_mach w = \<lparr>harts = sys_harts (w_sim w), stdout = sys_stdout (w_sim w),
     env = \<lparr>d_ctx = w_ctx w, d_stop_hart = sys_stop_hart (w_sim w)\<rparr>\<rparr>"

definition of_mach :: "dbg mach \<Rightarrow> emu \<Rightarrow> emu" where
  "of_mach m w = w\<lparr>w_ctx := d_ctx (env m),
     w_sim := (w_sim w)\<lparr>sys_harts := harts m, sys_stdout := stdout m, sys_stop_hart := d_stop_hart (env m)\<rparr>\<rparr>"

definition on_mach :: "(dbg mach \<Rightarrow> dbg mach) \<Rightarrow> emu \<Rightarrow> emu" where
  "on_mach f w = of_mach (f (to_mach w)) w"

text \<open>\<open>printf\<close> on standard output, which the serial port of the harts shares.\<close>

definition print_out :: "string \<Rightarrow> emu \<Rightarrow> emu" where
  "print_out s w = w_sim_update (\<lambda>t. t\<lparr>sys_stdout := sys_stdout t @ s\<rparr>) w"

abbreviation hart :: "emu \<Rightarrow> nat \<Rightarrow> dbg rv32_cpu" where
  "hart w h \<equiv> sys_harts (w_sim w) h"

abbreviation focus :: "emu \<Rightarrow> nat" where
  "focus w \<equiv> nat (sys_focus_hart (w_sim w))"

abbreviation hart_list :: "emu \<Rightarrow> nat list" where
  "hart_list w \<equiv> [0..<nat (sys_num_harts (w_sim w))]"

definition upd_cpu :: "nat \<Rightarrow> (dbg rv32_cpu \<Rightarrow> dbg rv32_cpu) \<Rightarrow> emu \<Rightarrow> emu" where
  "upd_cpu h f w = w_sim_update (\<lambda>s. s\<lparr>sys_harts := (sys_harts s)(h := f (sys_harts s h))\<rparr>) w"

definition valid_hart_count :: "int \<Rightarrow> bool" where
  "valid_hart_count n = (n = 1 \<or> n = 2 \<or> n = 4 \<or> n = 8)"

definition sys_thread_id :: "int \<Rightarrow> int" where
  "sys_thread_id h = h + 1"

definition sys_any_running :: "emu \<Rightarrow> bool" where
  "sys_any_running w = list_ex (\<lambda>h. running (hart w h) \<and> \<not> halted (hart w h)) (hart_list w)"

definition sys_halt_all :: "emu \<Rightarrow> emu" where
  "sys_halt_all w = fold (\<lambda>h. upd_cpu h (halted_update (\<lambda>_. True))) (hart_list w) w"

definition sys_resume_runnable :: "emu \<Rightarrow> emu" where
  "sys_resume_runnable w =
     fold (\<lambda>h w. if gdb_stub_should_run_thread (w_ctx w) (sys_thread_id (int h))
                  then upd_cpu h (halted_update (\<lambda>_. False)) w else w) (hart_list w) w"

subsection \<open>Memory of the system\<close>

definition sys_read_mem :: "32 word \<Rightarrow> int \<Rightarrow> emu \<Rightarrow> 32 word \<times> emu" where
  "sys_read_mem addr sz w =
     (if addr \<ge> SMP_SYNC_BASE \<and> addr < SMP_SYNC_BASE + 0x40 then (smp_sync_read_ram addr sz (to_mach w), w)
      else if addr = SMP_IPI_MMIO then (smp_sync_read_mmio addr sz (to_mach w), w)
      else let (v, m) = rv32_cpu_read_mem 0 addr sz (to_mach w) in (v, of_mach m w))"

definition sys_write_mem :: "nat \<Rightarrow> 32 word \<Rightarrow> 32 word \<Rightarrow> int \<Rightarrow> emu \<Rightarrow> emu" where
  "sys_write_mem src addr v sz w =
     (let (handled, m) = smp_sync_handle_mmio (sys_num_harts (w_sim w)) addr v sz (to_mach w) in
      if handled then of_mach m w
      else if addr \<ge> SMP_SYNC_BASE \<and> addr < SMP_SYNC_BASE + 0x40
        then of_mach (snd (smp_sync_write_ram addr v sz m)) w
      else of_mach (rv32_cpu_write_mem src addr v sz m) w)"

definition sys_post_step :: "nat \<Rightarrow> 32 word \<Rightarrow> emu \<Rightarrow> emu" where
  "sys_post_step h prev_pc w =
     (if sys_num_harts (w_sim w) \<le> 1 then w
      else if hart_id (hart w h) = 0 \<and> prev_pc = 0x80000014
      then on_mach (smp_sync_on_counter_store (sys_num_harts (w_sim w)) 0 (regs (hart w h) 6)) w
      else w)"

definition sys_cpu_step :: "nat \<Rightarrow> emu \<Rightarrow> emu" where
  "sys_cpu_step h w = sys_post_step h (pc (hart w h)) (on_mach (rv32_cpu_step h) w)"

subsection \<open>Stopping\<close>

definition notify_stop :: "int \<Rightarrow> 32 word \<Rightarrow> emu \<Rightarrow> emu" where
  "notify_stop signal a w =
     (let tid = (if sys_stop_hart (w_sim w) \<ge> 0 then sys_thread_id (sys_stop_hart (w_sim w))
                 else sys_thread_id (sys_focus_hart (w_sim w)))
      in snd (gdb_stub_send_stop_reason signal a (w_ctx_update (gdb_stub_set_stop_thread tid) w)))"

definition handle_hart_stop :: "nat \<Rightarrow> int \<Rightarrow> emu \<Rightarrow> emu" where
  "handle_hart_stop h signal w =
     (let hid = hart_id (hart w h);
          w1 = w_sim_update (\<lambda>s. s\<lparr>sys_stop_hart := hid, sys_focus_hart := hid\<rparr>) w;
          w2 = w_ctx_update (\<lambda>c. c\<lparr>should_stop := True\<rparr>) w1
      in notify_stop signal (pc (hart w2 h)) w2)"

definition sigint_handler :: "emu \<Rightarrow> emu" where
  "sigint_handler w =
     (let w1 = w_sim_update (\<lambda>s. s\<lparr>g_interrupt_received := True\<rparr>) w in
      if connected (w_stub w1) then
        w_sim_update (\<lambda>s. s\<lparr>sys_stop_hart := sys_focus_hart s\<rparr>)
          (sys_halt_all (w_ctx_update (\<lambda>c. c\<lparr>should_stop := True\<rparr>) w1))
      else w1)"

subsection \<open>The callbacks\<close>

definition gdb_read_reg :: "emu \<Rightarrow> int \<Rightarrow> 32 word" where
  "gdb_read_reg w reg_num =
     (let cpu = hart w (focus w) in
      if reg_num \<ge> 0 \<and> reg_num < 32 then rv32_cpu_read_reg cpu reg_num
      else if reg_num = 32 then pc cpu else 0)"

definition gdb_write_reg :: "int \<Rightarrow> 32 word \<Rightarrow> emu \<Rightarrow> emu" where
  "gdb_write_reg reg_num v w =
     (if reg_num \<ge> 0 \<and> reg_num < 32 then upd_cpu (focus w) (rv32_cpu_write_reg reg_num v) w
      else if reg_num = 32 then upd_cpu (focus w) (pc_update (\<lambda>_. v)) w else w)"

definition gdb_read_mem :: "32 word \<Rightarrow> int \<Rightarrow> emu \<Rightarrow> 32 word \<times> emu" where
  "gdb_read_mem addr sz w = sys_read_mem addr sz w"

definition gdb_write_mem :: "32 word \<Rightarrow> 32 word \<Rightarrow> int \<Rightarrow> emu \<Rightarrow> emu" where
  "gdb_write_mem addr v sz w = sys_write_mem (focus w) addr v sz w"

definition gdb_get_pc :: "emu \<Rightarrow> 32 word" where
  "gdb_get_pc w = pc (hart w (focus w))"

definition gdb_set_pc :: "32 word \<Rightarrow> emu \<Rightarrow> emu" where
  "gdb_set_pc v w = upd_cpu (focus w) (pc_update (\<lambda>_. v)) w"

definition gdb_single_step :: "emu \<Rightarrow> emu" where
  "gdb_single_step w = sys_cpu_step (focus w) w"

definition gdb_is_running :: "emu \<Rightarrow> bool" where
  "gdb_is_running w = sys_any_running w"

definition gdb_reset :: "emu \<Rightarrow> emu" where
  "gdb_reset w =
     (let n = sys_num_harts (w_sim w);
          w1 = w_sim_update (\<lambda>s. s\<lparr>sys_sync := smp_sync_reset n\<rparr>) w;
          w2 = fold (\<lambda>h. upd_cpu h (\<lambda>c.
                 let c1 = rv32_cpu_reset c; c2 = c1\<lparr>regs := (regs c1)(4 := word_of_nat h)\<rparr>
                 in if h > 0 then smp_sync_init_worker_hart c2 else c2)) (hart_list w1) w1;
          w3 = on_mach (smp_sync_ram_init n) w2
      in w_sim_update (\<lambda>s. s\<lparr>sys_focus_hart := 0, sys_stop_hart := - 1\<rparr>) w3)"

definition gdb_resume :: "emu \<Rightarrow> emu" where
  "gdb_resume w = sys_resume_runnable w"

definition gdb_get_num_harts :: "emu \<Rightarrow> int" where
  "gdb_get_num_harts w = sys_num_harts (w_sim w)"

definition gdb_set_focus_hart :: "int \<Rightarrow> emu \<Rightarrow> emu" where
  "gdb_set_focus_hart h w =
     (if h \<ge> 0 \<and> h < sys_num_harts (w_sim w) then w_sim_update (\<lambda>s. s\<lparr>sys_focus_hart := h\<rparr>) w else w)"

definition gdb_get_focus_hart :: "emu \<Rightarrow> int" where
  "gdb_get_focus_hart w = sys_focus_hart (w_sim w)"

definition gdb_get_stop_hart :: "emu \<Rightarrow> int" where
  "gdb_get_stop_hart w = sys_stop_hart (w_sim w)"

definition gdb_halt_cpus :: "emu \<Rightarrow> emu" where
  "gdb_halt_cpus w = w_sim_update (\<lambda>s. s\<lparr>sys_stop_hart := sys_focus_hart s\<rparr>) (sys_halt_all w)"

definition emu_callbacks :: "(32, rv32_system) gdb_callbacks" where
  "emu_callbacks = \<lparr>cb_read_reg = gdb_read_reg, cb_write_reg = gdb_write_reg, cb_read_mem = gdb_read_mem,
     cb_write_mem = gdb_write_mem, cb_get_pc = gdb_get_pc, cb_set_pc = gdb_set_pc,
     cb_single_step = gdb_single_step, cb_is_running = gdb_is_running, cb_reset = Some gdb_reset,
     cb_resume = Some gdb_resume, cb_get_num_harts = Some gdb_get_num_harts,
     cb_set_focus_hart = Some gdb_set_focus_hart, cb_get_focus_hart = Some gdb_get_focus_hart,
     cb_get_stop_hart = Some gdb_get_stop_hart, cb_halt_cpus = Some gdb_halt_cpus\<rparr>"

subsection \<open>The watchpoint hooks\<close>

definition gdb_watchpoint_read :: "dbg check_fn" where
  "gdb_watchpoint_read hid addr len e =
     (if \<not> connected (stub (d_ctx e)) then (False, e)
      else let (hit, ctx) = gdb_stub_check_watchpoint_read addr len (d_ctx e) in
        if hit then (True, e\<lparr>d_ctx := ctx, d_stop_hart := hid\<rparr>) else (False, e\<lparr>d_ctx := ctx\<rparr>))"

definition gdb_watchpoint_write :: "dbg check_fn" where
  "gdb_watchpoint_write hid addr len e =
     (if \<not> connected (stub (d_ctx e)) then (False, e)
      else let (hit, ctx) = gdb_stub_check_watchpoint_write addr len (d_ctx e) in
        if hit then (True, e\<lparr>d_ctx := ctx, d_stop_hart := hid\<rparr>) else (False, e\<lparr>d_ctx := ctx\<rparr>))"

definition setup_hart_watchpoints :: "nat \<Rightarrow> dbg rv32_cpu \<Rightarrow> dbg rv32_cpu" where
  "setup_hart_watchpoints h cpu = cpu\<lparr>watchpoint_ctx := h,
     check_watchpoint_read := Some gdb_watchpoint_read, check_watchpoint_write := Some gdb_watchpoint_write\<rparr>"

subsection \<open>Start\<close>

definition test_program :: "32 word list" where
  "test_program = [0x800002b7, 0x00000313, 0x00500393, 0x80001437, 0x00040413, 0x00642023, 0x00042e03,
     0x00130313, 0x00731463, 0xff1ff06f, 0x00642223, 0x0000006f]"

text \<open>\<open>memcpy\<close> of the worker code to its place in the memory of hart 0.\<close>

definition copy_worker_code :: "dbg mach \<Rightarrow> dbg mach" where
  "copy_worker_code m =
     (let bs = code_bytes smp_worker_code; off = unat (SMP_WORKER_WAIT - RAM_BASE) in
      upd_hart 0 (memory_update (\<lambda>r i. if off \<le> i \<and> i < off + length bs then bs ! (i - off) else r i)) m)"

definition create_test_program :: "int \<Rightarrow> dbg mach \<Rightarrow> dbg mach" where
  "create_test_program n m =
     (let m1 = snd (rv32_cpu_load_program 0 (code_bytes test_program) RAM_BASE m);
          m2 = smp_sync_ram_init n (copy_worker_code m1)
      in fold (\<lambda>h. upd_hart h smp_sync_init_worker_hart) [1..<nat n] m2)"

definition init_hart :: "nat \<Rightarrow> dbg rv32_cpu" where
  "init_hart h =
     (let c = rv32_cpu_init in setup_hart_watchpoints h
        (c\<lparr>hart_id := int h, regs := (regs c)(4 := word_of_nat h),
           shared_ram := (if h > 0 then Some 0 else shared_ram c)\<rparr>))"

text \<open>The harts beyond the number in use stay zero.\<close>

definition zero_cpu :: "dbg rv32_cpu" where
  "zero_cpu = \<lparr>regs = \<lambda>_. 0, pc = 0, memory = \<lambda>_. 0, shared_ram = None, hart_id = 0, running = False,
     single_step_mode = False, halted = False, instruction_count = 0, watchpoint_ctx = 0,
     check_watchpoint_read = None, check_watchpoint_write = None\<rparr>"

definition init_system :: "int \<Rightarrow> rv32_system" where
  "init_system num_harts0 =
     (let n = (if valid_hart_count num_harts0 then num_harts0 else 1);
          m0 = \<lparr>harts = (\<lambda>h. if h < nat n then init_hart h else zero_cpu), stdout = [],
                env = \<lparr>d_ctx = zero_context, d_stop_hart = - 1\<rparr>\<rparr>;
          m1 = create_test_program n m0
      in \<lparr>sys_harts = harts m1, sys_stdout = stdout m1, sys_sync = smp_sync_reset n, sys_num_harts = n,
          sys_focus_hart = 0, sys_stop_hart = - 1, g_interrupt_received = False\<rparr>)"

subsection \<open>Stepping and continuing\<close>

definition should_step_hart :: "nat \<Rightarrow> bool \<Rightarrow> emu \<Rightarrow> bool" where
  "should_step_hart h step_mode w =
     (if \<not> gdb_stub_should_run_thread (w_ctx w) (sys_thread_id (int h)) then False
      else if sys_num_harts (w_sim w) = 1 then True
      else if step_mode then int h = sys_focus_hart (w_sim w)
      else if continue_thread (w_ctx w) < 0 then
        (if h = 0 then True else smp_sync_worker_should_run (sys_num_harts (w_sim w)) (int h) (to_mach w))
      else continue_thread (w_ctx w) = sys_thread_id (int h))"

text \<open>\<open>debug_mode\<close> prints the instruction, which it reads like the processor does.\<close>

definition show_instruction :: "nat \<Rightarrow> emu \<Rightarrow> emu" where
  "show_instruction h w =
     (let (instruction, m) = rv32_cpu_read_mem h (pc (hart w h)) 4 (to_mach w); v = of_mach m w
      in print_out (executing_text (hart v h) instruction) v)"

definition step_focus_hart :: "bool \<Rightarrow> emu \<Rightarrow> emu" where
  "step_focus_hart debug_mode w =
     (let h = focus w; tid = sys_thread_id (hart_id (hart w h)) in
      if \<not> gdb_stub_should_run_thread (w_ctx w) tid then
        snd (gdb_stub_send_stop_reason 0 (pc (hart w h)) (w_ctx_update (gdb_stub_set_stop_thread tid) w))
      else
        let w1 = (if debug_mode then show_instruction h w else w);
            (hit, ctx) = gdb_stub_check_breakpoint (pc (hart w1 h)) (w_ctx w1);
            w2 = w1\<lparr>w_ctx := ctx\<rparr> in
        if hit then handle_hart_stop h 5 (w_ctx_update (\<lambda>c. c\<lparr>should_stop := True\<rparr>) w2)
        else
          let w3 = w_ctx_update (\<lambda>c. c\<lparr>should_stop := True, single_step := False\<rparr>) (sys_cpu_step h w2) in
          if halted (hart w3 h) then handle_hart_stop h 5 w3
          else if \<not> running (hart w3 h) then handle_hart_stop h 4 w3
          else handle_hart_stop h 5 w3)"

text \<open>
  With \<open>debug_mode\<close>, a line before every thousandth instruction of a hart; an instruction of a
  continue.
\<close>

definition show_progress :: "bool \<Rightarrow> nat \<Rightarrow> emu \<Rightarrow> emu" where
  "show_progress debug_mode h w =
     (if debug_mode \<and> instruction_count (hart w h) mod 1000 = 0 then print_out (progress_text h (hart w h)) w
      else w)"

definition continue_step :: "bool \<Rightarrow> nat \<Rightarrow> emu \<Rightarrow> emu" where
  "continue_step debug_mode h w = sys_cpu_step h (show_progress debug_mode h w)"

text \<open>One round over the harts: has a stop been reported?\<close>

fun run_harts :: "bool \<Rightarrow> nat list \<Rightarrow> emu \<Rightarrow> bool \<times> emu" where
  "run_harts debug_mode [] w = (False, w)"
| "run_harts debug_mode (h # hs) w =
     (if \<not> should_step_hart h False w then run_harts debug_mode hs w
      else if \<not> running (hart w h) \<or> halted (hart w h) then run_harts debug_mode hs w
      else
        let (hit, ctx) = gdb_stub_check_breakpoint (pc (hart w h)) (w_ctx w);
            w1 = w\<lparr>w_ctx := ctx\<rparr> in
        if hit then (True, handle_hart_stop h 5 w1)
        else
          let w2 = continue_step debug_mode h w1 in
          if halted (hart w2 h) then (True, handle_hart_stop h 5 w2)
          else if \<not> running (hart w2 h) then (True, handle_hart_stop h 4 w2)
          else run_harts debug_mode hs w2)"

text \<open>
  What happens at the poll of the connection after a round: nothing, the client has sent
  something, or SIGINT has arrived meanwhile. The loop is run for as many rounds as there
  are polls; None says that it is still running after them.
\<close>

datatype poll = Quiet | Client_data | Sigint

fun continue_loop :: "bool \<Rightarrow> poll list \<Rightarrow> emu \<Rightarrow> (bool \<times> emu) option" where
  "continue_loop debug_mode polls w =
     (if sys_any_running w \<and> \<not> should_stop (w_ctx w) \<and> \<not> g_interrupt_received (w_sim w) then
        let (stop_sent, w1) = run_harts debug_mode (hart_list w) w in
        if stop_sent then Some (True, w1)
        else (case polls of
            [] \<Rightarrow> None
          | Quiet # ps \<Rightarrow> continue_loop debug_mode ps w1
          | Sigint # ps \<Rightarrow> continue_loop debug_mode ps (sigint_handler w1)
          | Client_data # ps \<Rightarrow> Some (False, w_ctx_update (\<lambda>c. c\<lparr>should_stop := True\<rparr>) w1))
      else Some (False, w))"

declare continue_loop.simps [simp del]

definition continue_all_harts :: "bool \<Rightarrow> poll list \<Rightarrow> emu \<Rightarrow> (bool \<times> emu) option" where
  "continue_all_harts debug_mode polls w = do {
     (stop_sent, w1) \<leftarrow> continue_loop debug_mode polls w;
     Some (if \<not> stop_sent \<and> \<not> sys_any_running w1 then
        (let w2 = w_ctx_update (\<lambda>c. c\<lparr>should_stop := True\<rparr>) w1
         in (True, print_out (text_line ''CPU halted'') (notify_stop 4 (pc (hart w2 (focus w2))) w2)))
      else if \<not> stop_sent \<and> g_interrupt_received (w_sim w1) then
        (let w2 = w_ctx_update (\<lambda>c. c\<lparr>should_stop := True\<rparr>)
               (w_sim_update (\<lambda>s. s\<lparr>g_interrupt_received := False\<rparr>) w1)
         in (True, print_out (text_line ''Execution interrupted'') (notify_stop 2 (pc (hart w2 (focus w2))) w2)))
      else if \<not> stop_sent \<and> should_stop (w_ctx w1) then
        (True, notify_stop 2 (pc (hart w1 (focus w1))) w1)
      else (stop_sent, w1)) }"

text \<open>
  The prompt of interactive mode and the answer to the \<open>line\<close> typed there, if there is one;
  whether the loop goes on.
\<close>

definition console_prompt :: "string option \<Rightarrow> emu \<Rightarrow> bool \<times> emu" where
  "console_prompt line w =
     (let h = focus w; w1 = print_out (prompt_text (hart w h)) w in
      case line of
        Some (c # _) \<Rightarrow>
          if c = CHR ''q'' then (False, w1)
          else if c = CHR ''r'' then (True, print_out (rv32_cpu_print_state (hart w1 h)) w1)
          else (True, w1)
      | _ \<Rightarrow> (True, w1))"

text \<open>
  One turn of the main loop: the locals \<open>running\<close> (or the \<open>break\<close>) and
  \<open>cpu_was_running\<close> after it, and the world.
\<close>

definition main_turn :: "bool \<Rightarrow> bool \<Rightarrow> string option \<Rightarrow> poll list \<Rightarrow> bool \<Rightarrow> emu \<Rightarrow> (bool \<times> bool \<times> emu) option" where
  "main_turn debug_mode interactive_mode line polls cpu_was_running w = do {
     (gdb_result, w1) \<leftarrow> gdb_stub_process emu_callbacks w;
     if gdb_result < 0 then Some (False, cpu_was_running, w1)
     else do {
       (was_running, w3) \<leftarrow>
         (if gdb_result = 1 then
            let w2 = sys_resume_runnable w1 in
            if single_step (w_ctx w2) then Some (True, step_focus_hart debug_mode w2)
            else map_option (\<lambda>(_, w3). (True, w3)) (continue_all_harts debug_mode polls w2)
          else Some (cpu_was_running, w1));
       let (go_on, w4) = (if interactive_mode \<and> was_running \<and> should_stop (w_ctx w3) then console_prompt line w3
                          else (True, w3)) in
       Some (go_on, was_running, w4) } }"

text \<open>
  From the start of \<open>main\<close> to its loop: \<open>sock\<close>, \<open>bind_result\<close>,
  \<open>listen_result\<close> and \<open>fd\<close> are the results of the socket calls, \<open>client\<close> the address that
  \<open>accept\<close> gives. \<open>Inl\<close> is what was printed by a \<open>main\<close> that returned an error.
\<close>

definition main_start :: "16 word \<Rightarrow> int \<Rightarrow> int \<Rightarrow> int \<Rightarrow> int \<Rightarrow> int \<Rightarrow> string \<times> 16 word \<Rightarrow> string + emu" where
  "main_start gdb_port harts0 sock bind_result listen_result fd client =
     (let s = init_system harts0; n = sys_num_harts s;
          (r, closed, out, ctx) = gdb_stub_init gdb_port sock bind_result listen_result in
      if r < 0 then Inl (banner_text @ loaded_text n @ out)
      else let (r2, out2, ctx2) = gdb_stub_accept fd client ctx in
        if r2 < 0 then Inl (banner_text @ loaded_text n @ out @ out2)
        else Inr \<lparr>w_ctx = ctx2, w_link = \<lparr>rx = [], tx = [], wsched = []\<rparr>,
          w_sim = s\<lparr>sys_stdout := banner_text @ loaded_text n @ out @ out2 @ connected_text n\<rparr>\<rparr>)"

subsection \<open>The invariant of the system\<close>

text \<open>
  The number of harts is one of the four allowed, the hart in focus is one of them, every
  hart is still wired as \<open>init_system\<close> wired it, and nothing was written to register 0 of a hart
  or outside its arrays.
\<close>

definition sys_ok :: "rv32_system \<Rightarrow> bool" where
  "sys_ok s = (valid_hart_count (sys_num_harts s) \<and> 0 \<le> sys_focus_hart s \<and>
     sys_focus_hart s < sys_num_harts s \<and>
     (\<forall>h. config (sys_harts s h) = config (if h < nat (sys_num_harts s) then init_hart h else zero_cpu)))"

definition dbg_ok :: "dbg \<Rightarrow> bool" where
  "dbg_ok e = stub_inv (d_ctx e)"

abbreviation emu_ok :: "emu \<Rightarrow> bool" where
  "emu_ok w \<equiv> good (\<lambda>s _. sys_ok s) w"

lemma init_hart_wiring:
  "shared_ram (init_hart h) = (if h > 0 then Some 0 else None)" "hart_id (init_hart h) = int h"
  "watchpoint_ctx (init_hart h) = h" "check_watchpoint_read (init_hart h) = Some gdb_watchpoint_read"
  "check_watchpoint_write (init_hart h) = Some gdb_watchpoint_write"
  by (simp_all add: init_hart_def setup_hart_watchpoints_def rv32_cpu_init_def Let_def)

lemma edges_init [simp]: "edges (init_hart h) = (\<lambda>_. 0, \<lambda>_. 0)" "edges zero_cpu = (\<lambda>_. 0, \<lambda>_. 0)"
  by (simp_all add: edges_def init_hart_def setup_hart_watchpoints_def rv32_cpu_init_def zero_cpu_def Let_def fun_eq_iff)

lemma sys_edges:
  assumes "sys_ok s"
  shows "i = 0 \<or> 32 \<le> i \<Longrightarrow> regs (sys_harts s h) i = 0" "0x10000 \<le> j \<Longrightarrow> memory (sys_harts s h) j = 0"
proof -
  have "config (sys_harts s h) = config (if h < nat (sys_num_harts s) then init_hart h else zero_cpu)"
    using assms by (simp add: sys_ok_def)
  then have "edges (sys_harts s h) = (\<lambda>_. 0, \<lambda>_. 0)" by (simp add: config_eq_iff split: if_splits)
  then have "fst (edges (sys_harts s h)) i = 0" "snd (edges (sys_harts s h)) j = 0" by simp_all
  then show "i = 0 \<or> 32 \<le> i \<Longrightarrow> regs (sys_harts s h) i = 0" "0x10000 \<le> j \<Longrightarrow> memory (sys_harts s h) j = 0"
    unfolding edges_def by simp_all
qed

lemma sys_num_bound: "sys_ok s \<Longrightarrow> sys_num_harts s \<le> 8"
  by (auto simp: sys_ok_def valid_hart_count_def)

lemma emu_wiring:
  assumes "emu_ok w" "h < nat (sys_num_harts (w_sim w))"
  shows "shared_ram (hart w h) = (if h > 0 then Some 0 else None)" "hart_id (hart w h) = int h"
    "check_watchpoint_read (hart w h) = Some gdb_watchpoint_read"
    "check_watchpoint_write (hart w h) = Some gdb_watchpoint_write" "watchpoint_ctx (hart w h) = h"
proof -
  have "config (hart w h) = config (init_hart h)" using assms by (simp add: good_def sys_ok_def)
  then show "shared_ram (hart w h) = (if h > 0 then Some 0 else None)" "hart_id (hart w h) = int h"
    "check_watchpoint_read (hart w h) = Some gdb_watchpoint_read"
    "check_watchpoint_write (hart w h) = Some gdb_watchpoint_write" "watchpoint_ctx (hart w h) = h"
    by (simp_all add: config_eq_iff init_hart_wiring)
qed

lemma emu_focus:
  assumes "emu_ok w"
  shows "focus w < nat (sys_num_harts (w_sim w))" "0 < nat (sys_num_harts (w_sim w))"
  using assms by (auto simp: good_def sys_ok_def)

lemma emu_ram:
  assumes "emu_ok w" "h < nat (sys_num_harts (w_sim w))"
  shows "rv32_cpu_ram h (to_mach w) = 0"
  using emu_wiring(1) [OF assms] by (simp add: rv32_cpu_ram_def to_mach_def)

lemma hooks_keepI:
  assumes "emu_ok w" "\<And>i a l e. P e \<Longrightarrow> P (snd (gdb_watchpoint_read i a l e)) \<and> P (snd (gdb_watchpoint_write i a l e))"
  shows "hooks_keep P (to_mach w)"
proof -
  have c: "config (hart w h) = config (if h < nat (sys_num_harts (w_sim w)) then init_hart h else zero_cpu)" for h
    using assms(1) by (simp add: good_def sys_ok_def)
  have "check_watchpoint_read (hart w h) = None \<or> check_watchpoint_read (hart w h) = Some gdb_watchpoint_read"
    "check_watchpoint_write (hart w h) = None \<or> check_watchpoint_write (hart w h) = Some gdb_watchpoint_write" for h
    using c [of h] by (auto simp: config_eq_iff init_hart_wiring zero_cpu_def split: if_splits)
  then have "f = gdb_watchpoint_read \<or> f = gdb_watchpoint_write"
    if "check_watchpoint_read (hart w h) = Some f \<or> check_watchpoint_write (hart w h) = Some f" for h f
    using that by (metis option.distinct(1) option.inject)
  then show ?thesis using assms(2) unfolding hooks_keep_def to_mach_def by (simp del: split_paired_All) blast
qed

lemma hooks_keep_ok: "emu_ok w \<Longrightarrow> hooks_keep dbg_ok (to_mach w)"
  by (rule hooks_keepI)
    (simp_all add: dbg_ok_def gdb_watchpoint_read_def gdb_watchpoint_write_def case_prod_beta Let_def)

lemma of_mach_ok:
  assumes "emu_ok w" "confined dbg_ok (to_mach w) m"
  shows "emu_ok (of_mach m w)"
  using assms hooks_keep_ok [OF assms(1)]
  by (auto simp: confined_def good_def sys_ok_def of_mach_def to_mach_def dbg_ok_def)

lemma on_mach_ok: "emu_ok w \<Longrightarrow> (\<And>m. confined dbg_ok m (f m)) \<Longrightarrow> emu_ok (on_mach f w)"
  by (simp add: on_mach_def of_mach_ok)

lemma print_out_simps [simp]:
  "w_ctx (print_out s w) = w_ctx w" "w_link (print_out s w) = w_link w" "hart (print_out s w) = hart w"
  "sys_num_harts (w_sim (print_out s w)) = sys_num_harts (w_sim w)"
  "sys_focus_hart (w_sim (print_out s w)) = sys_focus_hart (w_sim w)"
  "sys_stop_hart (w_sim (print_out s w)) = sys_stop_hart (w_sim w)"
  "sys_sync (w_sim (print_out s w)) = sys_sync (w_sim w)"
  "g_interrupt_received (w_sim (print_out s w)) = g_interrupt_received (w_sim w)"
  "sys_stdout (w_sim (print_out s w)) = sys_stdout (w_sim w) @ s"
  "emu_ok (print_out s w) = emu_ok w" "sys_any_running (print_out s w) = sys_any_running w"
  by (simp_all add: print_out_def good_def sys_ok_def sys_any_running_def)

lemma print_out_twice: "print_out t (print_out s w) = print_out (s @ t) w" "print_out [] w = w"
  by (cases w; simp add: print_out_def)+

lemma show_progress_out: "\<exists>s. show_progress d h w = print_out s w"
  by (auto simp: show_progress_def print_out_twice(2) intro: exI [of _ "[]"])

lemma show_progress_simps [simp]:
  "w_ctx (show_progress d h w) = w_ctx w" "w_link (show_progress d h w) = w_link w"
  "hart (show_progress d h w) = hart w"
  "sys_num_harts (w_sim (show_progress d h w)) = sys_num_harts (w_sim w)"
  "sys_focus_hart (w_sim (show_progress d h w)) = sys_focus_hart (w_sim w)"
  "sys_sync (w_sim (show_progress d h w)) = sys_sync (w_sim w)"
  "g_interrupt_received (w_sim (show_progress d h w)) = g_interrupt_received (w_sim w)"
  "emu_ok (show_progress d h w) = emu_ok w" "show_progress False h w = w"
  by (simp_all add: show_progress_def)

lemma console_prompt_out: "console_prompt line w = (go, w') \<Longrightarrow> \<exists>s. w' = print_out s w"
  by (auto simp: console_prompt_def Let_def print_out_twice split: option.splits list.splits if_splits)

text \<open>A turn ends with something printed, or nothing.\<close>

lemma turn_end:
  "\<exists>go s. (if interactive_mode then console_prompt line w else (True, w)) = (go, print_out s w)"
  using console_prompt_out [of line w] print_out_twice(2) [of w, symmetric]
  by (cases "console_prompt line w") (auto intro: exI [of _ "[]"])

lemma upd_cpu_ok: "emu_ok w \<Longrightarrow> config (f (hart w h)) = config (hart w h) \<Longrightarrow> emu_ok (upd_cpu h f w)"
  by (simp add: good_def sys_ok_def upd_cpu_def)

lemma fold_ok: "emu_ok w \<Longrightarrow> (\<And>x w. emu_ok w \<Longrightarrow> emu_ok (f x w)) \<Longrightarrow> emu_ok (fold f xs w)"
  by (induction xs arbitrary: w) auto

lemma sys_read_mem_ok: "emu_ok w \<Longrightarrow> emu_ok (snd (sys_read_mem a n w))"
  using of_mach_ok [OF _ confined_read_mem [of dbg_ok "to_mach w" 0 a n]]
  by (auto simp: sys_read_mem_def split: prod.split)

lemma sys_write_mem_ok: "emu_ok w \<Longrightarrow> emu_ok (sys_write_mem src a v n w)"
proof -
  assume w: "emu_ok w"
  obtain b m where m: "smp_sync_handle_mmio (sys_num_harts (w_sim w)) a v n (to_mach w) = (b, m)" by fastforce
  then have "confined dbg_ok (to_mach w) m"
    using confined_mmio(1) [of "sys_num_harts (w_sim w)" dbg_ok "to_mach w" a v n] sys_num_bound w
    by (simp add: good_def)
  with w show ?thesis
    by (auto simp: sys_write_mem_def m intro!: of_mach_ok elim: confined_trans [OF _ confined_mmio(2)]
        confined_trans [OF _ confined_write_mem])
qed

lemma sys_cpu_step_ok: "emu_ok w \<Longrightarrow> emu_ok (sys_cpu_step h w)"
proof -
  assume "emu_ok w"
  then have s: "emu_ok (on_mach (rv32_cpu_step h) w)" by (rule on_mach_ok [OF _ confined_step])
  then have "sys_num_harts (w_sim (on_mach (rv32_cpu_step h) w)) \<le> 8" by (simp add: good_def sys_num_bound)
  with s show ?thesis
    unfolding sys_cpu_step_def sys_post_step_def by (auto simp: Let_def intro: on_mach_ok confined_mmio(3))
qed

lemma continue_step_ok: "emu_ok w \<Longrightarrow> emu_ok (continue_step d h w)"
  by (simp add: continue_step_def sys_cpu_step_ok)

lemma halt_resume_ok:
  assumes "emu_ok w"
  shows "emu_ok (sys_halt_all w)" "emu_ok (sys_resume_runnable w)"
  using assms unfolding sys_halt_all_def sys_resume_runnable_def
  by (auto intro!: fold_ok upd_cpu_ok)

lemma sim_ok:
  assumes "emu_ok w"
  shows "emu_ok (w_sim_update (\<lambda>s. s\<lparr>sys_stop_hart := f s\<rparr>) w)"
    "emu_ok (w_sim_update (\<lambda>s. s\<lparr>sys_sync := y\<rparr>) w)"
    "emu_ok (w_sim_update (\<lambda>s. s\<lparr>g_interrupt_received := b\<rparr>) w)"
    "0 \<le> k \<Longrightarrow> k < sys_num_harts (w_sim w) \<Longrightarrow> emu_ok (w_sim_update (\<lambda>s. s\<lparr>sys_focus_hart := k\<rparr>) w)"
    "0 \<le> k \<Longrightarrow> k < sys_num_harts (w_sim w) \<Longrightarrow>
      emu_ok (w_sim_update (\<lambda>s. s\<lparr>sys_stop_hart := f s, sys_focus_hart := k\<rparr>) w)"
  using assms by (simp_all add: good_def sys_ok_def)

lemma gdb_reset_ok: "emu_ok w \<Longrightarrow> emu_ok (gdb_reset w)"
proof -
  assume w: "emu_ok w"
  define n where "n = sys_num_harts (w_sim w)"
  have n: "0 < n" using w by (auto simp: n_def good_def sys_ok_def)
  define w1 where "w1 = w_sim_update (\<lambda>s. s\<lparr>sys_sync := smp_sync_reset n\<rparr>) w"
  define f where "f = (\<lambda>h. upd_cpu h (\<lambda>c. let c1 = rv32_cpu_reset c; c2 = c1\<lparr>regs := (regs c1)(4 := word_of_nat h)\<rparr>
      in if h > 0 then smp_sync_init_worker_hart c2 else c2))"
  have f: "emu_ok (f h v) \<and> sys_num_harts (w_sim (f h v)) = n"
    if "emu_ok v \<and> sys_num_harts (w_sim v) = n" for h v
    using that sys_edges(1) [of "w_sim v"] unfolding f_def
    by (intro conjI upd_cpu_ok)
      (simp_all add: good_def Let_def smp_sync_init_worker_hart_def config_eq_iff edges_eq_iff rv32_cpu_reset_def,
       simp_all add: upd_cpu_def)
  have "emu_ok w1 \<and> sys_num_harts (w_sim w1) = n" using w sim_ok(2) by (simp add: w1_def n_def)
  then have "emu_ok (fold f hs w1) \<and> sys_num_harts (w_sim (fold f hs w1)) = n" for hs
    using f by (induction hs arbitrary: w1) auto
  then have "emu_ok (on_mach (smp_sync_ram_init n) (fold f (hart_list w1) w1))
      \<and> sys_num_harts (w_sim (on_mach (smp_sync_ram_init n) (fold f (hart_list w1) w1))) = n"
    by (intro conjI on_mach_ok) (auto simp: confined_ram_init, simp add: on_mach_def of_mach_def)
  then have "emu_ok (w_sim_update (\<lambda>s. s\<lparr>sys_focus_hart := 0, sys_stop_hart := - 1\<rparr>)
      (on_mach (smp_sync_ram_init n) (fold f (hart_list w1) w1)))"
    using n by (auto simp: good_def sys_ok_def)
  then show ?thesis
    unfolding gdb_reset_def Let_def f_def w1_def n_def .
qed

text \<open>The emulator's callbacks keep the invariant, so the whole protocol does.\<close>

interpretation emu: stub_callbacks emu_callbacks "\<lambda>s _. sys_ok s"
proof
  show "sys_ok s \<Longrightarrow> speaks l l' \<Longrightarrow> sys_ok s" for s l l' .
next
  fix w :: emu
  assume w: "emu_ok w"
  show "emu_ok (cb_write_reg emu_callbacks i v w)" for i v
    using w by (simp add: emu_callbacks_def gdb_write_reg_def upd_cpu_ok)
  show "emu_ok (snd (cb_read_mem emu_callbacks a n w))" for a n
    using w by (simp add: emu_callbacks_def gdb_read_mem_def sys_read_mem_ok)
  show "emu_ok (cb_write_mem emu_callbacks a v n w)" for a v n
    using w by (simp add: emu_callbacks_def gdb_write_mem_def sys_write_mem_ok)
  show "emu_ok (cb_set_pc emu_callbacks v w)" for v
    using w by (simp add: emu_callbacks_def gdb_set_pc_def upd_cpu_ok)
  show "emu_ok (f w)" if "cb_reset emu_callbacks = Some f" for f
    using that w gdb_reset_ok by (auto simp: emu_callbacks_def)
  show "emu_ok (f w)" if "cb_resume emu_callbacks = Some f" for f
    using that w halt_resume_ok by (auto simp: emu_callbacks_def gdb_resume_def)
  show "emu_ok (g h w)" if "cb_set_focus_hart emu_callbacks = Some g" for g h
    using that w sim_ok(4) by (auto simp: emu_callbacks_def gdb_set_focus_hart_def)
  show "emu_ok (f w)" if "cb_halt_cpus emu_callbacks = Some f" for f
    using that w by (auto simp: emu_callbacks_def gdb_halt_cpus_def intro: sim_ok halt_resume_ok)
qed

subsection \<open>Stepping and continuing keep the invariant\<close>

lemma notify_stop_ok [simp]: "emu_ok w \<Longrightarrow> emu_ok (notify_stop signal a w)"
  unfolding notify_stop_def Let_def good_frames by (intro good_upd_ctx stub_inv_tables) auto

lemma handle_hart_stop_ok:
  assumes "emu_ok w" "h < nat (sys_num_harts (w_sim w))"
  shows "emu_ok (handle_hart_stop h signal w)"
proof -
  have h: "hart_id (hart w h) = int h" by (rule emu_wiring(2) [OF assms])
  have "emu_ok (w_sim_update (\<lambda>s. s\<lparr>sys_stop_hart := int h, sys_focus_hart := int h\<rparr>) w)"
    using sim_ok(5) [OF assms(1), of "int h" "\<lambda>_. int h"] assms(2) by simp
  then have "emu_ok (w_ctx_update (\<lambda>c. c\<lparr>should_stop := True\<rparr>)
      (w_sim_update (\<lambda>s. s\<lparr>sys_stop_hart := int h, sys_focus_hart := int h\<rparr>) w))"
    by (rule good_upd_ctx) simp
  then show ?thesis
    unfolding handle_hart_stop_def Let_def h by (rule notify_stop_ok)
qed

lemma step_num_harts [simp]:
  "sys_num_harts (w_sim (of_mach m w)) = sys_num_harts (w_sim w)"
  "sys_num_harts (w_sim (on_mach f w)) = sys_num_harts (w_sim w)"
  "sys_num_harts (w_sim (sys_cpu_step h w)) = sys_num_harts (w_sim w)"
  "sys_num_harts (w_sim (upd_cpu h g w)) = sys_num_harts (w_sim w)"
  "sys_num_harts (w_sim (continue_step d h w)) = sys_num_harts (w_sim w)"
  by (simp_all add: of_mach_def on_mach_def continue_step_def sys_cpu_step_def sys_post_step_def upd_cpu_def)

lemma check_breakpoint_ok:
  "emu_ok w \<Longrightarrow> gdb_stub_check_breakpoint a (w_ctx w) = (hit, ctx) \<Longrightarrow> emu_ok (w\<lparr>w_ctx := ctx\<rparr>)"
  using stub_inv_tables(7) [of "w_ctx w" a] by (simp add: good_def)

lemma step_focus_hart_ok: "emu_ok w \<Longrightarrow> emu_ok (step_focus_hart debug_mode w)"
proof -
  assume w: "emu_ok w"
  define w1 where "w1 = (if debug_mode then show_instruction (focus w) w else w)"
  have w1: "emu_ok w1" "sys_num_harts (w_sim w1) = sys_num_harts (w_sim w)"
    using w of_mach_ok [OF w confined_read_mem] by (simp_all add: w1_def show_instruction_def Let_def case_prod_beta)
  obtain hit ctx where c: "gdb_stub_check_breakpoint (pc (hart w1 (focus w))) (w_ctx w1) = (hit, ctx)" by fastforce
  have w2: "emu_ok (w1\<lparr>w_ctx := ctx\<rparr>)" by (rule check_breakpoint_ok [OF w1(1) c])
  have stop: "emu_ok (handle_hart_stop (focus w) s (w_ctx_update f v))"
    if "emu_ok v" "\<And>c. stub_inv c \<Longrightarrow> stub_inv (f c)" "sys_num_harts (w_sim v) = sys_num_harts (w_sim w)" for f s v
    using that emu_focus(1) [OF w] by (intro handle_hart_stop_ok good_upd_ctx) simp_all
  have w3: "emu_ok (sys_cpu_step (focus w) (w1\<lparr>w_ctx := ctx\<rparr>))" by (rule sys_cpu_step_ok [OF w2])
  have "emu_ok (snd (gdb_stub_send_stop_reason 0 a (w_ctx_update (gdb_stub_set_stop_thread tid) w)))" for a tid
    unfolding good_frames by (intro good_upd_ctx stub_inv_tables w) auto
  then show ?thesis
    unfolding step_focus_hart_def Let_def w1_def [symmetric] c prod.case
    using stop [OF w2, of "\<lambda>c. c\<lparr>should_stop := True\<rparr>" 5] w1(2)
      stop [OF w3, of "\<lambda>c. c\<lparr>should_stop := True, single_step := False\<rparr>"]
    by (simp split: if_split)
qed

lemma run_harts_ok:
  "run_harts d hs w = (stop, w') \<Longrightarrow> emu_ok w \<Longrightarrow> \<forall>h \<in> set hs. h < nat (sys_num_harts (w_sim w)) \<Longrightarrow> emu_ok w'"
proof (induction d hs w rule: run_harts.induct)
  case (2 d h hs w)
  show ?case
  proof (cases "should_step_hart h False w \<and> running (hart w h) \<and> \<not> halted (hart w h)")
    case True
    obtain hit ctx where c: "gdb_stub_check_breakpoint (pc (hart w h)) (w_ctx w) = (hit, ctx)" by fastforce
    let ?w1 = "w\<lparr>w_ctx := ctx\<rparr>"
    have w1: "emu_ok ?w1" by (rule check_breakpoint_ok [OF "2.prems"(2) c])
    have w2: "emu_ok (continue_step d h ?w1)" by (rule continue_step_ok [OF w1])
    have ih: "run_harts d hs (continue_step d h ?w1) = (stop, w') \<Longrightarrow> \<not> hit \<Longrightarrow>
        \<not> halted (hart (continue_step d h ?w1) h) \<Longrightarrow> running (hart (continue_step d h ?w1) h) \<Longrightarrow> emu_ok w'"
      using "2.IH"(3) True c w2 "2.prems"(3) by simp
    have "emu_ok (handle_hart_stop h sig ?w1)" "emu_ok (handle_hart_stop h sig (continue_step d h ?w1))" for sig
      using w1 w2 "2.prems"(3) by (simp_all add: handle_hart_stop_ok)
    with ih show ?thesis using "2.prems"(1) True c by (auto simp: Let_def split: if_splits)
  qed (use 2 in \<open>auto split: if_splits\<close>)
qed simp

lemma run_harts_num [simp]: "sys_num_harts (w_sim (snd (run_harts d hs w))) = sys_num_harts (w_sim w)"
  by (induction d hs w rule: run_harts.induct)
    (simp_all add: Let_def handle_hart_stop_def notify_stop_def send_stop_reason_frames split: prod.split)

lemma sigint_handler_ok: "emu_ok w \<Longrightarrow> emu_ok (sigint_handler w)"
  unfolding sigint_handler_def Let_def
  by (cases "connected (w_stub (w_sim_update (\<lambda>s. s\<lparr>g_interrupt_received := True\<rparr>) w))")
    (simp_all only: if_True if_False, (intro sim_ok halt_resume_ok good_upd_ctx; simp)+)

lemma continue_loop_ok:
  "continue_loop d polls w = Some (stop, w') \<Longrightarrow> emu_ok w \<Longrightarrow> emu_ok w'"
proof (induction d polls w rule: continue_loop.induct)
  case (1 d polls w)
  show ?case
  proof (cases "sys_any_running w \<and> \<not> should_stop (w_ctx w) \<and> \<not> g_interrupt_received (w_sim w)")
    case True
    obtain sent w1 where r: "run_harts d (hart_list w) w = (sent, w1)" by fastforce
    have w1: "emu_ok w1" by (rule run_harts_ok [OF r "1.prems"(2)]) simp
    have c: "emu_ok (w_ctx_update (\<lambda>c. c\<lparr>should_stop := True\<rparr>) w1)"
      using w1 by (rule good_upd_ctx) simp
    note s = sigint_handler_ok [OF w1]
    show ?thesis
      using "1.prems"(1) w1 c s "1.IH"(1) [OF True r [symmetric]] "1.IH"(2) [OF True r [symmetric]]
      by (subst (asm) continue_loop.simps) (use True in \<open>auto simp: r split: if_splits list.splits poll.splits\<close>)
  qed (use 1 in \<open>auto simp: continue_loop.simps\<close>)
qed

lemma continue_all_harts_ok:
  "continue_all_harts d polls w = Some (stop, w') \<Longrightarrow> emu_ok w \<Longrightarrow> emu_ok w'"
proof -
  assume r: "continue_all_harts d polls w = Some (stop, w')" and w: "emu_ok w"
  obtain sent w1 where c: "continue_loop d polls w = Some (sent, w1)"
    using r by (auto simp: continue_all_harts_def bind_eq_Some_conv)
  have w1: "emu_ok w1" by (rule continue_loop_ok [OF c w])
  have "emu_ok (w_ctx_update (\<lambda>c. c\<lparr>should_stop := True\<rparr>) w1)"
    using w1 by (rule good_upd_ctx) simp
  moreover have "emu_ok (w_ctx_update (\<lambda>c. c\<lparr>should_stop := True\<rparr>)
      (w_sim_update (\<lambda>s. s\<lparr>g_interrupt_received := False\<rparr>) w1))"
    using sim_ok(3) [OF w1] by (rule good_upd_ctx) simp
  ultimately show ?thesis
    using r c w1 notify_stop_ok unfolding continue_all_harts_def Let_def c bind.bind_lunit prod.case
    by (auto split: if_splits)
qed

lemma main_turn_ok:
  assumes "main_turn debug_mode im line polls r w = Some (go, r', w')" "emu_ok w"
  shows "emu_ok w'"
proof -
  obtain res w1 where p: "gdb_stub_process emu_callbacks w = Some (res, w1)"
    using assms(1) by (auto simp: main_turn_def bind_eq_Some_conv)
  have "emu_ok w1" by (rule emu.process_inv [OF p assms(2)])
  then have "emu_ok (sys_resume_runnable w1)" "emu_ok (step_focus_hart debug_mode (sys_resume_runnable w1))"
    using halt_resume_ok(2) step_focus_hart_ok by blast+
  with \<open>emu_ok w1\<close> assms(1) show ?thesis
    unfolding main_turn_def p
    by (auto simp: Let_def bind_eq_Some_conv split: if_splits prod.splits intro: continue_all_harts_ok
        dest!: console_prompt_out)
qed

end
