(* ===== verification/Emu_Session.thy ===== *)
theory Emu_Session
  imports Emulator
begin

text \<open>
  A debugging session with the emulator as a step relation: turns of the main loop, bytes
  that the client sends, SIGINT between turns, and the operating system changing how much it
  is ready to take. Every world a session can reach satisfies the invariant of the system.
\<close>

subsection \<open>The start\<close>

lemma confined_load: "confined P m (snd (rv32_cpu_load_program h p a m))"
proof -
  have "unat (a - RAM_BASE) = unat a - 0x80000000" if "RAM_BASE \<le> a" using that by (simp add: unat_sub)
  then show ?thesis
    by (auto simp: rv32_cpu_load_program_def Let_def not_less word_le_nat_alt intro!: confined_set_ram)
qed

lemma confined_create: "confined P m (create_test_program n m)"
proof -
  have "length (code_bytes smp_worker_code) = 96" by (simp add: code_bytes_def word_bytes_def smp_worker_code_def)
  then have "confined P m (copy_worker_code m)" for m
    by (simp add: copy_worker_code_def Let_def confined_upd_hart)
  moreover note confined_load [of P _ 0 "code_bytes test_program" RAM_BASE]
  moreover have "confined P m (upd_hart h smp_sync_init_worker_hart m)" for h m
    by (rule confined_upd_hart) (simp add: smp_sync_init_worker_hart_def config_eq_iff edges_eq_iff)
  ultimately show ?thesis
    unfolding create_test_program_def Let_def
    by (intro confined_trans [OF _ confined_fold] confined_trans [OF _ confined_ram_init])
      (rule confined_trans)
qed

lemma init_system_ok: "sys_ok (init_system n)"
proof -
  define k where "k = (if valid_hart_count n then n else 1)"
  have k: "valid_hart_count k" "0 < k" by (auto simp: k_def valid_hart_count_def)
  show ?thesis
    using confined_create [of "\<lambda>_. True" "\<lparr>harts = \<lambda>h. if h < nat k then init_hart h else zero_cpu, stdout = [],
        env = \<lparr>d_ctx = zero_context, d_stop_hart = - 1\<rparr>\<rparr>" k] k
    by (auto simp: init_system_def Let_def sys_ok_def confined_def simp flip: k_def)
qed

text \<open>What the program prints until its main loop begins.\<close>

definition start_text :: "16 word \<Rightarrow> int \<Rightarrow> string \<times> 16 word \<Rightarrow> string" where
  "start_text gdb_port n client = banner_text @ loaded_text n @
     listening_text gdb_port @ waiting_text @ client_text client @ connected_text n"

lemma init_system_num [simp]: "sys_num_harts ((init_system n)\<lparr>sys_stdout := s\<rparr>) = sys_num_harts (init_system n)"
  "sys_ok ((init_system n)\<lparr>sys_stdout := s\<rparr>)"
  using init_system_ok [of n] by (simp_all add: sys_ok_def)

lemma main_start_ok:
  assumes "main_start p n sock b l fd client = Inr w"
  shows "emu_ok w" "connected (w_stub w)"
    "w_sim w = (init_system n)\<lparr>sys_stdout := start_text p (sys_num_harts (init_system n)) client\<rparr>"
    "current_thread (w_ctx w) = 1" "continue_thread (w_ctx w) = - 1" "bp_active (w_ctx w) = {}"
  using assms
  by (auto simp: main_start_def start_text_def gdb_stub_init_def gdb_stub_accept_def Let_def good_def
      stub_inv_def zero_context_def bp_abs_defs wp_abs_defs active_keys_def split: if_splits)

subsection \<open>Sessions\<close>

text \<open>The locals \<open>running\<close> and \<open>cpu_was_running\<close> of the main loop, and the world.\<close>

record session =
  go_on :: bool
  was_running :: bool
  s_world :: emu

inductive session_step :: "session \<Rightarrow> session \<Rightarrow> bool" where
  turn: "session_step \<lparr>go_on = True, was_running = r, s_world = w\<rparr> \<lparr>go_on = g, was_running = r', s_world = w'\<rparr>"
    if "connected (w_stub w)" "main_turn dbg_mode im line polls r w = Some (g, r', w')"
| client: "session_step \<lparr>go_on = g, was_running = r, s_world = w\<rparr>
      \<lparr>go_on = g, was_running = r, s_world = w\<lparr>w_link := (w_link w)\<lparr>rx := rx (w_link w) @ bs\<rparr>\<rparr>\<rparr>"
| kernel: "session_step \<lparr>go_on = g, was_running = r, s_world = w\<rparr>
      \<lparr>go_on = g, was_running = r, s_world = w\<lparr>w_link := (w_link w)\<lparr>wsched := ns\<rparr>\<rparr>\<rparr>"
| sigint: "session_step \<lparr>go_on = g, was_running = r, s_world = w\<rparr>
      \<lparr>go_on = g, was_running = r, s_world = sigint_handler w\<rparr>"

inductive_cases session_stepE: "session_step s s'"

text \<open>A session ends: nothing but outside events can follow.\<close>

inductive_simps session_step_stopped:
  "session_step \<lparr>go_on = False, was_running = r, s_world = w\<rparr> s'"

inductive reachable :: "emu \<Rightarrow> session \<Rightarrow> bool" for start where
  init: "reachable start \<lparr>go_on = True, was_running = False, s_world = start\<rparr>"
| step: "reachable start s \<Longrightarrow> session_step s s' \<Longrightarrow> reachable start s'"

text \<open>What no step changes.\<close>

lemma num_harts_frames [simp]:
  "sys_num_harts (w_sim (notify_stop s a w)) = sys_num_harts (w_sim w)"
  "sys_num_harts (w_sim (handle_hart_stop h s w)) = sys_num_harts (w_sim w)"
  by (simp_all add: handle_hart_stop_def notify_stop_def Let_def send_stop_reason_frames)

lemma fold_frame: "(\<And>x v. g (f x v) = g v) \<Longrightarrow> g (fold f xs w) = g w"
  by (induction xs arbitrary: w) auto

lemma halt_resume_num [simp]:
  "sys_num_harts (w_sim (sys_halt_all w)) = sys_num_harts (w_sim w)"
  "sys_num_harts (w_sim (sys_resume_runnable w)) = sys_num_harts (w_sim w)"
  by (simp_all add: sys_halt_all_def sys_resume_runnable_def fold_frame [where g = "\<lambda>w. sys_num_harts (w_sim w)"])

lemma session_step_ok:
  assumes "session_step s s'" "emu_ok (s_world s)"
  shows "emu_ok (s_world s')"
  using assms by (elim session_stepE) (auto intro: main_turn_ok sigint_handler_ok)

lemma reachable_ok: "reachable w s \<Longrightarrow> emu_ok w \<Longrightarrow> emu_ok (s_world s)"
  by (induction rule: reachable.induct) (auto intro: session_step_ok)

text \<open>
  C6: Safety of a session. Whatever the client sends, whenever SIGINT arrives and
  however long the processor runs, in every world that a session of the program reaches the
  packet buffer has its 4096 bytes, both tables are within their bounds without duplicate
  entries, the hart in focus is one of the harts in use, the current thread is positive, and
  every hart in use still has its own number, the memory of hart 0 and the watchpoint hooks; and nothing was
  ever written to register 0 of a hart, past its 32 registers or past the 65536 bytes of its memory.
\<close>

theorem session_safety:
  assumes "main_start gdb_port n sock b l fd client = Inr start" "reachable start s"
  shows "length (w_buf (s_world s)) = 4096 \<and>
    breakpoint_count (w_ctx (s_world s)) \<le> 64 \<and> watchpoint_count (w_ctx (s_world s)) \<le> 32 \<and>
    bp_inv (w_ctx (s_world s)) \<and> wp_inv (w_ctx (s_world s)) \<and>
    1 \<le> current_thread (w_ctx (s_world s)) \<and>
    sys_num_harts (w_sim (s_world s)) \<in> {1, 2, 4, 8} \<and>
    0 \<le> sys_focus_hart (w_sim (s_world s)) \<and> sys_focus_hart (w_sim (s_world s)) < sys_num_harts (w_sim (s_world s)) \<and>
    (\<forall>h < nat (sys_num_harts (w_sim (s_world s))).
      hart_id (hart (s_world s) h) = int h \<and> shared_ram (hart (s_world s) h) = (if h = 0 then None else Some 0) \<and>
      check_watchpoint_read (hart (s_world s) h) = Some gdb_watchpoint_read \<and>
      check_watchpoint_write (hart (s_world s) h) = Some gdb_watchpoint_write) \<and>
    (\<forall>h i. i = 0 \<or> 32 \<le> i \<longrightarrow> regs (hart (s_world s) h) i = 0) \<and> (\<forall>h. \<forall>j \<ge> 0x10000. memory (hart (s_world s) h) j = 0)"
proof -
  have ok: "emu_ok (s_world s)" by (rule reachable_ok [OF assms(2) main_start_ok(1) [OF assms(1)]])
  then have "stub_inv (w_ctx (s_world s))" "sys_ok (w_sim (s_world s))" by (simp_all add: good_def)
  then show ?thesis
    using emu_wiring(1-4) [OF ok] sys_edges [of "w_sim (s_world s)"]
    by (auto simp: stub_inv_def sys_ok_def valid_hart_count_def bp_inv_def wp_inv_def)
qed

subsection \<open>The bounds of the arrays\<close>

lemma confined_edges: "confined P m m' \<Longrightarrow> edges (harts m' k) = edges (harts m k)"
  by (simp add: confined_def config_eq_iff)

lemma edges_on_mach:
  assumes "\<And>m. confined (\<lambda>_. True) m (f m)"
  shows "edges (hart (on_mach f w) k) = edges (hart w k)"
  using confined_edges [OF assms [of "to_mach w"], of k] by (simp add: on_mach_def of_mach_def to_mach_def)

lemma le_inside:
  assumes "\<And>j. j < 0x10000 \<Longrightarrow> r j = r' j"
  shows "i + 2 \<le> 0x10000 \<Longrightarrow> le16 r i = le16 r' i" "i + 4 \<le> 0x10000 \<Longrightarrow> le32 r i = le32 r' i"
  using assms by (simp_all add: le16_def le32_def)

lemma read_mem_inside:
  fixes m m' :: "'e mach"
  assumes "\<And>j. j < 0x10000 \<Longrightarrow> ram_of h m j = ram_of h m' j"
  shows "fst (rv32_cpu_read_mem h a n m) = fst (rv32_cpu_read_mem h a n m')"
proof -
  have c: "memory (harts (call_check f h a n x) k) = memory (harts x k)"
    "rv32_cpu_ram h (call_check f h a n x) = rv32_cpu_ram h x" for f k and x :: "'e mach"
    by (simp_all add: call_check_def upd_hart_def rv32_cpu_ram_def Let_def split: option.split prod.split)
  show ?thesis
    using in_ram_bound [of a n] le_inside [where r = "ram_of h m" and r' = "ram_of h m'", OF assms]
      assms [of "unat (a - RAM_BASE)"]
    by (auto simp: rv32_cpu_read_mem_def Let_def c)
qed

lemma sync_read_inside:
  assumes "\<And>j. j < 0x10000 \<Longrightarrow> ram_of 0 m j = ram_of 0 m' j"
  shows "a < SMP_SYNC_BASE + 0x40 \<Longrightarrow> smp_sync_read_ram a n m = smp_sync_read_ram a n m'"
    "smp_sync_read_mmio a n m = smp_sync_read_mmio a n m'"
  using in_sync_bound [of a n] le_inside [where r = "ram_of 0 m" and r' = "ram_of 0 m'", OF assms]
    assms [of "unat (a - RAM_BASE)"]
  by (auto simp: smp_sync_read_ram_def smp_sync_read_mmio_def ram_read32_def Let_def)

text \<open>
  C5: Every access stays inside the arrays. Whatever address, size and register number
  the debugger or an instruction uses, and whatever lies beyond the 65536 bytes of a memory and the
  32 registers of a hart, a write of memory, a write of a register and an instruction change nothing
  there and do not change register 0, and the value read from memory does not depend on it.
\<close>

theorem arrays_in_bounds:
  assumes "sys_num_harts (w_sim w) \<le> 8"
  shows "edges (hart (gdb_write_mem a v n w) k) = edges (hart w k) \<and>
    edges (hart (snd (gdb_read_mem a n w)) k) = edges (hart w k) \<and>
    edges (hart (gdb_write_reg i v w) k) = edges (hart w k) \<and>
    edges (hart (sys_cpu_step h w) k) = edges (hart w k) \<and>
    ((\<forall>h. \<forall>j < 0x10000. r h j = memory (hart w h) j) \<longrightarrow>
      fst (gdb_read_mem a n (w_sim_update (\<lambda>s. s\<lparr>sys_harts := \<lambda>h. (sys_harts s h)\<lparr>memory := r h\<rparr>\<rparr>) w)) =
      fst (gdb_read_mem a n w))"
proof (intro conjI impI)
  note e = confined_edges [of "\<lambda>_. True"] and m = of_mach_def to_mach_def
  show "edges (hart (gdb_write_mem a v n w) k) = edges (hart w k)"
    using e [OF confined_mmio(1) [OF assms, of _ "to_mach w" a v n], of k]
      e [OF confined_mmio(2) [of a _ "to_mach w" v n], of k] e [OF confined_write_mem [of _ "to_mach w" "focus w" a v n], of k]
    by (auto simp: gdb_write_mem_def sys_write_mem_def smp_sync_handle_mmio_def Let_def m)
  show "edges (hart (snd (gdb_read_mem a n w)) k) = edges (hart w k)"
    using e [OF confined_read_mem [of _ "to_mach w" 0 a n], of k]
    by (simp add: gdb_read_mem_def sys_read_mem_def m case_prod_beta)
  show "edges (hart (gdb_write_reg i v w) k) = edges (hart w k)"
    by (auto simp: gdb_write_reg_def upd_cpu_def edges_eq_iff rv32_cpu_write_reg_def)
  show "edges (hart (sys_cpu_step h w) k) = edges (hart w k)"
    using assms edges_on_mach [OF confined_step]
    by (simp add: sys_cpu_step_def sys_post_step_def Let_def edges_on_mach confined_mmio(3))
  assume r: "\<forall>h. \<forall>j < 0x10000. r h j = memory (hart w h) j"
  let ?w = "w_sim_update (\<lambda>s. s\<lparr>sys_harts := \<lambda>h. (sys_harts s h)\<lparr>memory := r h\<rparr>\<rparr>) w"
  have "ram_of 0 (to_mach ?w) j = ram_of 0 (to_mach w) j" if "j < 0x10000" for j
    using r that by (simp add: rv32_cpu_ram_def to_mach_def split: option.split)
  note read_mem_inside [OF this] sync_read_inside [OF this]
  then show "fst (gdb_read_mem a n ?w) = fst (gdb_read_mem a n w)"
    by (simp add: gdb_read_mem_def sys_read_mem_def case_prod_beta)
qed

text \<open>A session of the demonstration with two harts, for the instances of the properties.\<close>

definition demo_start :: "int \<Rightarrow> emu" where
  "demo_start n = projr (main_start 1234 n 3 0 0 4 (''127.0.0.1'', 50000))"

lemma demo_start: "main_start 1234 n 3 0 0 4 (''127.0.0.1'', 50000) = Inr (demo_start n)"
  by (simp add: demo_start_def main_start_def gdb_stub_init_def gdb_stub_accept_def Let_def)

lemma session_safety_witness:
  "length (w_buf (sigint_handler (demo_start 2))) = 4096 \<and> bp_inv (w_ctx (sigint_handler (demo_start 2)))"
proof -
  have "reachable (demo_start 2) \<lparr>go_on = True, was_running = False, s_world = sigint_handler (demo_start 2)\<rparr>"
    by (rule reachable.step [OF reachable.init session_step.sigint])
  from session_safety [OF demo_start this] show ?thesis by simp
qed

lemma arrays_in_bounds_witness:
  "edges (hart (gdb_write_mem 0xFFFFFFFF 1 1 (demo_start 2)) 0) = edges (hart (demo_start 2) 0) \<and>
   edges (hart (gdb_write_reg 32 1 (demo_start 2)) 0) = edges (hart (demo_start 2) 0)"
proof -
  have "sys_num_harts (w_sim (demo_start 2)) \<le> 8"
    using main_start_ok(1) [OF demo_start, of 2] by (simp add: good_def sys_num_bound)
  from arrays_in_bounds [OF this] show ?thesis by blast
qed

end
