(* ===== verification/Emu_Memory.thy ===== *)
theory Emu_Memory
  imports Emu_Session
begin

text \<open>
  The memory of the emulator as the debugger sees it, and the interpretation of the contract
  \<open>target_memory\<close> on the emulator's callbacks: 64 kB of memory, of which the block of
  shared words is read and written past the processor, and the low byte of the interrupt
  register, which reads as the low byte of \<open>shared_done\<close>.
\<close>

subsection \<open>The view\<close>

definition ram_addr :: "32 word \<Rightarrow> bool" where
  "ram_addr a = (0x80000000 \<le> a \<and> a < 0x80010000)"

definition mem_view :: "emu \<Rightarrow> 32 word \<Rightarrow> byte" where
  "mem_view w a = (if ram_addr a then memory (hart w 0) (unat (a - 0x80000000))
     else if a = 0x10000004 then memory (hart w 0) 0x200C else 0)"

abbreviation wired :: "emu \<Rightarrow> bool" where
  "wired w \<equiv> sys_ok (w_sim w)"

lemma emu_ok_wired: "emu_ok w \<Longrightarrow> wired w"
  by (simp add: good_def)

lemma wired_ram:
  assumes "wired w" "h < nat (sys_num_harts (w_sim w))"
  shows "rv32_cpu_ram h (to_mach w) = 0"
proof -
  have "config (hart w h) = config (init_hart h)" using assms by (simp add: sys_ok_def)
  then show ?thesis by (simp add: rv32_cpu_ram_def to_mach_def config_eq_iff init_hart_wiring)
qed

lemma wired_focus:
  assumes "wired w"
  shows "focus w < nat (sys_num_harts (w_sim w))" "0 < nat (sys_num_harts (w_sim w))"
  using assms by (auto simp: sys_ok_def)

lemma call_check_memory [simp]:
  "memory (harts (call_check f h a n m) k) = memory (harts m k)"
  "shared_ram (harts (call_check f h a n m) k) = shared_ram (harts m k)"
  "rv32_cpu_ram h' (call_check f h a n m) = rv32_cpu_ram h' m"
  by (simp_all add: call_check_def upd_hart_def rv32_cpu_ram_def Let_def split: option.split prod.split)

lemma wired_confined:
  assumes "wired w" "confined P (to_mach w) m"
  shows "wired (of_mach m w)"
  using assms by (auto simp: confined_def sys_ok_def of_mach_def to_mach_def)

subsection \<open>The hooks leave the connection alone\<close>

lemma hooks_stub:
  "stub (d_ctx (snd (gdb_watchpoint_read i a n e))) = stub (d_ctx e)"
  "stub (d_ctx (snd (gdb_watchpoint_write i a n e))) = stub (d_ctx e)"
  by (simp_all add: gdb_watchpoint_read_def gdb_watchpoint_write_def watchpoint_frames Let_def case_prod_beta)

lemma call_check_stub:
  assumes "f = Some gdb_watchpoint_read \<or> f = Some gdb_watchpoint_write"
  shows "stub (d_ctx (env (call_check f h a n m))) = stub (d_ctx (env m))"
  using assms hooks_stub
  by (auto simp: call_check_def upd_hart_def Let_def split: option.split prod.split) (metis snd_conv)+

lemma wired_hooks:
  assumes "wired w" "h < nat (sys_num_harts (w_sim w))"
  shows "check_watchpoint_read (harts (to_mach w) h) = Some gdb_watchpoint_read"
    "check_watchpoint_write (harts (to_mach w) h) = Some gdb_watchpoint_write"
proof -
  have "config (hart w h) = config (init_hart h)" using assms by (simp add: sys_ok_def)
  then show "check_watchpoint_read (harts (to_mach w) h) = Some gdb_watchpoint_read"
    "check_watchpoint_write (harts (to_mach w) h) = Some gdb_watchpoint_write"
    by (simp_all add: to_mach_def config_eq_iff init_hart_wiring)
qed

lemma cpu_memory_stub:
  assumes "wired w" "h < nat (sys_num_harts (w_sim w))"
  shows "stub (d_ctx (env (snd (rv32_cpu_read_mem h a n (to_mach w))))) = w_stub w"
    "stub (d_ctx (env (rv32_cpu_write_mem h a v n (to_mach w)))) = w_stub w"
  using wired_hooks [OF assms]
  by (simp_all add: rv32_cpu_read_mem_def rv32_cpu_write_mem_def Let_def call_check_stub set_ram_def upd_hart_def)
    (simp_all add: to_mach_def)

subsection \<open>One byte\<close>

lemma le32_low: "ucast (le32 r i AND 0xFF) = r i"
proof -
  have "ucast (le32 r i AND 0xFF) = (ucast (mask 8 AND le32 r i) :: byte)"
    by (simp add: mask_eq_exp_minus_1 and.commute)
  also have "\<dots> = r i"
    by (rule bit_word_eqI) (simp add: le32_def bit_simps)
  finally show ?thesis .
qed

lemma byte_ucast [simp]: "ucast ((ucast (b :: byte) :: 32 word) AND 0xFF) = b"
proof -
  have "(ucast ((ucast b :: 32 word) AND mask 8) :: byte) = b" by (rule bit_word_eqI) (simp add: bit_simps)
  then show ?thesis by (simp add: mask_eq_exp_minus_1)
qed

lemma ram_bounds:
  "in_ram a 1 = ram_addr a"
  "a \<ge> 0x80002000 \<and> a < 0x80002040 \<Longrightarrow> in_sync a 1"
  "a \<ge> 0x80002000 \<and> a < 0x80002040 \<Longrightarrow> ram_addr a"
  by (auto simp: in_ram_def ram_addr_def in_sync_def word_le_nat_alt word_less_nat_alt unat_word_ariths)

lemma gdb_read_byte:
  assumes "wired w"
  shows "ucast (fst (gdb_read_mem a 1 w) AND 0xFF) = mem_view w a"
  using wired_ram [OF assms wired_focus(2) [OF assms]] ram_bounds [of a]
  by (auto simp: gdb_read_mem_def sys_read_mem_def mem_view_def smp_sync_read_ram_def smp_sync_read_mmio_def
      ram_read32_def rv32_cpu_read_mem_def Let_def le32_low ram_addr_def)
    (simp_all add: to_mach_def)

lemma mem_view_cong: "memory (hart w' 0) = memory (hart w 0) \<Longrightarrow> mem_view w' = mem_view w"
  by (simp add: mem_view_def fun_eq_iff)

lemma gdb_read_frame:
  assumes "wired w"
  shows "memory (hart (snd (gdb_read_mem a n w)) h) = memory (hart w h)"
    "wired (snd (gdb_read_mem a n w))" "w_stub (snd (gdb_read_mem a n w)) = w_stub w"
    "w_link (snd (gdb_read_mem a n w)) = w_link w"
proof -
  let ?r = "rv32_cpu_read_mem 0 a n (to_mach w)"
  have "memory (harts (snd ?r) h) = memory (hart w h)"
    by (simp add: rv32_cpu_read_mem_def Let_def) (simp add: to_mach_def)
  moreover have "wired (of_mach (snd ?r) w)" by (rule wired_confined [OF assms confined_read_mem])
  moreover have "stub (d_ctx (env (snd ?r))) = w_stub w"
    using assms wired_focus(2) [OF assms] by (rule cpu_memory_stub)
  ultimately show "memory (hart (snd (gdb_read_mem a n w)) h) = memory (hart w h)"
    "wired (snd (gdb_read_mem a n w))" "w_stub (snd (gdb_read_mem a n w)) = w_stub w"
    "w_link (snd (gdb_read_mem a n w)) = w_link w"
    using assms by (simp_all add: gdb_read_mem_def sys_read_mem_def case_prod_beta of_mach_def)
qed

text \<open>Where a byte of the debugger goes: into the memory of hart 0, by either path.\<close>

lemma set_ram_memory:
  "memory (harts (set_ram h r m) k) = (if k = rv32_cpu_ram h m then r else memory (harts m k))"
  by (simp add: set_ram_def upd_hart_def)

lemma gdb_write_byte:
  assumes "wired w" "ram_addr a"
  shows "memory (hart (gdb_write_mem a v 1 w) 0) = (memory (hart w 0))(unat (a - 0x80000000) := ucast v)"
proof -
  note f = wired_ram [OF assms(1) wired_focus(1) [OF assms(1)]] wired_ram [OF assms(1) wired_focus(2) [OF assms(1)]]
  have "ucast (v AND 0xFF) = (ucast v :: byte)"
  proof -
    have "(ucast (v AND mask 8) :: byte) = ucast v" by (rule bit_word_eqI) (simp add: bit_simps)
    then show ?thesis by (simp add: mask_eq_exp_minus_1)
  qed
  then show ?thesis
    using f assms(2) ram_bounds [of a]
    by (auto simp: gdb_write_mem_def sys_write_mem_def smp_sync_handle_mmio_def smp_sync_write_ram_def
        rv32_cpu_write_mem_def Let_def of_mach_def set_ram_memory)
      (simp_all add: to_mach_def)
qed

lemma gdb_write_frame:
  assumes "wired w" "ram_addr a"
  shows "wired (gdb_write_mem a v 1 w)" "w_stub (gdb_write_mem a v 1 w) = w_stub w"
    "w_link (gdb_write_mem a v 1 w) = w_link w"
proof -
  have no: "smp_sync_handle_mmio nh a v 1 m = (False, m)" for nh and m :: "dbg mach"
    by (simp add: smp_sync_handle_mmio_def)
  have e: "env (snd (smp_sync_write_ram a v 1 m)) = env m" for m :: "dbg mach"
    by (simp add: smp_sync_write_ram_def Let_def set_ram_def upd_hart_def)
  have s: "stub (d_ctx (env (rv32_cpu_write_mem (focus w) a v 1 (to_mach w)))) = w_stub w"
    by (rule cpu_memory_stub [OF assms(1) wired_focus(1) [OF assms(1)]])
  show "wired (gdb_write_mem a v 1 w)"
    using wired_confined [OF assms(1) confined_write_mem [of "\<lambda>_. True" "to_mach w" "focus w" a v 1]]
      wired_confined [OF assms(1) confined_mmio(2) [of a "\<lambda>_. True" "to_mach w" v 1]]
    by (simp add: gdb_write_mem_def sys_write_mem_def no)
  show "w_stub (gdb_write_mem a v 1 w) = w_stub w" "w_link (gdb_write_mem a v 1 w) = w_link w"
    using s e [of "to_mach w"] by (simp_all add: gdb_write_mem_def sys_write_mem_def no of_mach_def) (simp add: to_mach_def)
qed

lemma ram_offset_eq: "ram_addr a \<Longrightarrow> ram_addr c \<Longrightarrow> unat (c - 0x80000000) = unat (a - 0x80000000) \<longleftrightarrow> c = a"
  by (metis diff_add_cancel unsigned_word_eqI)

lemma ucast_byte_word: "(ucast (ucast (b :: byte) :: 32 word) :: byte) = b"
  by (rule bit_word_eqI) (simp add: bit_simps)

text \<open>The emulator satisfies the contract of the memory commands.\<close>

interpretation emu_mem: target_memory emu_callbacks wired ram_addr mem_view
proof
  fix w :: emu and a
  assume w: "wired w"
  show "ucast (fst (cb_read_mem emu_callbacks a 1 w) AND 0xFF) = mem_view w a"
    using w by (simp add: emu_callbacks_def gdb_read_byte)
  show "mem_view (snd (cb_read_mem emu_callbacks a 1 w)) = mem_view w"
    using w by (intro mem_view_cong) (simp add: emu_callbacks_def gdb_read_frame)
  show "wired (snd (cb_read_mem emu_callbacks a 1 w))" "w_stub (snd (cb_read_mem emu_callbacks a 1 w)) = w_stub w"
    "w_link (snd (cb_read_mem emu_callbacks a 1 w)) = w_link w"
    using w by (simp_all add: emu_callbacks_def gdb_read_frame)
  assume a: "ram_addr a"
  show "mem_view (cb_write_mem emu_callbacks a (ucast b) 1 w) c = (if c = a then b else mem_view w c)"
    if "ram_addr c" for b c
    using w a that ram_offset_eq [OF a that] by (simp add: emu_callbacks_def mem_view_def gdb_write_byte ucast_byte_word)
  show "wired (cb_write_mem emu_callbacks a v 1 w)" "w_stub (cb_write_mem emu_callbacks a v 1 w) = w_stub w"
    "w_link (cb_write_mem emu_callbacks a v 1 w) = w_link w" for v
    using w a by (simp_all add: emu_callbacks_def gdb_write_frame)
qed (simp_all add: mem_view_def fun_eq_iff)

end
