(* ===== verification/Emu_Packets.thy ===== *)
theory Emu_Packets
  imports Emu_Memory
begin

text \<open>
  Whole packets against the memory of the emulator: from the bytes on the connection through
  \<open>gdb_stub_process\<close> and the emulator's callbacks to the bytes of the reply.
\<close>

subsection \<open>Packets\<close>

lemma ram_range:
  fixes a :: "32 word"
  assumes "0x80000000 \<le> a" "unat a + n \<le> 0x80010000" "i < n"
  shows "ram_addr (a + word_of_nat i)"
proof -
  have "unat (a + word_of_nat i) = unat a + i"
    using assms(2,3) by (simp add: unat_word_ariths unsigned_of_nat take_bit_nat_eq_self)
  then show ?thesis using assms by (simp add: ram_addr_def word_le_nat_alt word_less_nat_alt)
qed

lemma hash_free [simp]: "CHR ''#'' \<notin> set (fmt_x n)" "CHR ''#'' \<notin> set (hex_image bs)"
proof -
  show "CHR ''#'' \<notin> set (fmt_x n)" by (simp add: fmt_x_plain)
  have h: "int_to_hex v \<noteq> CHR ''#''" if "v < 16" for v
    using that by (elim byte_less_16_cases) (use hex_char_facts(5) in \<open>auto simp: int_to_hex_nat\<close>)
  have "CHR ''#'' \<notin> set (byte_hex b)" for b
    using h [OF nibble_less(1), of b] h [OF nibble_less(2), of b] by (auto simp: byte_hex_def)
  then show "CHR ''#'' \<notin> set (hex_image bs)" by (simp add: hex_image_def)
qed

text \<open>The replies that are acknowledgements, when they are on.\<close>

abbreviation ack :: "emu \<Rightarrow> string" where
  "ack w \<equiv> if no_ack_mode (w_stub w) then '''' else ''+''"

definition ready :: "emu \<Rightarrow> bool" where
  "ready w = (emu_ok w \<and> connected (w_stub w) \<and> consecutive_failures (w_stub w) < 50 \<and> wsched (w_link w) = [])"

lemma ready_buf: "ready w \<Longrightarrow> length (w_buf w) = 4096"
  by (simp add: ready_def good_def stub_inv_def)

lemma received_ready:
  "ready w \<Longrightarrow> length d < 4096 \<Longrightarrow> ready (received d rest w)"
  using ready_buf [of w]
  by (auto simp: ready_def good_def stub_inv_def received_def stored_def bp_abs_defs wp_abs_defs)

text \<open>A packet with one command that is carried out and answered.\<close>

lemma command_reply:
  assumes "ready w" "rx (w_link w) = frame d @ rest" "d \<noteq> []" "CHR ''#'' \<notin> set d" "length d \<le> 4095"
    and "dispatch emu_callbacks (hd d) (received d rest w) = Some (0, reply ans w')"
    and "w_link w' = w_link (received d rest w)" "conn w' = conn (received d rest w)" "length ans < 4092"
  shows "gdb_stub_process emu_callbacks w = Some (0, reply ans w') \<and> ready (reply ans w') \<and>
    rx (w_link (reply ans w')) = rest \<and> tx (w_link (reply ans w')) = tx (w_link w) @ ack w @ frame ans \<and>
    no_ack_mode (w_stub (reply ans w')) = no_ack_mode (w_stub w)"
proof -
  have p: "gdb_stub_process emu_callbacks w = Some (0, reply ans w')"
    using process_frame [of w "[]" d rest emu_callbacks] assms(1-6) ready_buf [OF assms(1)]
    by (simp add: ready_def)
  have "emu_ok (reply ans w')" using emu.process_inv [OF p] assms(1) by (simp add: ready_def)
  moreover have "wsched (w_link w') = []" using assms(1,7) by (simp add: ready_def)
  ultimately show ?thesis
    using p assms reply_ok [of w' ans]
    by (simp add: ready_def received_def stored_def)
qed

subsection \<open>Memory packets on the emulator\<close>

lemma emu_xlen: "xlen TYPE(32)"
  by (simp add: xlen_def)

lemma fmt_addr_length: "length (fmt_x (unat (a :: 32 word))) \<le> 8"
  using unsigned_less [of a, where 'a = nat] by (intro length_fmt_x) simp_all

lemma fmt_size_length: "n < 2048 \<Longrightarrow> length (fmt_x n) \<le> 3"
  by (intro length_fmt_x) simp_all

abbreviation addr_size :: "32 word \<Rightarrow> nat \<Rightarrow> string" where
  "addr_size a n \<equiv> fmt_x (unat a) @ CHR '','' # fmt_x n"

lemma ready_wired: "ready w \<Longrightarrow> wired (received d rest w)"
  by (simp add: ready_def good_def)

lemma mem_view_received [simp]: "mem_view (received d rest w) = mem_view w"
  by (simp add: mem_view_def fun_eq_iff)

lemma mem_view_reply [simp]: "mem_view (reply d w) = mem_view w"
  by (simp add: mem_view_def fun_eq_iff reply_frames)

lemma write_command:
  assumes w: "ready w" and rx: "rx (w_link w) = frame (CHR ''M'' # addr_size a (length bs) @ CHR '':'' # hex_image bs) @ rest"
    and n: "length bs \<le> 2000" and ram: "0x80000000 \<le> a" "unat a + length bs \<le> 0x80010000"
  shows "\<exists>w1. gdb_stub_process emu_callbacks w = Some (0, w1) \<and> ready w1 \<and> rx (w_link w1) = rest \<and>
    tx (w_link w1) = tx (w_link w) @ ack w @ frame ''OK'' \<and> no_ack_mode (w_stub w1) = no_ack_mode (w_stub w) \<and>
    (\<forall>c. ram_addr c \<longrightarrow> mem_view w1 c = store_bytes a bs (mem_view w) c)"
proof -
  define d where "d = CHR ''M'' # addr_size a (length bs) @ CHR '':'' # hex_image bs"
  have d: "d \<noteq> []" "hd d = CHR ''M''" "CHR ''#'' \<notin> set d" "length d \<le> 4095"
    using n fmt_addr_length [of a] fmt_size_length [of "length bs"] by (simp_all add: d_def)
  have "\<exists>w'. handle_write_memory emu_callbacks (received d rest w) = Some (reply ''OK'' w') \<and>
      wired w' \<and> w_link w' = w_link (received d rest w) \<and> conn w' = conn (received d rest w) \<and>
      (\<forall>c. ram_addr c \<longrightarrow> mem_view w' c = store_bytes a bs (mem_view (received d rest w)) c)"
  proof (rule emu_mem.write_packet)
    show "w_buf (received d rest w) = ''M'' @ fmt_x (unat a) @ CHR '','' # fmt_x (length bs) @ CHR '':'' # hex_image bs @ NUL #
        drop (length d + 1) (w_buf w)" by (simp add: d_def)
    show "\<forall>i < length bs. ram_addr (a + word_of_nat i)" using ram_range [OF ram] by blast
  qed (use n ready_wired [OF w] in simp_all)
  then obtain w' where w': "handle_write_memory emu_callbacks (received d rest w) = Some (reply ''OK'' w')"
      "w_link w' = w_link (received d rest w)" "conn w' = conn (received d rest w)"
      "\<forall>c. ram_addr c \<longrightarrow> mem_view w' c = store_bytes a bs (mem_view w) c"
    by auto
  have "dispatch emu_callbacks (hd d) (received d rest w) = Some (0, reply ''OK'' w')"
    using w'(1) by (simp add: d(2) dispatch_def)
  from command_reply [OF w rx [folded d_def] d(1,3,4) this w'(2,3)] w'(4) show ?thesis by auto
qed

lemma read_command:
  assumes w: "ready w" and rx: "rx (w_link w) = frame (CHR ''m'' # addr_size a n) @ rest" and n: "n \<le> 2000"
  shows "\<exists>w1. gdb_stub_process emu_callbacks w = Some (0, w1) \<and> ready w1 \<and> rx (w_link w1) = rest \<and>
    tx (w_link w1) = tx (w_link w) @ ack w @ frame (hex_image (load_bytes (mem_view w) a n)) \<and>
    no_ack_mode (w_stub w1) = no_ack_mode (w_stub w) \<and> mem_view w1 = mem_view w"
proof -
  define d where "d = CHR ''m'' # addr_size a n"
  have d: "d \<noteq> []" "hd d = CHR ''m''" "CHR ''#'' \<notin> set d" "length d \<le> 4095"
    using n fmt_addr_length [of a] fmt_size_length [of n] by (simp_all add: d_def)
  have "\<exists>w'. handle_read_memory emu_callbacks (received d rest w) =
      Some (reply (hex_image (load_bytes (mem_view (received d rest w)) (word_of_nat (hex_nat (fmt_x (unat a)))) (hex_nat (fmt_x n)))) w') \<and>
      wired w' \<and> mem_view w' = mem_view (received d rest w) \<and> w_link w' = w_link (received d rest w) \<and>
      conn w' = conn (received d rest w)"
    by (rule emu_mem.read_packet [OF emu_xlen, where r = "drop (length d + 1) (w_buf w)"])
      (use n ready_wired [OF w] in \<open>simp_all add: d_def\<close>)
  then obtain w' where w': "handle_read_memory emu_callbacks (received d rest w) =
      Some (reply (hex_image (load_bytes (mem_view w) a n)) w')"
      "w_link w' = w_link (received d rest w)" "conn w' = conn (received d rest w)" "mem_view w' = mem_view w"
    by auto
  have "dispatch emu_callbacks (hd d) (received d rest w) = Some (0, reply (hex_image (load_bytes (mem_view w) a n)) w')"
    using w'(1) by (simp add: d(2) dispatch_def)
  from command_reply [OF w rx [folded d_def] d(1,3,4) this w'(2,3)] w'(4) n show ?thesis by auto
qed

text \<open>
  C8: Memory written by the debugger reads back. When the client sends an \<open>M\<close> packet for a
  range inside the emulator's memory and then an \<open>m\<close> packet for the same range, the two
  calls of \<open>gdb_stub_process\<close> answer OK and the bytes that were written, whatever
  watchpoints are set and whichever hart is in focus; and what the \<open>M\<close> packet does to
  memory is to store these bytes and nothing else.
\<close>

theorem memory_write_read:
  assumes "ready w" "length bs \<le> 2000" "0x80000000 \<le> a" "unat a + length bs \<le> 0x80010000"
    and "rx (w_link w) = frame (CHR ''M'' # addr_size a (length bs) @ CHR '':'' # hex_image bs) @
      frame (CHR ''m'' # addr_size a (length bs)) @ rest"
  shows "\<exists>w1 w2. gdb_stub_process emu_callbacks w = Some (0, w1) \<and> gdb_stub_process emu_callbacks w1 = Some (0, w2) \<and>
    rx (w_link w2) = rest \<and>
    tx (w_link w2) = tx (w_link w) @ ack w @ frame ''OK'' @ ack w @ frame (hex_image bs) \<and>
    (\<forall>c. ram_addr c \<longrightarrow> mem_view w1 c = store_bytes a bs (mem_view w) c)"
proof -
  obtain w1 where w1: "gdb_stub_process emu_callbacks w = Some (0, w1)" "ready w1"
      "rx (w_link w1) = frame (CHR ''m'' # addr_size a (length bs)) @ rest"
      "tx (w_link w1) = tx (w_link w) @ ack w @ frame ''OK''" "no_ack_mode (w_stub w1) = no_ack_mode (w_stub w)"
      "\<forall>c. ram_addr c \<longrightarrow> mem_view w1 c = store_bytes a bs (mem_view w) c"
    using write_command [OF assms(1,5,2-4)] by auto
  have "length bs \<le> 2 ^ LENGTH(32)" using assms(2) by simp
  then have l: "load_bytes (store_bytes a bs (mem_view w)) a (length bs) = bs" by (rule load_store_bytes)
  have "load_bytes (mem_view w1) a (length bs) = load_bytes (store_bytes a bs (mem_view w)) a (length bs)"
    unfolding load_bytes_def using w1(6) ram_range [OF assms(3,4)] by simp
  with l read_command [OF w1(2,3) assms(2)] w1 show ?thesis by auto
qed

text \<open>A started session in which the client has sent \<open>s\<close>.\<close>

abbreviation client_sends :: "string \<Rightarrow> emu \<Rightarrow> emu" where
  "client_sends s w \<equiv> w_link_update (rx_update (\<lambda>_. s)) w"

lemma demo_facts:
  "consecutive_failures (w_stub (demo_start n)) = 0" "wsched (w_link (demo_start n)) = []"
  "no_ack_mode (w_stub (demo_start n)) = False" "tx (w_link (demo_start n)) = []"
  by (simp_all add: demo_start_def main_start_def gdb_stub_init_def gdb_stub_accept_def zero_context_def Let_def)

lemma demo_ready: "ready (client_sends s (demo_start n))"
  using main_start_ok(1,2) [OF demo_start, of n] by (simp add: ready_def demo_facts)

lemma memory_write_read_witness:
  "\<exists>w1 w2. gdb_stub_process emu_callbacks (client_sends (frame (CHR ''M'' # addr_size 0x80001000 2 @ CHR '':'' # hex_image [1, 2]) @
       frame (CHR ''m'' # addr_size 0x80001000 2)) (demo_start 1)) = Some (0, w1) \<and>
     gdb_stub_process emu_callbacks w1 = Some (0, w2) \<and>
     tx (w_link w2) = ''+'' @ frame ''OK'' @ ''+'' @ frame (hex_image [1, 2])"
proof -
  let ?w = "client_sends (frame (CHR ''M'' # addr_size 0x80001000 2 @ CHR '':'' # hex_image [1, 2]) @
       frame (CHR ''m'' # addr_size 0x80001000 2)) (demo_start 1)"
  have "rx (w_link ?w) = frame (CHR ''M'' # addr_size 0x80001000 (length [1, 2 :: byte]) @ CHR '':'' # hex_image [1, 2]) @
      frame (CHR ''m'' # addr_size 0x80001000 (length [1, 2 :: byte])) @ []" by (simp add: numeral_2_eq_2)
  from memory_write_read [OF demo_ready _ _ _ this] demo_facts [of 1] show ?thesis
    by (simp del: frame_def) blast
qed

subsection \<open>The interrupt register\<close>

text \<open>The four bytes of the register, and a machine that is the same but for halted harts.\<close>

definition ipi_byte :: "32 word \<Rightarrow> bool" where
  "ipi_byte a = (0x10000004 \<le> a \<and> a < 0x10000008)"

definition same_harts :: "emu \<Rightarrow> emu \<Rightarrow> bool" where
  "same_harts w0 w = (wired w \<and> sys_num_harts (w_sim w) = sys_num_harts (w_sim w0) \<and> sys_stdout (w_sim w) = sys_stdout (w_sim w0) \<and>
     (\<forall>k. (hart w k)\<lparr>halted := True\<rparr> = (hart w0 k)\<lparr>halted := True\<rparr>))"

lemma call_check_same:
  "(harts (call_check f h a n m) k)\<lparr>halted := True\<rparr> = (harts m k)\<lparr>halted := True\<rparr>"
  "stdout (call_check f h a n m) = stdout m"
  by (simp_all add: call_check_def upd_hart_def Let_def split: option.split prod.split)

lemma ipi_byte_facts:
  assumes "ipi_byte a"
  shows "\<not> in_ram a 1" "a \<noteq> UART_BASE" "\<not> (SMP_SYNC_BASE \<le> a)"
  using assms by (auto simp: ipi_byte_def in_ram_def word_le_nat_alt word_less_nat_alt)

lemma gdb_write_ipi:
  fixes w :: emu and a v :: "32 word"
  assumes "wired w" "ipi_byte a"
  defines "w' \<equiv> gdb_write_mem a v 1 w"
  shows "same_harts w w'" "w_stub w' = w_stub w" "w_link w' = w_link w"
proof -
  let ?m = "rv32_cpu_write_mem (focus w) a v 1 (to_mach w)"
  have m: "?m = call_check (check_watchpoint_write (hart w (focus w))) (focus w) a 1 (to_mach w)"
    using ipi_byte_facts [OF assms(2)] by (simp add: rv32_cpu_write_mem_def Let_def to_mach_def)
  have w': "w' = of_mach ?m w"
    using ipi_byte_facts [OF assms(2)] by (simp add: w'_def gdb_write_mem_def sys_write_mem_def smp_sync_handle_mmio_def)
  have s: "stub (d_ctx (env ?m)) = w_stub w" by (rule cpu_memory_stub [OF assms(1) wired_focus(1) [OF assms(1)]])
  have "wired w'" unfolding w' by (rule wired_confined [OF assms(1) confined_write_mem])
  then show "same_harts w w'" "w_stub w' = w_stub w" "w_link w' = w_link w"
    using s call_check_same [of _ _ _ _ "to_mach w"]
    by (simp_all add: same_harts_def w' of_mach_def m) (simp_all add: to_mach_def)
qed

interpretation ipi_reg: write_target emu_callbacks "same_harts w0" ipi_byte
  for w0 :: emu
proof
  fix w :: emu and a v
  assume w: "same_harts w0 w" and a: "ipi_byte a"
  have "wired w" using w by (simp add: same_harts_def)
  note g = gdb_write_ipi [OF this a, of v]
  show "same_harts w0 (cb_write_mem emu_callbacks a v 1 w)"
    using g(1) w by (simp add: emu_callbacks_def same_harts_def)
  show "w_stub (cb_write_mem emu_callbacks a v 1 w) = w_stub w" "w_link (cb_write_mem emu_callbacks a v 1 w) = w_link w"
    using g by (simp_all add: emu_callbacks_def)
qed (simp_all add: same_harts_def)

text \<open>
  C32: The interrupt register cannot be reached. README describes a word written to 0x10000004,
  by the program or by \<open>set\<close> in the debugger, as an interrupt for a worker. But the register is
  served only for accesses of four bytes that come through \<open>sys_write_mem\<close>; the debugger's
  packets write byte by byte, and the stores of a hart go to \<open>rv32_cpu_write_mem\<close>. So an \<open>M\<close>
  packet with any four bytes for the register is answered OK and changes no register, program
  counter or memory of any hart, and neither does a store of any hart to that address.
\<close>

theorem ipi_register_unreachable:
  fixes w :: emu and m :: "'e mach" and v :: "32 word"
  assumes "ready w" "length bs = 4"
    and "rx (w_link w) = frame (CHR ''M'' # addr_size SMP_IPI_MMIO 4 @ CHR '':'' # hex_image bs) @ rest"
  shows "(\<exists>w1. gdb_stub_process emu_callbacks w = Some (0, w1) \<and>
      tx (w_link w1) = tx (w_link w) @ ack w @ frame ''OK'' \<and>
      (\<forall>k. (hart w1 k)\<lparr>halted := True\<rparr> = (hart w k)\<lparr>halted := True\<rparr>)) \<and>
    (harts (rv32_cpu_write_mem h SMP_IPI_MMIO v n m) k)\<lparr>halted := True\<rparr> = (harts m k)\<lparr>halted := True\<rparr>"
proof -
  define d where "d = CHR ''M'' # addr_size SMP_IPI_MMIO (length bs) @ CHR '':'' # hex_image bs"
  have d: "d \<noteq> []" "hd d = CHR ''M''" "CHR ''#'' \<notin> set d" "length d \<le> 4095"
    using assms(2) fmt_addr_length [of SMP_IPI_MMIO] fmt_size_length [of 4] by (simp_all add: d_def)
  have "(SMP_IPI_MMIO :: 32 word) = word_of_nat (hex_nat (fmt_x (unat SMP_IPI_MMIO)))" by simp
  moreover have "ipi_byte (SMP_IPI_MMIO + word_of_nat i)" if "i < length bs" for i
  proof -
    have "i \<in> {0, 1, 2, 3}" using that assms(2) by auto
    then show ?thesis by (elim insertE) (simp_all add: ipi_byte_def)
  qed
  moreover have "same_harts w (received d rest w)" using ready_wired [OF assms(1)] by (simp add: same_harts_def)
  ultimately obtain w' where w': "handle_write_memory emu_callbacks (received d rest w) = Some (reply ''OK'' w')"
    "same_harts w w'" "w_link w' = w_link (received d rest w)" "conn w' = conn (received d rest w)"
    using ipi_reg.write_packet_bytes [of "fmt_x (unat SMP_IPI_MMIO)" "fmt_x (length bs)" bs w "received d rest w"
        "drop (length d + 1) (w_buf w)" SMP_IPI_MMIO] assms(2)
    by (auto simp: d_def)
  have "dispatch emu_callbacks (hd d) (received d rest w) = Some (0, reply ''OK'' w')"
    using w'(1) by (simp add: d(2) dispatch_def)
  from command_reply [OF assms(1) _ d(1,3,4) this w'(3,4)] assms(2,3)
  have "gdb_stub_process emu_callbacks w = Some (0, reply ''OK'' w')" "tx (w_link (reply ''OK'' w')) = tx (w_link w) @ ack w @ frame ''OK''"
    by (simp_all add: d_def)
  moreover have "(hart (reply ''OK'' w') k)\<lparr>halted := True\<rparr> = (hart w k)\<lparr>halted := True\<rparr>" for k
    using w'(2) by (simp add: same_harts_def reply_frames)
  moreover have "(harts (rv32_cpu_write_mem h SMP_IPI_MMIO v n m) k)\<lparr>halted := True\<rparr> = (harts m k)\<lparr>halted := True\<rparr>"
    by (simp add: rv32_cpu_write_mem_def Let_def call_check_same in_ram_def)
  ultimately show ?thesis by blast
qed

lemma ipi_register_unreachable_witness:
  "\<exists>w1. gdb_stub_process emu_callbacks (client_sends (frame (CHR ''M'' # addr_size SMP_IPI_MMIO 4 @ CHR '':'' #
       hex_image [5, 0, 1, 0])) (demo_start 2)) = Some (0, w1) \<and> tx (w_link w1) = ''+'' @ frame ''OK'' \<and>
     pc (hart w1 1) = pc (hart (demo_start 2) 1) \<and> memory (hart w1 0) = memory (hart (demo_start 2) 0)"
proof -
  let ?w = "client_sends (frame (CHR ''M'' # addr_size SMP_IPI_MMIO 4 @ CHR '':'' # hex_image [5, 0, 1, 0])) (demo_start 2)"
  have "rx (w_link ?w) = frame (CHR ''M'' # addr_size SMP_IPI_MMIO 4 @ CHR '':'' # hex_image [5, 0, 1, 0]) @ ''''" by simp
  from ipi_register_unreachable [OF demo_ready _ this, of 0 0 4 "to_mach (demo_start 2)" 0] demo_facts [of 2]
  obtain w1 where w1: "gdb_stub_process emu_callbacks ?w = Some (0, w1)" "tx (w_link w1) = ''+'' @ frame ''OK''"
    "\<forall>k. (hart w1 k)\<lparr>halted := True\<rparr> = (hart (demo_start 2) k)\<lparr>halted := True\<rparr>"
    by (auto simp del: frame_def)
  have "pc ((hart w1 1)\<lparr>halted := True\<rparr>) = pc ((hart (demo_start 2) 1)\<lparr>halted := True\<rparr>)"
    "memory ((hart w1 0)\<lparr>halted := True\<rparr>) = memory ((hart (demo_start 2) 0)\<lparr>halted := True\<rparr>)"
    using w1(3) by simp_all
  with w1(1,2) show ?thesis by auto
qed

subsection \<open>Searching the emulator's memory\<close>

abbreviation search_args :: "32 word \<Rightarrow> 32 word \<Rightarrow> byte list \<Rightarrow> string" where
  "search_args a len pat \<equiv> fmt_x (unat a) @ CHR '':'' # fmt_x (unat len) @ CHR '':'' # hex_image pat"

lemma search_dispatch:
  fixes a len :: "32 word"
  assumes w: "ready w" and d: "d = ''qSearch:memory:'' @ search_args a len pat"
    and pat: "0 < length pat" "length pat \<le> 2000" "length pat \<le> unat len"
  defines "off \<equiv> length (fmt_x (unat a)) + length (fmt_x (unat len)) + 17"
  shows "\<exists>w1. (\<exists>f. w1 = upd_buf f (received d rest w)) \<and> wired w1 \<and> mem_view w1 = mem_view w \<and> w_link w1 = w_link (received d rest w) \<and>
      conn w1 = conn (received d rest w) \<and> drop off (w_buf w1) = hex_image pat @ NUL # drop (length d + 1) (w_buf w) \<and>
      dispatch emu_callbacks CHR ''q'' (received d rest w) = done0
        (case search_loop emu_callbacks (a + len - word_of_nat (length pat)) off (length pat) a w1 of
           None \<Rightarrow> None
         | Some (Some b, w2) \<Rightarrow> Some (reply (''1,'' @ fmt_addr b) w2)
         | Some (None, w2) \<Rightarrow> Some (reply ''0'' w2))"
proof -
  let ?w = "received d rest w" and ?r = "drop (length d + 1) (w_buf w)"
  define w1 where "w1 = upd_buf (\<lambda>_. ''qSearch:memory:'' @ fmt_x (unat a) @ NUL # fmt_x (unat len) @ NUL #
      hex_image pat @ NUL # ?r) ?w"
  have buf: "w_buf ?w = ''qSearch:memory:'' @ fmt_x (unat a) @ CHR '':'' # fmt_x (unat len) @ CHR '':'' # hex_image pat @ NUL # ?r"
    by (simp add: d)
  have s: "snprintf 48 (CHR ''1'' # CHR '','' # fmt_0x 8 (unat b)) = CHR ''1'' # CHR '','' # fmt_addr (b :: 32 word)" for b
    using length_fmt_addr [of b] by (simp add: fmt_addr_def snprintf_def)
  have "cstr (w_buf ?w) = Some d" using buf by (simp add: d fmt_x_plain)
  then have q: "handle_query emu_callbacks ?w = handle_search_memory emu_callbacks ?w"
    by (simp add: handle_query_def d starts_with_def)
  have "handle_search_memory emu_callbacks ?w =
      (case search_loop emu_callbacks (a + len - word_of_nat (length pat)) off (length pat) a w1 of
           None \<Rightarrow> None
         | Some (Some b, w2) \<Rightarrow> Some (reply (''1,'' @ fmt_addr b) w2)
         | Some (None, w2) \<Rightarrow> Some (reply ''0'' w2))"
    using handle_search_memory_packet [OF hexstr_fmt_x hexstr_fmt_x _ _ emu_xlen _ buf, of "length pat" emu_callbacks] pat
    by (simp add: w1_def off_def s split: option.split)
  moreover have "drop off (w_buf w1) = hex_image pat @ NUL # ?r"
    using append_eq_conv_conj [of "''qSearch:memory:'' @ fmt_x (unat a) @ NUL # fmt_x (unat len) @ [NUL]" "hex_image pat @ NUL # ?r"]
    by (simp add: w1_def off_def numeral_eq_Suc)
  moreover have "wired w1" "mem_view w1 = mem_view w" "w_link w1 = w_link ?w" "conn w1 = conn ?w"
    using w by (simp_all add: w1_def ready_def good_def mem_view_def fun_eq_iff)
  moreover have "\<exists>f. w1 = upd_buf f ?w" by (auto simp: w1_def)
  ultimately show ?thesis using q by (intro exI [of _ w1]) (simp add: dispatch_def)
qed

lemma search_frame_facts:
  fixes a len :: "32 word"
  assumes "d = ''qSearch:memory:'' @ search_args a len pat" "length pat \<le> 2000"
  shows "d \<noteq> []" "hd d = CHR ''q''" "CHR ''#'' \<notin> set d" "length d \<le> 4095"
  using assms fmt_addr_length [of a] fmt_addr_length [of len] by simp_all

lemma fmt_addr_word_length: "length (fmt_addr (b :: 32 word)) = 8"
  using length_fmt_addr [of b] by simp

text \<open>
  C28: Memory search. For a range that ends below the top of the address space, a
  \<open>qSearch:memory\<close> packet is answered with the lowest address of the range at which the whole
  pattern lies in memory and within the range, and with 0 when there is none; the search
  always ends and leaves memory as it was.
\<close>

theorem search_first_match:
  fixes a len :: "32 word" and pat :: "byte list"
  assumes "ready w" "rx (w_link w) = frame (''qSearch:memory:'' @ search_args a len pat) @ rest"
    and "0 < length pat" "length pat \<le> 2000" "length pat \<le> unat len" "unat a + unat len < 2 ^ 32"
  defines "hits \<equiv> {k. k + length pat \<le> unat len \<and> load_bytes (mem_view w) (a + word_of_nat k) (length pat) = pat}"
  shows "\<exists>w1. gdb_stub_process emu_callbacks w = Some (0, w1) \<and> mem_view w1 = mem_view w \<and>
    tx (w_link w1) = tx (w_link w) @ ack w @
      frame (if hits = {} then ''0'' else ''1,'' @ fmt_addr (a + word_of_nat (Min hits)))"
proof -
  define d where "d = ''qSearch:memory:'' @ search_args a len pat"
  note f = search_frame_facts [OF d_def assms(4)]
  define off where "off = length (fmt_x (unat a)) + length (fmt_x (unat len)) + 17"
  obtain w1 where w1: "wired w1" "mem_view w1 = mem_view w" "w_link w1 = w_link (received d rest w)"
      "conn w1 = conn (received d rest w)" "drop off (w_buf w1) = hex_image pat @ NUL # drop (length d + 1) (w_buf w)"
    and disp: "dispatch emu_callbacks (hd d) (received d rest w) = done0
        (case search_loop emu_callbacks (a + len - word_of_nat (length pat)) off (length pat) a w1 of
           None \<Rightarrow> None
         | Some (Some b, w2) \<Rightarrow> Some (reply (''1,'' @ fmt_addr b) w2)
         | Some (None, w2) \<Rightarrow> Some (reply ''0'' w2))"
    using search_dispatch [OF assms(1) d_def assms(3-5), of rest] f(2) by (auto simp: off_def)
  obtain w2 where w2: "emu_mem.same_view w1 w2" "dispatch emu_callbacks (hd d) (received d rest w) =
      Some (0, reply (if hits = {} then ''0'' else ''1,'' @ fmt_addr (a + word_of_nat (Min hits))) w2)"
    using emu_mem.search_hits [OF w1(1,5) assms(3,5), of a] assms(6) disp unfolding hits_def w1(2) by (auto split: if_splits)
  then show ?thesis
    using command_reply [OF assms(1) assms(2) [folded d_def] f(1,3,4) w2(2)] w1 w2(1)
    by (auto simp: emu_mem.same_view_def fmt_addr_word_length)
qed

text \<open>A session in which the client has sent \<open>s\<close> and the memory is zero.\<close>

definition blank_memory :: "string \<Rightarrow> emu" where
  "blank_memory s = w_sim_update (\<lambda>y. y\<lparr>sys_harts := \<lambda>h. (sys_harts y h)\<lparr>memory := \<lambda>_. 0\<rparr>\<rparr>)
     (client_sends s (demo_start 1))"

lemma blank_memory:
  "ready (blank_memory s)" "mem_view (blank_memory s) = (\<lambda>_. 0)" "rx (w_link (blank_memory s)) = s"
  "tx (w_link (blank_memory s)) = []" "no_ack_mode (w_stub (blank_memory s)) = False"
proof -
  have "config ((hart (demo_start 1) h)\<lparr>memory := \<lambda>_. 0\<rparr>) = config (hart (demo_start 1) h)" for h
    using sys_edges(2) [of "w_sim (demo_start 1)"] demo_ready [of s 1]
    by (simp add: ready_def good_def config_eq_iff edges_eq_iff)
  then show "ready (blank_memory s)" "mem_view (blank_memory s) = (\<lambda>_. 0)" "rx (w_link (blank_memory s)) = s"
    "tx (w_link (blank_memory s)) = []" "no_ack_mode (w_stub (blank_memory s)) = False"
    using demo_ready [of s 1]
    by (simp_all add: blank_memory_def ready_def good_def sys_ok_def mem_view_def fun_eq_iff demo_facts)
qed

lemma search_first_match_witness:
  "\<exists>w1. gdb_stub_process emu_callbacks (blank_memory (frame (''qSearch:memory:'' @ search_args 0x80000000 16 [0]))) = Some (0, w1) \<and>
    tx (w_link w1) = ''+'' @ frame (''1,'' @ fmt_addr (0x80000000 :: 32 word))"
proof -
  have h: "{k. k + length [0 :: byte] \<le> unat (16 :: 32 word) \<and>
      load_bytes (\<lambda>_. 0 :: byte) ((0x80000000 :: 32 word) + word_of_nat k) (length [0 :: byte]) = [0]} = {..15}"
    by (auto simp: load_bytes_Suc)
  have m: "Min {..(15 :: nat)} = 0" by (rule Min_eqI) auto
  show ?thesis
    using search_first_match [of "blank_memory (frame (''qSearch:memory:'' @ search_args 0x80000000 16 [0]))"
        "0x80000000" 16 "[0]" "[]", unfolded blank_memory(2-) h m] by (auto simp: blank_memory(1))
qed

text \<open>
  C36: A search to the top of the address space. When the last address to be tried is the
  greatest of all and the pattern is nowhere in memory, the search starts over at address 0
  and never ends: the call does not return.
\<close>

theorem search_never_ends:
  fixes a len :: "32 word" and pat :: "byte list"
  assumes "ready w" "rx (w_link w) = frame (''qSearch:memory:'' @ search_args a len pat) @ rest"
    and "0 < length pat" "length pat \<le> 2000" "length pat \<le> unat len" "a + len = word_of_nat (length pat - 1)"
    and "\<forall>c. load_bytes (mem_view w) c (length pat) \<noteq> pat"
  shows "gdb_stub_process emu_callbacks w = None"
proof -
  define d where "d = ''qSearch:memory:'' @ search_args a len pat"
  note f = search_frame_facts [OF d_def assms(4)]
  have e: "a + len - word_of_nat (length pat) = - 1"
    using assms(3) by (cases "length pat") (simp_all add: assms(6))
  have "dispatch emu_callbacks (hd d) (received d rest w) = None"
    using search_dispatch [OF assms(1) d_def assms(3-5), of rest] emu_mem.search_diverges assms(7) f(2)
    unfolding e by fastforce
  then show ?thesis
    using process_frame [of w "[]" d rest emu_callbacks] assms(1,2) f ready_buf [OF assms(1)]
    by (simp add: ready_def d_def)
qed

lemma search_never_ends_witness:
  "gdb_stub_process emu_callbacks (blank_memory (frame (''qSearch:memory:'' @ search_args 0xFFFFFFFF 1 [1]))) = None"
  using search_never_ends [of "blank_memory (frame (''qSearch:memory:'' @ search_args 0xFFFFFFFF 1 [1]))"
      "0xFFFFFFFF" 1 "[1]" "[]"] blank_memory
  by (simp add: load_bytes_Suc)

end
