(* ===== verification/Rv32i_Spec.thy ===== *)
theory Rv32i_Spec
  imports RV32_Cpu
begin

text \<open>
  The RV32I instruction set as its manual has it, against which the decoder and the
  executor of src/emu/rv32_cpu.c are checked: instructions as a datatype with immediates of
  their own width, their encoding by formats, and their effect on a machine in terms of
  signed immediates. FENCE, which the processor does not implement, has an encoding of its
  own.
\<close>

subsection \<open>Instructions\<close>

type_synonym xreg = "5 word"

datatype cond = EQ | NE | LT | GE | LTU | GEU
datatype load_kind = LB | LH | LW | LBU | LHU
datatype store_kind = SB | SH | SW
datatype imm_op = ADDI | SLTI | SLTIU | XORI | ORI | ANDI
datatype shift_op = SLLI | SRLI | SRAI
datatype reg_op = RADD | RSUB | RSLL | RSLT | RSLTU | RXOR | RSRL | RSRA | ROR | RAND

text \<open>Offsets of jumps and branches are counted in units of two bytes.\<close>

datatype instr =
    Lui xreg "20 word"
  | Auipc xreg "20 word"
  | Jal xreg "20 word"
  | Jalr xreg xreg "12 word"
  | Branch cond xreg xreg "12 word"
  | Load load_kind xreg xreg "12 word"
  | Store store_kind xreg xreg "12 word"
  | Op_imm imm_op xreg xreg "12 word"
  | Shift_imm shift_op xreg xreg "5 word"
  | Op reg_op xreg xreg xreg
  | Ecall
  | Ebreak

subsection \<open>Encoding\<close>

definition enc_r :: "7 word \<Rightarrow> xreg \<Rightarrow> 3 word \<Rightarrow> xreg \<Rightarrow> xreg \<Rightarrow> 7 word \<Rightarrow> 32 word" where
  "enc_r opc rd f3 rs1 rs2 f7 = ucast opc OR push_bit 7 (ucast rd) OR push_bit 12 (ucast f3) OR
     push_bit 15 (ucast rs1) OR push_bit 20 (ucast rs2) OR push_bit 25 (ucast f7)"

definition enc_i :: "7 word \<Rightarrow> xreg \<Rightarrow> 3 word \<Rightarrow> xreg \<Rightarrow> 12 word \<Rightarrow> 32 word" where
  "enc_i opc rd f3 rs1 imm = ucast opc OR push_bit 7 (ucast rd) OR push_bit 12 (ucast f3) OR
     push_bit 15 (ucast rs1) OR push_bit 20 (ucast imm)"

text \<open>
  In the other formats the bits of the immediate go to the places of \<open>rd\<close> and
  \<open>funct7\<close>, or are reordered within the upper twenty bits.
\<close>

definition enc_s :: "7 word \<Rightarrow> 3 word \<Rightarrow> xreg \<Rightarrow> xreg \<Rightarrow> 12 word \<Rightarrow> 32 word" where
  "enc_s opc f3 rs1 rs2 imm = enc_r opc (ucast imm) f3 rs1 rs2 (ucast (drop_bit 5 imm))"

definition b_low :: "12 word \<Rightarrow> 5 word" where
  "b_low off = push_bit 1 (ucast off) OR of_bool (bit off 10)"

definition b_high :: "12 word \<Rightarrow> 7 word" where
  "b_high off = take_bit 6 (ucast (drop_bit 4 off)) OR push_bit 6 (of_bool (bit off 11))"

definition enc_b :: "3 word \<Rightarrow> xreg \<Rightarrow> xreg \<Rightarrow> 12 word \<Rightarrow> 32 word" where
  "enc_b f3 rs1 rs2 off = enc_r 0x63 (b_low off) f3 rs1 rs2 (b_high off)"

definition enc_u :: "7 word \<Rightarrow> xreg \<Rightarrow> 20 word \<Rightarrow> 32 word" where
  "enc_u opc rd imm = ucast opc OR push_bit 7 (ucast rd) OR push_bit 12 (ucast imm)"

definition j_bits :: "20 word \<Rightarrow> 20 word" where
  "j_bits off = take_bit 8 (drop_bit 11 off) OR push_bit 8 (of_bool (bit off 10)) OR
     push_bit 9 (take_bit 10 off) OR push_bit 19 (of_bool (bit off 19))"

definition enc_j :: "xreg \<Rightarrow> 20 word \<Rightarrow> 32 word" where
  "enc_j rd off = enc_u 0x6F rd (j_bits off)"

fun f3_cond :: "cond \<Rightarrow> 3 word" where
  "f3_cond EQ = 0" | "f3_cond NE = 1" | "f3_cond LT = 4" | "f3_cond GE = 5"
| "f3_cond LTU = 6" | "f3_cond GEU = 7"

fun f3_load :: "load_kind \<Rightarrow> 3 word" where
  "f3_load LB = 0" | "f3_load LH = 1" | "f3_load LW = 2" | "f3_load LBU = 4" | "f3_load LHU = 5"

fun f3_store :: "store_kind \<Rightarrow> 3 word" where
  "f3_store SB = 0" | "f3_store SH = 1" | "f3_store SW = 2"

fun f3_imm :: "imm_op \<Rightarrow> 3 word" where
  "f3_imm ADDI = 0" | "f3_imm SLTI = 2" | "f3_imm SLTIU = 3" | "f3_imm XORI = 4"
| "f3_imm ORI = 6" | "f3_imm ANDI = 7"

fun f3_reg :: "reg_op \<Rightarrow> 3 word" where
  "f3_reg RADD = 0" | "f3_reg RSUB = 0" | "f3_reg RSLL = 1" | "f3_reg RSLT = 2" | "f3_reg RSLTU = 3"
| "f3_reg RXOR = 4" | "f3_reg RSRL = 5" | "f3_reg RSRA = 5" | "f3_reg ROR = 6" | "f3_reg RAND = 7"

fun f7_reg :: "reg_op \<Rightarrow> 7 word" where
  "f7_reg RSUB = 0x20" | "f7_reg RSRA = 0x20" | "f7_reg _ = 0"

fun encode :: "instr \<Rightarrow> 32 word" where
  "encode (Lui rd imm) = enc_u 0x37 rd imm"
| "encode (Auipc rd imm) = enc_u 0x17 rd imm"
| "encode (Jal rd off) = enc_j rd off"
| "encode (Jalr rd rs1 imm) = enc_i 0x67 rd 0 rs1 imm"
| "encode (Branch c rs1 rs2 off) = enc_b (f3_cond c) rs1 rs2 off"
| "encode (Load k rd rs1 imm) = enc_i 0x03 rd (f3_load k) rs1 imm"
| "encode (Store k rs1 rs2 imm) = enc_s 0x23 (f3_store k) rs1 rs2 imm"
| "encode (Op_imm a rd rs1 imm) = enc_i 0x13 rd (f3_imm a) rs1 imm"
| "encode (Shift_imm SLLI rd rs1 sh) = enc_r 0x13 rd 1 rs1 sh 0"
| "encode (Shift_imm SRLI rd rs1 sh) = enc_r 0x13 rd 5 rs1 sh 0"
| "encode (Shift_imm SRAI rd rs1 sh) = enc_r 0x13 rd 5 rs1 sh 0x20"
| "encode (Op a rd rs1 rs2) = enc_r 0x33 rd (f3_reg a) rs1 rs2 (f7_reg a)"
| "encode Ecall = enc_i 0x73 0 0 0 0"
| "encode Ebreak = enc_i 0x73 0 0 0 1"

text \<open>\<open>FENCE\<close>, with the bits that say what it orders.\<close>

definition encode_fence :: "12 word \<Rightarrow> 32 word" where
  "encode_fence fm = enc_i 0x0F 0 0 0 fm"

subsection \<open>Effect\<close>

fun holds :: "cond \<Rightarrow> 32 word \<Rightarrow> 32 word \<Rightarrow> bool" where
  "holds EQ a b = (a = b)"
| "holds NE a b = (a \<noteq> b)"
| "holds LT a b = (sint a < sint b)"
| "holds GE a b = (sint b \<le> sint a)"
| "holds LTU a b = (uint a < uint b)"
| "holds GEU a b = (uint b \<le> uint a)"

fun imm_result :: "imm_op \<Rightarrow> 32 word \<Rightarrow> 12 word \<Rightarrow> 32 word" where
  "imm_result ADDI a i = word_of_int (sint a + sint i)"
| "imm_result SLTI a i = of_bool (sint a < sint i)"
| "imm_result SLTIU a i = of_bool (a < scast i)"
| "imm_result XORI a i = a XOR scast i"
| "imm_result ORI a i = a OR scast i"
| "imm_result ANDI a i = a AND scast i"

fun shift_result :: "shift_op \<Rightarrow> 32 word \<Rightarrow> nat \<Rightarrow> 32 word" where
  "shift_result SLLI a n = word_of_int (uint a * 2 ^ n)"
| "shift_result SRLI a n = word_of_int (uint a div 2 ^ n)"
| "shift_result SRAI a n = word_of_int (sint a div 2 ^ n)"

fun reg_result :: "reg_op \<Rightarrow> 32 word \<Rightarrow> 32 word \<Rightarrow> 32 word" where
  "reg_result RADD a b = a + b"
| "reg_result RSUB a b = a - b"
| "reg_result RSLL a b = shift_result SLLI a (unat b mod 32)"
| "reg_result RSLT a b = of_bool (sint a < sint b)"
| "reg_result RSLTU a b = of_bool (a < b)"
| "reg_result RXOR a b = a XOR b"
| "reg_result RSRL a b = shift_result SRLI a (unat b mod 32)"
| "reg_result RSRA a b = shift_result SRAI a (unat b mod 32)"
| "reg_result ROR a b = a OR b"
| "reg_result RAND a b = a AND b"

text \<open>Register numbers, and the machine after the program counter has moved on.\<close>

abbreviation xr :: "nat \<Rightarrow> xreg \<Rightarrow> 'e mach \<Rightarrow> 32 word" where
  "xr h r m \<equiv> rv32_cpu_read_reg (harts m h) (uint r)"

abbreviation set_xr :: "nat \<Rightarrow> xreg \<Rightarrow> 32 word \<Rightarrow> 'e mach \<Rightarrow> 'e mach" where
  "set_xr h r v m \<equiv> upd_hart h (rv32_cpu_write_reg (uint r) v) m"

fun load_result :: "load_kind \<Rightarrow> nat \<Rightarrow> 32 word \<Rightarrow> 'e mach \<Rightarrow> 32 word \<times> 'e mach" where
  "load_result LB h a m = (let (v, m1) = rv32_cpu_read_mem h a 1 m in (scast (ucast v :: 8 word), m1))"
| "load_result LH h a m = (let (v, m1) = rv32_cpu_read_mem h a 2 m in (scast (ucast v :: 16 word), m1))"
| "load_result LW h a m = rv32_cpu_read_mem h a 4 m"
| "load_result LBU h a m = (let (v, m1) = rv32_cpu_read_mem h a 1 m in (ucast (ucast v :: 8 word), m1))"
| "load_result LHU h a m = (let (v, m1) = rv32_cpu_read_mem h a 2 m in (ucast (ucast v :: 16 word), m1))"

fun store_bytes_of :: "store_kind \<Rightarrow> int" where
  "store_bytes_of SB = 1" | "store_bytes_of SH = 2" | "store_bytes_of SW = 4"

text \<open>
  The effect of an instruction fetched from \<open>a\<close>, on a machine whose program counter
  already points behind it.
\<close>

fun effect :: "nat \<Rightarrow> instr \<Rightarrow> 32 word \<Rightarrow> 'e mach \<Rightarrow> 'e mach" where
  "effect h (Lui rd imm) a m = set_xr h rd (push_bit 12 (ucast imm)) m"
| "effect h (Auipc rd imm) a m = set_xr h rd (a + push_bit 12 (ucast imm)) m"
| "effect h (Jal rd off) a m = set_pc h (a + 2 * scast off) (set_xr h rd (pc (harts m h)) m)"
| "effect h (Jalr rd rs1 imm) a m =
     set_pc h (word_of_int (2 * (uint (xr h rs1 m + scast imm) div 2))) (set_xr h rd (pc (harts m h)) m)"
| "effect h (Branch c rs1 rs2 off) a m =
     (if holds c (xr h rs1 m) (xr h rs2 m) then set_pc h (a + 2 * scast off) m else m)"
| "effect h (Load k rd rs1 imm) a m =
     (let (v, m1) = load_result k h (xr h rs1 m + scast imm) m in set_xr h rd v m1)"
| "effect h (Store k rs1 rs2 imm) a m =
     rv32_cpu_write_mem h (xr h rs1 m + scast imm) (xr h rs2 m) (store_bytes_of k) m"
| "effect h (Op_imm opr rd rs1 imm) a m = set_xr h rd (imm_result opr (xr h rs1 m) imm) m"
| "effect h (Shift_imm opr rd rs1 sh) a m = set_xr h rd (shift_result opr (xr h rs1 m) (unat sh)) m"
| "effect h (Op opr rd rs1 rs2) a m = set_xr h rd (reg_result opr (xr h rs1 m) (xr h rs2 m)) m"
| "effect h Ecall a m = put_text (ecall_text a) m"
| "effect h Ebreak a m = upd_hart h (halted_update (\<lambda>_. True)) m"

end
