(* ===== verification/Rv32i_Decode.thy ===== *)
theory Rv32i_Decode
  imports Rv32i_Spec
begin

text \<open>
  The decoder and executor of src/emu/rv32_cpu.c against the manual: the fields of every
  instruction format are read back bit by bit, the immediates are sign-extended, and every
  instruction has the effect of \<open>Rv32i_Spec\<close>.
\<close>

subsection \<open>Fields\<close>

lemma low_masks:
  "(0x7F :: 32 word) = mask 7" "(0x1F :: 32 word) = mask 5" "(0x7 :: 32 word) = mask 3"
  "(0xFFF :: 32 word) = mask 12" "(0xFF :: 32 word) = mask 8" "(0x3FF :: 32 word) = mask 10"
  "(0x3F :: 32 word) = mask 6" "(0xF :: 32 word) = mask 4" "(0x1 :: 32 word) = mask 1"
  by (simp_all add: mask_eq_exp_minus_1)

lemma bit_beyond: "LENGTH('a) \<le> n \<Longrightarrow> \<not> bit (w :: 'a::len word) n"
  using bit_imp_le_length by (metis leD)

text \<open>The bits of the formats.\<close>

lemma bit_field:
  fixes v :: "'b::len word" and i :: "32 word"
  assumes "n < 32"
  shows "bit (push_bit k (ucast v :: 32 word)) n \<longleftrightarrow> k \<le> n \<and> bit v (n - k)"
    "bit (push_bit k (i AND mask j)) n \<longleftrightarrow> k \<le> n \<and> n - k < j \<and> bit i (n - k)"
    "bit (ucast v :: 32 word) n = bit v n" "bit (drop_bit k i) n = bit i (k + n)"
  using assms by (auto simp: bit_push_bit_iff bit_unsigned_iff bit_and_iff bit_mask_iff bit_drop_bit_eq)

lemma bit_enc_r:
  "n < 32 \<Longrightarrow> bit (enc_r opc rd f3 rs1 rs2 f7) n \<longleftrightarrow> bit opc n \<or> 7 \<le> n \<and> bit rd (n - 7) \<or>
     12 \<le> n \<and> bit f3 (n - 12) \<or> 15 \<le> n \<and> bit rs1 (n - 15) \<or> 20 \<le> n \<and> bit rs2 (n - 20) \<or>
     25 \<le> n \<and> bit f7 (n - 25)"
  by (simp add: enc_r_def bit_or_iff bit_field)

lemma bit_enc_i:
  "n < 32 \<Longrightarrow> bit (enc_i opc rd f3 rs1 imm) n \<longleftrightarrow> bit opc n \<or> 7 \<le> n \<and> bit rd (n - 7) \<or>
     12 \<le> n \<and> bit f3 (n - 12) \<or> 15 \<le> n \<and> bit rs1 (n - 15) \<or> 20 \<le> n \<and> bit imm (n - 20)"
  by (simp add: enc_i_def bit_or_iff bit_field)

text \<open>A field is read by shifting and masking.\<close>

lemma field_eq:
  fixes i :: "32 word" and v :: "'b::len word"
  assumes "\<And>n. n < LENGTH('b) \<Longrightarrow> bit i (k + n) = bit v n" "k + LENGTH('b) \<le> 32"
  shows "drop_bit k i AND mask (LENGTH('b)) = ucast v"
proof (rule bit_word_eqI)
  fix n assume "n < LENGTH(32)"
  then show "bit (drop_bit k i AND mask (LENGTH('b))) n = bit (ucast v :: 32 word) n"
    using assms bit_beyond [of n v]
    by (cases "n < LENGTH('b)") (auto simp: bit_and_iff bit_drop_bit_eq bit_mask_iff bit_unsigned_iff)
qed

lemma fields_r:
  "enc_r opc rd f3 rs1 rs2 f7 AND 0x7F = ucast opc"
  "drop_bit 7 (enc_r opc rd f3 rs1 rs2 f7) AND 0x1F = ucast rd"
  "drop_bit 12 (enc_r opc rd f3 rs1 rs2 f7) AND 0x7 = ucast f3"
  "drop_bit 15 (enc_r opc rd f3 rs1 rs2 f7) AND 0x1F = ucast rs1"
  "drop_bit 20 (enc_r opc rd f3 rs1 rs2 f7) AND 0x1F = ucast rs2"
  "drop_bit 25 (enc_r opc rd f3 rs1 rs2 f7) AND 0x7F = ucast f7"
  using field_eq [of "enc_r opc rd f3 rs1 rs2 f7" 0 opc] field_eq [of "enc_r opc rd f3 rs1 rs2 f7" 7 rd]
    field_eq [of "enc_r opc rd f3 rs1 rs2 f7" 12 f3] field_eq [of "enc_r opc rd f3 rs1 rs2 f7" 15 rs1]
    field_eq [of "enc_r opc rd f3 rs1 rs2 f7" 20 rs2] field_eq [of "enc_r opc rd f3 rs1 rs2 f7" 25 f7]
  unfolding low_masks by (simp_all add: bit_enc_r bit_beyond)

lemma fields_i:
  "enc_i opc rd f3 rs1 imm AND 0x7F = ucast opc"
  "drop_bit 7 (enc_i opc rd f3 rs1 imm) AND 0x1F = ucast rd"
  "drop_bit 12 (enc_i opc rd f3 rs1 imm) AND 0x7 = ucast f3"
  "drop_bit 15 (enc_i opc rd f3 rs1 imm) AND 0x1F = ucast rs1"
  "drop_bit 20 (enc_i opc rd f3 rs1 imm) AND 0xFFF = ucast imm"
  using field_eq [of "enc_i opc rd f3 rs1 imm" 0 opc] field_eq [of "enc_i opc rd f3 rs1 imm" 7 rd]
    field_eq [of "enc_i opc rd f3 rs1 imm" 12 f3] field_eq [of "enc_i opc rd f3 rs1 imm" 15 rs1]
    field_eq [of "enc_i opc rd f3 rs1 imm" 20 imm]
  unfolding low_masks by (simp_all add: bit_enc_i bit_beyond)

lemma bit_enc_u:
  "n < 32 \<Longrightarrow> bit (enc_u opc rd imm) n \<longleftrightarrow> bit opc n \<or> 7 \<le> n \<and> bit rd (n - 7) \<or> 12 \<le> n \<and> bit imm (n - 12)"
  by (simp add: enc_u_def bit_or_iff bit_field)

lemma fields_u:
  "enc_u opc rd imm AND 0x7F = ucast opc"
  "drop_bit 7 (enc_u opc rd imm) AND 0x1F = ucast rd"
  using field_eq [of "enc_u opc rd imm" 0 opc] field_eq [of "enc_u opc rd imm" 7 rd]
  unfolding low_masks by (simp_all add: bit_enc_u bit_beyond)

lemma upper_imm: "enc_u opc rd imm AND 0xFFFFF000 = push_bit 12 (ucast imm)"
proof (rule bit_word_eqI)
  have m: "(0xFFFFF000 :: 32 word) = push_bit 12 (mask 20)" by (simp add: mask_eq_exp_minus_1)
  fix n assume "n < LENGTH(32)"
  then show "bit (enc_u opc rd imm AND 0xFFFFF000) n = bit (push_bit 12 (ucast imm) :: 32 word) n"
    unfolding m by (auto simp: bit_and_iff bit_enc_u bit_push_bit_iff bit_mask_iff bit_unsigned_iff bit_beyond)
qed

subsection \<open>Immediates\<close>

lemma bit_b_slots:
  "n < 5 \<Longrightarrow> bit (b_low off) n \<longleftrightarrow> (if n = 0 then bit off 10 else bit off (n - 1))"
  "n < 7 \<Longrightarrow> bit (b_high off) n \<longleftrightarrow> (if n < 6 then bit off (4 + n) else bit off 11)"
  unfolding b_low_def b_high_def bit_or_iff bit_push_bit_iff bit_take_bit_iff bit_unsigned_iff bit_drop_bit_eq
    bit_of_bool_iff
  by auto

lemma bit_j_slots:
  "n < 20 \<Longrightarrow> bit (j_bits off) n \<longleftrightarrow> (if n < 8 then bit off (11 + n) else if n = 8 then bit off 10
     else if n < 19 then bit off (n - 9) else bit off 19)"
  unfolding j_bits_def bit_or_iff bit_push_bit_iff bit_take_bit_iff bit_drop_bit_eq bit_of_bool_iff
  by auto

lemma bit_double_offset:
  "n < 32 \<Longrightarrow> bit (push_bit 1 (ucast (v :: 'b::len word)) :: 32 word) n \<longleftrightarrow> 1 \<le> n \<and> bit v (n - 1)"
  by (rule bit_field)

lemma bit_imm_branch:
  assumes "n < 32"
  shows "bit (imm_branch i) n \<longleftrightarrow> (if n = 0 then False else if n < 5 then bit i (n + 7)
     else if n < 11 then bit i (n + 20) else if n = 11 then bit i 7 else if n = 12 then bit i 31 else False)"
proof -
  have "bit (imm_branch i) n \<longleftrightarrow> 12 \<le> n \<and> bit i (31 + (n - 12)) \<or> 11 \<le> n \<and> n - 11 < 1 \<and> bit i (7 + (n - 11)) \<or>
      5 \<le> n \<and> n - 5 < 6 \<and> bit i (25 + (n - 5)) \<or> 1 \<le> n \<and> n - 1 < 4 \<and> bit i (8 + (n - 1))"
    unfolding imm_branch_def low_masks bit_or_iff using assms
    by (simp only: bit_field) (auto simp: bit_push_bit_iff bit_drop_bit_eq)
  then show ?thesis
    using assms bit_beyond [of "31 + (n - 12)" i]
    by (cases "n < 5"; cases "n < 11"; cases "n = 11"; cases "n = 12") (auto simp: add.commute)
qed

lemma imm_branch_enc: "imm_branch (enc_b f3 rs1 rs2 off) = push_bit 1 (ucast off)"
proof (rule bit_word_eqI)
  fix n assume "n < LENGTH(32)"
  then have n: "n < 32" by simp
  consider "n = 0" | "0 < n" "n < 5" | "5 \<le> n" "n < 11" | "n = 11" | "n = 12" | "12 < n" by linarith
  then show "bit (imm_branch (enc_b f3 rs1 rs2 off)) n = bit (push_bit 1 (ucast off) :: 32 word) n"
    unfolding enc_b_def bit_double_offset [OF n] using n
    by cases (auto simp: bit_imm_branch bit_enc_r bit_b_slots bit_beyond)
qed

lemma bit_imm_jal:
  assumes "n < 32"
  shows "bit (imm_jal i) n \<longleftrightarrow> (if n = 0 then False else if n < 11 then bit i (n + 20) else if n = 11 then bit i 20
     else if n < 20 then bit i n else if n = 20 then bit i 31 else False)"
proof -
  have "bit (imm_jal i) n \<longleftrightarrow> 20 \<le> n \<and> bit i (31 + (n - 20)) \<or> 12 \<le> n \<and> n - 12 < 8 \<and> bit i (12 + (n - 12)) \<or>
      11 \<le> n \<and> n - 11 < 1 \<and> bit i (20 + (n - 11)) \<or> 1 \<le> n \<and> n - 1 < 10 \<and> bit i (21 + (n - 1))"
    unfolding imm_jal_def low_masks bit_or_iff using assms
    by (simp only: bit_field) (auto simp: bit_push_bit_iff bit_drop_bit_eq)
  then show ?thesis
    using assms bit_beyond [of "31 + (n - 20)" i]
    by (cases "n < 11"; cases "n = 11"; cases "n < 20"; cases "n = 20") (auto simp: add.commute)
qed

lemma imm_jal_enc: "imm_jal (enc_j rd off) = push_bit 1 (ucast off)"
proof (rule bit_word_eqI)
  fix n assume "n < LENGTH(32)"
  then have n: "n < 32" by simp
  consider "n = 0" | "0 < n" "n < 11" | "n = 11" | "11 < n" "n < 20" | "n = 20" | "20 < n" by linarith
  then show "bit (imm_jal (enc_j rd off)) n = bit (push_bit 1 (ucast off) :: 32 word) n"
    unfolding enc_j_def bit_double_offset [OF n] using n
    by cases (auto simp: bit_imm_jal bit_enc_u bit_j_slots bit_beyond)
qed

lemma bit_imm_store:
  assumes "n < 32"
  shows "bit (imm_store i) n \<longleftrightarrow> (if n < 5 then bit i (n + 7) else bit i (n + 20))"
proof -
  have "bit (imm_store i) n \<longleftrightarrow> 5 \<le> n \<and> bit i (25 + (n - 5)) \<or> n < 5 \<and> bit i (7 + n)"
    unfolding imm_store_def low_masks using assms
    by (auto simp: bit_or_iff bit_push_bit_iff bit_and_iff bit_mask_iff bit_drop_bit_eq)
  then show ?thesis using assms by (cases "n < 5") (auto simp: add.commute)
qed

lemma imm_store_enc: "imm_store (enc_s opc f3 rs1 rs2 imm) = ucast imm"
proof (rule bit_word_eqI)
  fix n assume "n < LENGTH(32)"
  then have n: "n < 32" by simp
  consider "n < 5" | "5 \<le> n" "n < 12" | "12 \<le> n" by linarith
  then show "bit (imm_store (enc_s opc f3 rs1 rs2 imm)) n = bit (ucast imm :: 32 word) n"
    unfolding enc_s_def using n
    by cases (auto simp: bit_imm_store bit_enc_r bit_unsigned_iff bit_drop_bit_eq bit_beyond)
qed

text \<open>Sign extension.\<close>

lemma bit_sign_extend:
  assumes "0 < k" "k < 32" "n < 32"
  shows "bit (sign_extend v k) n \<longleftrightarrow> (if bit v (k - 1) then bit v n \<or> k \<le> n else bit v n)"
proof -
  have s: "v AND push_bit (k - 1) 1 \<noteq> 0 \<longleftrightarrow> bit v (k - 1)"
    by (metis and.commute bit_iff_and_push_bit_not_eq_0)
  have m: "push_bit k 1 - 1 = (mask k :: 32 word)" by (simp add: mask_eq_exp_minus_1 push_bit_eq_mult)
  show ?thesis
    unfolding sign_extend_def s m using assms by (auto simp: bit_or_iff bit_not_iff bit_mask_iff)
qed

lemma bit_scast: "n < LENGTH('b) \<Longrightarrow> bit (scast (v :: 'a::len word) :: 'b::len word) n
    \<longleftrightarrow> bit v (min n (LENGTH('a) - 1))"
  by (cases "n < LENGTH('a)"; cases "n = LENGTH('a) - 1") (auto simp: bit_signed_iff min_def bit_beyond)

lemma sign_extend_imm: "sign_extend (ucast (i :: 12 word)) 12 = scast i"
  by (rule bit_word_eqI) (auto simp: bit_sign_extend bit_scast bit_unsigned_iff min_def bit_beyond)

lemma sign_extend_byte: "sign_extend (ucast (i :: 8 word)) 8 = scast i"
  by (rule bit_word_eqI) (auto simp: bit_sign_extend bit_scast bit_unsigned_iff min_def bit_beyond)

lemma sign_extend_half: "sign_extend (ucast (i :: 16 word)) 16 = scast i"
  by (rule bit_word_eqI) (auto simp: bit_sign_extend bit_scast bit_unsigned_iff min_def bit_beyond)

lemma double_word: "push_bit (Suc 0) (w :: 32 word) = 2 * w" "push_bit 1 w = 2 * w"
  by (simp_all add: push_bit_eq_mult mult.commute)

lemma sign_extend_offset:
  "sign_extend (push_bit 1 (ucast (off :: 12 word))) 13 = 2 * scast off"
  "sign_extend (push_bit 1 (ucast (off' :: 20 word))) 21 = 2 * scast off'"
proof -
  have "sign_extend (push_bit 1 (ucast off)) 13 = push_bit 1 (scast off)"
  proof (rule bit_word_eqI)
    fix n assume "n < LENGTH(32)"
    then have n: "n < 32" by simp
    have "bit (push_bit 1 (ucast off) :: 32 word) 12 = bit off 11" using bit_double_offset [of 12 off] by simp
    then show "bit (sign_extend (push_bit 1 (ucast off)) 13) n = bit (push_bit 1 (scast off) :: 32 word) n"
      unfolding bit_push_bit_iff [of 1 "scast off"] using n
      by (simp only: bit_sign_extend bit_double_offset) (auto simp: bit_scast min_def bit_beyond)
  qed
  then show "sign_extend (push_bit 1 (ucast off)) 13 = 2 * scast off" by (simp only: double_word)
  have "sign_extend (push_bit 1 (ucast off')) 21 = push_bit 1 (scast off')"
  proof (rule bit_word_eqI)
    fix n assume "n < LENGTH(32)"
    then have n: "n < 32" by simp
    have "bit (push_bit 1 (ucast off') :: 32 word) 20 = bit off' 19" using bit_double_offset [of 20 off'] by simp
    then show "bit (sign_extend (push_bit 1 (ucast off')) 21) n = bit (push_bit 1 (scast off') :: 32 word) n"
      unfolding bit_push_bit_iff [of 1 "scast off'"] using n
      by (simp only: bit_sign_extend bit_double_offset) (auto simp: bit_scast min_def bit_beyond)
  qed
  then show "sign_extend (push_bit 1 (ucast off')) 21 = 2 * scast off'" by (simp only: double_word)
qed

subsection \<open>Results\<close>

lemma read_mem_narrow:
  "rv32_cpu_read_mem h a 1 m = (v, m1) \<Longrightarrow> ucast (ucast v :: 8 word) = v"
  "rv32_cpu_read_mem h a 2 m = (v, m1) \<Longrightarrow> ucast (ucast v :: 16 word) = v"
proof -
  have "ucast (ucast (ucast b :: 32 word) :: 8 word) = (ucast (b :: byte) :: 32 word)" for b
    by (rule bit_word_eqI) (auto simp: bit_unsigned_iff dest: bit_imp_le_length)
  then show "rv32_cpu_read_mem h a 1 m = (v, m1) \<Longrightarrow> ucast (ucast v :: 8 word) = v"
    by (auto simp: rv32_cpu_read_mem_def Let_def split: if_splits)
  have "ucast (ucast (le16 r i) :: 16 word) = le16 r i" for r i
    by (rule bit_word_eqI) (auto simp: le16_def bit_unsigned_iff bit_or_iff bit_push_bit_iff dest: bit_imp_le_length)
  then show "rv32_cpu_read_mem h a 2 m = (v, m1) \<Longrightarrow> ucast (ucast v :: 16 word) = v"
    by (auto simp: rv32_cpu_read_mem_def Let_def split: if_splits)
qed

lemma sint_imm: "sint (scast (i :: 12 word) :: 32 word) = sint i"
  by (simp add: sint_up_scast is_up)

lemma imm_add: "word_of_int (sint a + sint (i :: 12 word)) = (a :: 32 word) + scast i"
  by simp

lemma uint_drop: "uint (drop_bit n (a :: 32 word)) = uint a div 2 ^ n"
proof -
  have "take_bit 32 (uint a) = uint a" using uint_lt2p [of a] by (simp add: take_bit_int_eq_self_iff)
  then show ?thesis by (subst unsigned_drop_bit_eq) (simp add: drop_bit_eq_div)
qed

lemma shift_words:
  "push_bit n (a :: 32 word) = word_of_int (uint a * 2 ^ n)"
  "drop_bit n a = word_of_int (uint a div 2 ^ n)"
  "signed_drop_bit n a = word_of_int (sint a div 2 ^ n)"
proof -
  show "push_bit n a = word_of_int (uint a * 2 ^ n)" by (simp add: push_bit_eq_mult)
  show "drop_bit n a = word_of_int (uint a div 2 ^ n)" by (metis uint_drop word_of_int_uint)
  have "sint (signed_drop_bit n a) = sint a div 2 ^ n" by (simp add: sint_signed_drop_bit_eq drop_bit_eq_div)
  moreover have "signed_drop_bit n a = word_of_int (sint (signed_drop_bit n a))" by simp
  ultimately show "signed_drop_bit n a = word_of_int (sint a div 2 ^ n)" by (simp only:)
qed

lemma shift_field: "unat ((b :: 32 word) AND 0x1F) = unat b mod 32"
proof -
  have "b AND 0x1F = take_bit 5 b" by (simp add: low_masks take_bit_eq_mask and.commute)
  then have "unat (b AND 0x1F) = take_bit 5 (unat b)" by (simp only: unsigned_take_bit_eq)
  then show ?thesis by (simp add: take_bit_eq_mod)
qed

lemma even_target: "(a :: 32 word) AND NOT 1 = word_of_int (2 * (uint a div 2))"
proof -
  have "a AND NOT 1 = push_bit 1 (drop_bit 1 a)"
    by (rule bit_word_eqI, unfold bit_and_iff bit_not_iff bit_1_iff bit_push_bit_iff bit_drop_bit_eq) auto
  also have "\<dots> = word_of_int (uint (drop_bit 1 a) * 2 ^ 1)" by (rule shift_words)
  also have "uint (drop_bit 1 a) = uint a div 2" using uint_drop [of 1 a] by simp
  finally show ?thesis by (simp add: mult.commute)
qed

lemma even_target': "(a :: 32 word) AND - 2 = word_of_int (2 * (uint a div 2))"
  using even_target [of a] by simp

lemma f3_words:
  "(ucast (f3_cond c) :: 32 word) = (case c of EQ \<Rightarrow> 0 | NE \<Rightarrow> 1 | LT \<Rightarrow> 4 | GE \<Rightarrow> 5 | LTU \<Rightarrow> 6 | GEU \<Rightarrow> 7)"
  "(ucast (f3_load l) :: 32 word) = (case l of LB \<Rightarrow> 0 | LH \<Rightarrow> 1 | LW \<Rightarrow> 2 | LBU \<Rightarrow> 4 | LHU \<Rightarrow> 5)"
  "(ucast (f3_store s) :: 32 word) = (case s of SB \<Rightarrow> 0 | SH \<Rightarrow> 1 | SW \<Rightarrow> 2)"
  by ((cases c, simp_all)[1], (cases l, simp_all)[1], cases s, simp_all)

lemma f3_imm_words: "(ucast (f3_imm a) :: 32 word) =
    (case a of ADDI \<Rightarrow> 0 | SLTI \<Rightarrow> 2 | SLTIU \<Rightarrow> 3 | XORI \<Rightarrow> 4 | ORI \<Rightarrow> 6 | ANDI \<Rightarrow> 7)"
  by (cases a) simp_all

lemma alu_imm_result: "alu_imm (ucast (f3_imm opr)) a (ucast (i :: 12 word)) = imm_result opr a i"
  unfolding alu_imm_def Let_def sign_extend_imm f3_imm_words
  by (cases opr) (simp_all add: sint_imm imm_add del: of_int_add)

lemma alu_reg_result: "alu_reg (ucast (f3_reg opr)) (ucast (f7_reg opr)) a b = reg_result opr a b"
  by (cases opr) (simp_all add: alu_reg_def shift_field shift_words del: of_int_mult)

text \<open>The shift amount and the bit that tells SRAI from SRLI, read as an immediate.\<close>

lemma shift_imm_fields:
  "f_imm12 (enc_r opc rd f3 rs1 sh f7) AND 0x1F = ucast sh"
  "f_imm12 (enc_r opc rd f3 rs1 sh f7) AND 0x400 \<noteq> 0 \<longleftrightarrow> bit f7 5"
proof -
  have "(x AND 0xFFF) AND 0x1F = x AND 0x1F" for x :: "32 word"
    by (simp add: and.assoc)
  then show "f_imm12 (enc_r opc rd f3 rs1 sh f7) AND 0x1F = ucast sh"
    by (simp add: f_imm12_def fields_r)
  have "(0x400 :: 32 word) = push_bit 10 1" by simp
  then have "v AND 0x400 \<noteq> 0 \<longleftrightarrow> bit v 10" for v :: "32 word"
    by (metis and.commute bit_iff_and_push_bit_not_eq_0)
  then show "f_imm12 (enc_r opc rd f3 rs1 sh f7) AND 0x400 \<noteq> 0 \<longleftrightarrow> bit f7 5"
    unfolding f_imm12_def low_masks
    by (simp add: bit_and_iff bit_mask_iff bit_drop_bit_eq bit_enc_r bit_beyond)
qed

lemma alu_shift_result:
  assumes "imm AND 0x1F = ucast (sh :: 5 word)"
  shows "alu_imm 1 a imm = shift_result SLLI a (unat sh)"
    "imm AND 0x400 = 0 \<Longrightarrow> alu_imm 5 a imm = shift_result SRLI a (unat sh)"
    "imm AND 0x400 \<noteq> 0 \<Longrightarrow> alu_imm 5 a imm = shift_result SRAI a (unat sh)"
proof -
  have "unat (ucast sh :: 32 word) = unat sh"
    using unsigned_less [of sh, where 'a = nat] by (simp add: unsigned_ucast_eq take_bit_nat_eq_self_iff)
  then show "alu_imm 1 a imm = shift_result SLLI a (unat sh)"
    "imm AND 0x400 = 0 \<Longrightarrow> alu_imm 5 a imm = shift_result SRLI a (unat sh)"
    "imm AND 0x400 \<noteq> 0 \<Longrightarrow> alu_imm 5 a imm = shift_result SRAI a (unat sh)"
    by (simp_all add: alu_imm_def Let_def assms shift_words del: of_int_mult)
qed

lemma branch_holds: "branch_taken (ucast (f3_cond c)) a b = holds c a b"
  unfolding branch_taken_def f3_words by (cases c) (auto simp: word_less_def word_le_def)

lemmas field_defs = f_rd_def f_rs1_def f_rs2_def f_funct3_def f_funct7_def f_imm12_def

lemma uint_xreg: "uint (ucast (r :: xreg) :: 32 word) = uint r"
  using uint_lt2p [of r] by (simp add: unsigned_ucast_eq take_bit_int_eq_self_iff)

text \<open>The instructions by format.\<close>

lemma execute_upper:
  "rv32_execute h (encode (Lui rd imm)) a m = effect h (Lui rd imm) a m"
  "rv32_execute h (encode (Auipc rd imm)) a m = effect h (Auipc rd imm) a m"
  by (simp_all add: rv32_execute_def Let_def fields_u field_defs uint_xreg upper_imm)

lemma execute_jumps:
  "rv32_execute h (encode (Jal rd off)) a m = effect h (Jal rd off) a m"
  "rv32_execute h (encode (Jalr rd rs1 imm)) a m = effect h (Jalr rd rs1 imm) a m"
proof -
  have j: "enc_j rd off AND 0x7F = 0x6F" "drop_bit 7 (enc_j rd off) AND 0x1F = ucast rd"
    by (simp_all add: enc_j_def fields_u)
  show "rv32_execute h (encode (Jal rd off)) a m = effect h (Jal rd off) a m"
    unfolding rv32_execute_def Let_def exec_jal_def encode.simps j(1) f_rd_def j(2) imm_jal_enc sign_extend_offset
    by (simp add: uint_xreg)
  show "rv32_execute h (encode (Jalr rd rs1 imm)) a m = effect h (Jalr rd rs1 imm) a m"
    by (simp add: rv32_execute_def Let_def fields_i field_defs uint_xreg exec_jalr_def sign_extend_imm even_target'
        del: of_int_mult)
qed

lemma execute_branch: "rv32_execute h (encode (Branch c rs1 rs2 off)) a m = effect h (Branch c rs1 rs2 off) a m"
proof -
  have b: "enc_b f3 rs1 rs2 off AND 0x7F = 0x63" "drop_bit 15 (enc_b f3 rs1 rs2 off) AND 0x1F = ucast rs1"
    "drop_bit 20 (enc_b f3 rs1 rs2 off) AND 0x1F = ucast rs2" "drop_bit 12 (enc_b f3 rs1 rs2 off) AND 0x7 = ucast f3"
    for f3
    by (simp_all add: enc_b_def fields_r)
  show ?thesis
    unfolding rv32_execute_def Let_def exec_branch_def encode.simps b(1) field_defs b(2-4) imm_branch_enc
      sign_extend_offset branch_holds uint_xreg
    by simp
qed

lemma execute_memory:
  "rv32_execute h (encode (Load k rd rs1 imm)) a m = effect h (Load k rd rs1 imm) a m"
  "rv32_execute h (encode (Store s rs1 rs2 imm)) a m = effect h (Store s rs1 rs2 imm) a m"
proof -
  have masks: "v AND 0xFF = ucast (ucast v :: 8 word)" "v AND 0xFFFF = ucast (ucast v :: 16 word)" for v :: "32 word"
  proof -
    have "v AND mask 8 = ucast (ucast v :: 8 word)" "v AND mask 16 = ucast (ucast v :: 16 word)"
      by (rule bit_word_eqI; auto simp: bit_and_iff bit_mask_iff bit_unsigned_iff)+
    then show "v AND 0xFF = ucast (ucast v :: 8 word)" "v AND 0xFFFF = ucast (ucast v :: 16 word)"
      by (simp_all add: mask_eq_exp_minus_1)
  qed
  have ext: "sign_extend v 8 = scast (ucast v :: 8 word)" if "rv32_cpu_read_mem h x 1 m = (v, m1)" for v m1 x
    using sign_extend_byte [of "ucast v"] read_mem_narrow(1) [OF that] by simp
  have ext2: "sign_extend v 16 = scast (ucast v :: 16 word)" if "rv32_cpu_read_mem h x 2 m = (v, m1)" for v m1 x
    using sign_extend_half [of "ucast v"] read_mem_narrow(2) [OF that] by simp
  show "rv32_execute h (encode (Load k rd rs1 imm)) a m = effect h (Load k rd rs1 imm) a m"
    by (cases k) (auto simp: rv32_execute_def Let_def fields_i field_defs uint_xreg exec_load_def sign_extend_imm
        masks ext ext2 split: prod.split)
  have s: "enc_s 0x23 f3 rs1 rs2 imm AND 0x7F = 0x23" "drop_bit 15 (enc_s 0x23 f3 rs1 rs2 imm) AND 0x1F = ucast rs1"
    "drop_bit 20 (enc_s 0x23 f3 rs1 rs2 imm) AND 0x1F = ucast rs2"
    "drop_bit 12 (enc_s 0x23 f3 rs1 rs2 imm) AND 0x7 = ucast f3" for f3
    by (simp_all add: enc_s_def fields_r)
  show "rv32_execute h (encode (Store s rs1 rs2 imm)) a m = effect h (Store s rs1 rs2 imm) a m"
    by (cases s) (simp_all add: rv32_execute_def Let_def exec_store_def field_defs s uint_xreg imm_store_enc sign_extend_imm)
qed

lemma execute_arith:
  "rv32_execute h (encode (Op_imm opr rd rs1 imm)) a m = effect h (Op_imm opr rd rs1 imm) a m"
  "rv32_execute h (encode (Shift_imm shf rd rs1 sh)) a m = effect h (Shift_imm shf rd rs1 sh) a m"
  "rv32_execute h (encode (Op rop rd rs1 rs2)) a m = effect h (Op rop rd rs1 rs2) a m"
proof -
  show "rv32_execute h (encode (Op_imm opr rd rs1 imm)) a m = effect h (Op_imm opr rd rs1 imm) a m"
    by (simp add: rv32_execute_def Let_def fields_i field_defs uint_xreg exec_op_imm_def alu_imm_result)
  show "rv32_execute h (encode (Op rop rd rs1 rs2)) a m = effect h (Op rop rd rs1 rs2) a m"
    by (simp add: rv32_execute_def Let_def fields_r field_defs uint_xreg exec_op_def alu_reg_result)
  have sl: "alu_imm 1 v (f_imm12 (enc_r opc rd f3 rs1 sh f7)) = shift_result SLLI v (unat sh)"
    "\<not> bit f7 5 \<Longrightarrow> alu_imm 5 v (f_imm12 (enc_r opc rd f3 rs1 sh f7)) = shift_result SRLI v (unat sh)"
    "bit f7 5 \<Longrightarrow> alu_imm 5 v (f_imm12 (enc_r opc rd f3 rs1 sh f7)) = shift_result SRAI v (unat sh)" for v opc f3 f7
    using alu_shift_result [OF shift_imm_fields(1)] shift_imm_fields(2) by metis+
  have "\<not> bit (0 :: 7 word) 5" "bit (0x20 :: 7 word) 5" by simp_all
  then show "rv32_execute h (encode (Shift_imm shf rd rs1 sh)) a m = effect h (Shift_imm shf rd rs1 sh) a m"
    by (cases shf) (simp_all add: rv32_execute_def Let_def fields_r f_rd_def f_rs1_def f_funct3_def uint_xreg
        exec_op_imm_def sl del: shift_result.simps)
qed

lemma execute_encode: "rv32_execute h (encode i) a m = effect h i a m"
proof (cases i)
  case Ecall
  then show ?thesis by (simp add: rv32_execute_def Let_def fields_i exec_system_def field_defs)
next
  case Ebreak
  then show ?thesis by (simp add: rv32_execute_def Let_def fields_i exec_system_def field_defs)
qed (simp_all only: execute_upper execute_jumps execute_branch execute_memory execute_arith)

text \<open>
  C3: The processor executes RV32I. For every instruction of the base set other than FENCE,
  with any registers and any immediate, decoding and executing its encoding has the effect
  the manual gives it: sign-extended immediates, jump and branch targets relative to the
  instruction, signed and unsigned comparisons, shifts by the low five bits, loads and
  stores of the right width and extension. EBREAK halts the hart for the debugger and ECALL,
  which has no environment to call, prints a line and does nothing else.
\<close>

theorem executes_rv32i: "rv32_execute h (encode i) a m = effect h i a m"
  by (rule execute_encode)

text \<open>
  FENCE, which the base set has and the README claims, is not implemented: any FENCE
  stops the hart as an unknown opcode does.
\<close>

lemma fence_stops: "rv32_execute h (encode_fence fm) a m =
  upd_hart h (running_update (\<lambda>_. False)) (put_text (unknown_text 0x0F a) m)"
  by (simp add: rv32_execute_def Let_def encode_fence_def fields_i)

end
