(* ===== verification/Hart_View.thy ===== *)
theory Hart_View
  imports Rv32i_Decode Smp_Sync
begin

text \<open>
  Symbolic runs of one hart: the machine as a function of what a run of that hart can change,
  an instruction as a step on these values, and words of a program in memory.
\<close>

subsection \<open>A machine in the middle of a run\<close>

text \<open>
  The machine \<open>m\<close> with the registers, program counter and instruction count of hart
  \<open>h\<close> and the shared memory replaced: what a run of \<open>h\<close> alone can change.
\<close>

definition view ::
    "'e mach \<Rightarrow> nat \<Rightarrow> (nat \<Rightarrow> 32 word) \<Rightarrow> 32 word \<Rightarrow> (nat \<Rightarrow> byte) \<Rightarrow> 64 word \<Rightarrow> 'e mach" where
  "view m h rg p r n = m\<lparr>harts := (\<lambda>k.
     (let c = (if k = 0 then (harts m k)\<lparr>memory := r\<rparr> else harts m k)
      in if k = h then c\<lparr>regs := rg, pc := p, instruction_count := n\<rparr> else c))\<rparr>"

text \<open>A hook that never reports a hit, and a hart that can run undisturbed.\<close>

definition quiet_hook :: "'e check_fn option \<Rightarrow> int \<Rightarrow> 'e \<Rightarrow> bool" where
  "quiet_hook f i e = (case f of None \<Rightarrow> True | Some check \<Rightarrow> \<forall>a l. check i a l e = (False, e))"

definition free_hart :: "nat \<Rightarrow> 'e mach \<Rightarrow> bool" where
  "free_hart h m = (running (harts m h) \<and> \<not> halted (harts m h) \<and>
     shared_ram (harts m h) = (if h = 0 then None else Some 0) \<and> shared_ram (harts m 0) = None \<and>
     quiet_hook (check_watchpoint_read (harts m h)) (hart_id (harts m (watchpoint_ctx (harts m h)))) (env m) \<and>
     quiet_hook (check_watchpoint_write (harts m h)) (hart_id (harts m (watchpoint_ctx (harts m h)))) (env m))"

lemma view_self: "view m h (regs (harts m h)) (pc (harts m h)) (memory (harts m 0)) (instruction_count (harts m h)) = m"
proof -
  have "(\<lambda>k. let c = (if k = 0 then (harts m k)\<lparr>memory := memory (harts m 0)\<rparr> else harts m k)
      in if k = h then c\<lparr>regs := regs (harts m h), pc := pc (harts m h),
        instruction_count := instruction_count (harts m h)\<rparr> else c) = harts m"
    by (rule ext) (simp add: Let_def)
  then show ?thesis by (simp add: view_def)
qed

lemma view_simps [simp]:
  "regs (harts (view m h rg p r n) h) = rg" "pc (harts (view m h rg p r n) h) = p"
  "running (harts (view m h rg p r n) k) = running (harts m k)"
  "halted (harts (view m h rg p r n) k) = halted (harts m k)"
  "memory (harts (view m h rg p r n) 0) = r"
  "shared_ram (harts (view m h rg p r n) k) = shared_ram (harts m k)"
  "check_watchpoint_read (harts (view m h rg p r n) k) = check_watchpoint_read (harts m k)"
  "check_watchpoint_write (harts (view m h rg p r n) k) = check_watchpoint_write (harts m k)"
  "env (view m h rg p r n) = env m" "stdout (view m h rg p r n) = stdout m"
  "watchpoint_ctx (harts (view m h rg p r n) k) = watchpoint_ctx (harts m k)"
  "hart_id (harts (view m h rg p r n) k) = hart_id (harts m k)"
  "instruction_count (harts (view m h rg p r n) h) = n"
  "k \<noteq> h \<Longrightarrow> regs (harts (view m h rg p r n) k) = regs (harts m k)"
  "k \<noteq> h \<Longrightarrow> pc (harts (view m h rg p r n) k) = pc (harts m k)"
  "k \<noteq> h \<Longrightarrow> k \<noteq> 0 \<Longrightarrow> harts (view m h rg p r n) k = harts m k"
  by (simp_all add: view_def Let_def)

lemma view_ram:
  assumes "free_hart h m"
  shows "rv32_cpu_ram h (view m h rg p r n) = 0" "rv32_cpu_ram 0 (view m h rg p r n) = 0"
  using assms by (simp_all add: rv32_cpu_ram_def free_hart_def)

lemma cpu_update_order:
  "c\<lparr>pc := p, instruction_count := n, regs := q\<rparr> = c\<lparr>regs := q, pc := p, instruction_count := n\<rparr>"
  "c\<lparr>regs := q, instruction_count := n, pc := p\<rparr> = c\<lparr>regs := q, pc := p, instruction_count := n\<rparr>"
  by (cases c; simp)+

lemma view_set_reg:
  "upd_hart h (rv32_cpu_write_reg k v) (view m h rg p r n) = view m h (if 0 < k \<and> k < 32 then rg(nat k := v) else rg) p r n"
  by (auto simp: view_def upd_hart_def rv32_cpu_write_reg_def cpu_update_order fun_eq_iff Let_def)

lemma view_get_reg:
  "rv32_cpu_read_reg (harts (view m h rg p r n) h) k = (if 0 < k \<and> k < 32 then rg (nat k) else 0)"
  by (auto simp: rv32_cpu_read_reg_def)

lemma view_set_pc: "upd_hart h (pc_update (\<lambda>_. q)) (view m h rg p r n) = view m h rg q r n"
  by (auto simp: view_def upd_hart_def cpu_update_order fun_eq_iff Let_def)

lemma view_call_check:
  assumes "free_hart h m"
  shows "call_check (check_watchpoint_read (harts m h)) h a k (view m h rg p r n) = view m h rg p r n"
    "call_check (check_watchpoint_write (harts m h)) h a k (view m h rg p r n) = view m h rg p r n"
  using assms by (auto simp: free_hart_def call_check_def quiet_hook_def split: option.splits)

lemma view_read:
  assumes "free_hart h m" "in_ram a 4"
  shows "rv32_cpu_read_mem h a 4 (view m h rg p r n) = (le32 r (unat (a - RAM_BASE)), view m h rg p r n)"
  using assms by (simp add: rv32_cpu_read_mem_def Let_def view_call_check view_ram free_hart_def)

lemma view_memory:
  "upd_hart 0 (memory_update (\<lambda>_. r')) (view m h rg p r n) = view m h rg p r' n"
  by (auto simp: view_def upd_hart_def fun_eq_iff Let_def)

lemma view_write:
  assumes "free_hart h m" "in_ram a 4"
  shows "rv32_cpu_write_mem h a v 4 (view m h rg p r n) = view m h rg p (put32 (unat (a - RAM_BASE)) v r) n"
  using assms by (simp add: rv32_cpu_write_mem_def Let_def view_call_check view_ram set_ram_def view_memory)

lemmas view_rules = view_read view_write view_set_reg view_get_reg view_set_pc

text \<open>One instruction.\<close>

lemma view_step:
  assumes "free_hart h m" "in_ram p 4" "le32 r (unat (p - RAM_BASE)) = encode i"
  shows "rv32_cpu_step h (view m h rg p r n) = effect h i p (view m h rg (p + 4) r (n + 1))"
proof -
  have h: "running (harts m h)" using assms(1) by (simp add: free_hart_def)
  have "upd_hart h (\<lambda>c. c\<lparr>pc := pc c + 4, instruction_count := instruction_count c + 1\<rparr>) (view m h rg p r n)
      = view m h rg (p + 4) r (n + 1)"
    by (auto simp: upd_hart_def view_def fun_eq_iff Let_def)
  then show ?thesis
    using h by (simp add: rv32_cpu_step_def Let_def view_read [OF assms(1,2)] assms(3) execute_encode)
qed

subsection \<open>Words in memory\<close>

lemma le32_bit:
  "n < 32 \<Longrightarrow> bit (le32 r i) n \<longleftrightarrow> (if n < 8 then bit (r i) n else if n < 16 then bit (r (i + 1)) (n - 8)
     else if n < 24 then bit (r (i + 2)) (n - 16) else bit (r (i + 3)) (n - 24))"
  unfolding le32_def by (auto simp: bit_or_iff bit_push_bit_iff bit_unsigned_iff dest: bit_imp_le_length)

lemma le32_put32:
  "le32 (put32 i v r) i = v" "i + 4 \<le> j \<or> j + 4 \<le> i \<Longrightarrow> le32 (put32 i v r) j = le32 r j"
proof -
  show "le32 (put32 i v r) i = v"
    by (rule bit_word_eqI) (auto simp: le32_bit put32_def bit_unsigned_iff bit_drop_bit_eq)
  show "le32 (put32 i v r) j = le32 r j" if "i + 4 \<le> j \<or> j + 4 \<le> i"
    using that by (auto simp: le32_def put32_def)
qed

lemma put32_outside: "i < j \<or> j + 4 \<le> i \<Longrightarrow> put32 j v r i = r i"
  by (auto simp: put32_def)

text \<open>A program in memory reads back word by word.\<close>

lemma length_code_bytes [simp]: "length (code_bytes ws) = 4 * length ws"
  by (induction ws) (simp_all add: code_bytes_def word_bytes_def)

lemma code_bytes_nth: "k < length ws \<Longrightarrow> j < 4 \<Longrightarrow> code_bytes ws ! (4 * k + j) = word_bytes (ws ! k) ! j"
proof (induction ws arbitrary: k)
  case (Cons w ws)
  have "code_bytes (w # ws) ! i = (if i < 4 then word_bytes w ! i else code_bytes ws ! (i - 4))" for i
  proof -
    have "length (word_bytes w) = 4" by (simp add: word_bytes_def)
    then show ?thesis by (simp add: code_bytes_def nth_append)
  qed
  with Cons show ?case by (cases k) simp_all
qed simp

lemma le32_word_bytes:
  assumes "\<And>j. j < 4 \<Longrightarrow> r (i + j) = word_bytes v ! j"
  shows "le32 r i = v"
proof -
  have "r i = ucast v" "r (i + 1) = ucast (drop_bit 8 v)" "r (i + 2) = ucast (drop_bit 16 v)"
    "r (i + 3) = ucast (drop_bit 24 v)"
    using assms [of 0] assms [of 1] assms [of 2] assms [of 3] by (simp_all add: word_bytes_def)
  then show ?thesis
    by (intro bit_word_eqI) (auto simp: le32_bit bit_unsigned_iff bit_drop_bit_eq)
qed

lemma le32_code:
  assumes "k < length ws" "\<And>i. off \<le> i \<Longrightarrow> i < off + 4 * length ws \<Longrightarrow> r i = code_bytes ws ! (i - off)"
  shows "le32 r (off + 4 * k) = ws ! k"
proof (rule le32_word_bytes)
  fix j :: nat assume "j < 4"
  then have "r (off + 4 * k + j) = code_bytes ws ! (4 * k + j)"
    using assms(1) assms(2) [of "off + 4 * k + j"] by (simp add: add.assoc)
  then show "r (off + 4 * k + j) = word_bytes (ws ! k) ! j"
    using code_bytes_nth [OF assms(1) \<open>j < 4\<close>] by simp
qed

lemma view_ram_write:
  assumes "free_hart h m" "\<not> a < RAM_BASE" "\<not> RAM_BASE + RAM_SIZE < a + 4"
  shows "ram_write32 a v (view m h rg p r n) = view m h rg p (put32 (unat (a - RAM_BASE)) v r) n"
  using assms by (auto simp: ram_write32_def view_ram set_ram_def view_memory)

lemma view_read_word:
  assumes "free_hart h m" "\<not> a < RAM_BASE" "\<not> RAM_BASE + RAM_SIZE < a + 4"
  shows "ram_read32 a (view m h rg p r n) = le32 r (unat (a - RAM_BASE))"
  using assms by (simp add: ram_read32_def view_ram)

end
