(* ===== verification/Worker_Ipi.thy ===== *)
theory Worker_Ipi
  imports Hart_View
begin

text \<open>
  The worker program of src/emu/smp_program.h under smp_sync.c: an interrupt delivered to a
  worker that waits at its poll address is served within the guard of 128 instructions. The
  run is executed symbolically, one instruction at a time, for any worker, any work item and
  any contents of the rest of the memory.
\<close>

subsection \<open>The program\<close>

text \<open>The instructions behind the words of \<open>smp_worker_code\<close>.\<close>

definition worker_instrs :: "instr list" where
  "worker_instrs =
     [Lui 8 0x80002, Op_imm ADDI 5 8 16, Shift_imm SLLI 28 4 2, Op RADD 5 5 28, Load LW 6 5 0,
      Branch EQ 6 0 6, Store SW 5 0 0, Jal 1 4, Jal 0 (- 14), Load LW 5 8 0, Branch NE 5 0 (- 2),
      Op_imm ADDI 5 4 1, Store SW 8 5 0, Load LW 7 8 8, Branch EQ 7 0 16, Load LW 6 8 4,
      Store SW 8 0 8, Op_imm ADDI 9 6 0, Load LW 7 8 12, Op_imm ADDI 7 7 1, Store SW 8 7 12,
      Op_imm ADDI 18 7 0, Store SW 8 0 0, Jal 0 (- 44)]"

lemma worker_code_words: "map encode worker_instrs = smp_worker_code"
  by code_simp

subsection \<open>The program in memory\<close>

definition worker_loaded :: "(nat \<Rightarrow> byte) \<Rightarrow> bool" where
  "worker_loaded r = (\<forall>k < 24. le32 r (0x30 + 4 * k) = smp_worker_code ! k)"

lemma worker_loadedI:
  "(\<And>i. 0x30 \<le> i \<Longrightarrow> i < 0x90 \<Longrightarrow> r i = code_bytes smp_worker_code ! (i - 0x30)) \<Longrightarrow> worker_loaded r"
  unfolding worker_loaded_def by (intro allI impI le32_code) (simp_all add: smp_worker_code_def)

lemma worker_loaded_put32: "0x90 \<le> i \<Longrightarrow> worker_loaded r \<Longrightarrow> worker_loaded (put32 i v r)"
  by (simp add: worker_loaded_def le32_put32)

lemma worker_word:
  assumes "worker_loaded r" "k < 24"
  shows "le32 r (0x30 + 4 * k) = encode (worker_instrs ! k)"
proof -
  have "k < length worker_instrs" using assms(2) by (simp add: worker_instrs_def)
  then show ?thesis using assms worker_code_words by (metis nth_map worker_loaded_def)
qed

lemma worker_words:
  assumes "worker_loaded r"
  shows
    "le32 r 0x30 = encode (Lui 8 0x80002)"
    "le32 r 0x34 = encode (Op_imm ADDI 5 8 16)"
    "le32 r 0x38 = encode (Shift_imm SLLI 28 4 2)"
    "le32 r 0x3c = encode (Op RADD 5 5 28)"
    "le32 r 0x40 = encode (Load LW 6 5 0)"
    "le32 r 0x44 = encode (Branch EQ 6 0 6)"
    "le32 r 0x48 = encode (Store SW 5 0 0)"
    "le32 r 0x4c = encode (Jal 1 4)"
    "le32 r 0x50 = encode (Jal 0 (- 14))"
    "le32 r 0x54 = encode (Load LW 5 8 0)"
    "le32 r 0x58 = encode (Branch NE 5 0 (- 2))"
    "le32 r 0x5c = encode (Op_imm ADDI 5 4 1)"
    "le32 r 0x60 = encode (Store SW 8 5 0)"
    "le32 r 0x64 = encode (Load LW 7 8 8)"
    "le32 r 0x68 = encode (Branch EQ 7 0 16)"
    "le32 r 0x6c = encode (Load LW 6 8 4)"
    "le32 r 0x70 = encode (Store SW 8 0 8)"
    "le32 r 0x74 = encode (Op_imm ADDI 9 6 0)"
    "le32 r 0x78 = encode (Load LW 7 8 12)"
    "le32 r 0x7c = encode (Op_imm ADDI 7 7 1)"
    "le32 r 0x80 = encode (Store SW 8 7 12)"
    "le32 r 0x84 = encode (Op_imm ADDI 18 7 0)"
    "le32 r 0x88 = encode (Store SW 8 0 0)"
    "le32 r 0x8c = encode (Jal 0 (- 44))"
  using worker_word [OF assms, of 0]
    worker_word [OF assms, of 1]
    worker_word [OF assms, of 2]
    worker_word [OF assms, of 3]
    worker_word [OF assms, of 4]
    worker_word [OF assms, of 5]
    worker_word [OF assms, of 6]
    worker_word [OF assms, of 7]
    worker_word [OF assms, of 8]
    worker_word [OF assms, of 9]
    worker_word [OF assms, of 10]
    worker_word [OF assms, of 11]
    worker_word [OF assms, of 12]
    worker_word [OF assms, of 13]
    worker_word [OF assms, of 14]
    worker_word [OF assms, of 15]
    worker_word [OF assms, of 16]
    worker_word [OF assms, of 17]
    worker_word [OF assms, of 18]
    worker_word [OF assms, of 19]
    worker_word [OF assms, of 20]
    worker_word [OF assms, of 21]
    worker_word [OF assms, of 22]
    worker_word [OF assms, of 23]
  by (simp_all add: worker_instrs_def del: encode.simps)

text \<open>Each instruction of the program as a step of the view.\<close>

lemma worker_step:
  assumes "free_hart h m" "worker_loaded r" "in_ram p 4" "unat (p - RAM_BASE) = a" "le32 r a = encode i"
  shows "rv32_cpu_step h (view m h rg p r n) = effect h i p (view m h rg (p + 4) r (n + 1))"
  using view_step [OF assms(1,3), of r i rg n] assms(4,5) by simp

lemma worker_steps:
  assumes m: "free_hart h m" and r: "worker_loaded r"
  shows
    "rv32_cpu_step h (view m h rg 0x80000034 r n) =
      view m h (rg(5 := rg 8 + 16)) (0x80000038) (r) (n + 1)"
    "rv32_cpu_step h (view m h rg 0x80000038 r n) =
      view m h (rg(28 := rg 4 * 4)) (0x8000003c) (r) (n + 1)"
    "rv32_cpu_step h (view m h rg 0x8000003c r n) =
      view m h (rg(5 := rg 5 + rg 28)) (0x80000040) (r) (n + 1)"
    "in_ram (rg 5) 4 \<Longrightarrow> rv32_cpu_step h (view m h rg 0x80000040 r n) =
      view m h (rg(6 := le32 r (unat (rg 5 - RAM_BASE)))) (0x80000044) (r) (n + 1)"
    "rv32_cpu_step h (view m h rg 0x80000044 r n) =
      view m h (rg) (if rg 6 = 0 then 0x80000050 else 0x80000048) (r) (n + 1)"
    "in_ram (rg 5) 4 \<Longrightarrow> rv32_cpu_step h (view m h rg 0x80000048 r n) =
      view m h (rg) (0x8000004c) (put32 (unat (rg 5 - RAM_BASE)) 0 r) (n + 1)"
    "rv32_cpu_step h (view m h rg 0x8000004c r n) =
      view m h (rg(1 := 0x80000050)) (0x80000054) (r) (n + 1)"
    "rv32_cpu_step h (view m h rg 0x80000050 r n) =
      view m h (rg) (0x80000034) (r) (n + 1)"
    "in_ram (rg 8) 4 \<Longrightarrow> rv32_cpu_step h (view m h rg 0x80000054 r n) =
      view m h (rg(5 := le32 r (unat (rg 8 - RAM_BASE)))) (0x80000058) (r) (n + 1)"
    "rv32_cpu_step h (view m h rg 0x80000058 r n) =
      view m h (rg) (if rg 5 = 0 then 0x8000005c else 0x80000054) (r) (n + 1)"
    "rv32_cpu_step h (view m h rg 0x8000005c r n) =
      view m h (rg(5 := rg 4 + 1)) (0x80000060) (r) (n + 1)"
    "in_ram (rg 8) 4 \<Longrightarrow> rv32_cpu_step h (view m h rg 0x80000060 r n) =
      view m h (rg) (0x80000064) (put32 (unat (rg 8 - RAM_BASE)) (rg 5) r) (n + 1)"
    "in_ram (rg 8 + 8) 4 \<Longrightarrow> rv32_cpu_step h (view m h rg 0x80000064 r n) =
      view m h (rg(7 := le32 r (unat (rg 8 + 8 - RAM_BASE)))) (0x80000068) (r) (n + 1)"
    "rv32_cpu_step h (view m h rg 0x80000068 r n) =
      view m h (rg) (if rg 7 = 0 then 0x80000088 else 0x8000006c) (r) (n + 1)"
    "in_ram (rg 8 + 4) 4 \<Longrightarrow> rv32_cpu_step h (view m h rg 0x8000006c r n) =
      view m h (rg(6 := le32 r (unat (rg 8 + 4 - RAM_BASE)))) (0x80000070) (r) (n + 1)"
    "in_ram (rg 8 + 8) 4 \<Longrightarrow> rv32_cpu_step h (view m h rg 0x80000070 r n) =
      view m h (rg) (0x80000074) (put32 (unat (rg 8 + 8 - RAM_BASE)) 0 r) (n + 1)"
    "rv32_cpu_step h (view m h rg 0x80000074 r n) =
      view m h (rg(9 := rg 6)) (0x80000078) (r) (n + 1)"
    "in_ram (rg 8 + 12) 4 \<Longrightarrow> rv32_cpu_step h (view m h rg 0x80000078 r n) =
      view m h (rg(7 := le32 r (unat (rg 8 + 12 - RAM_BASE)))) (0x8000007c) (r) (n + 1)"
    "rv32_cpu_step h (view m h rg 0x8000007c r n) =
      view m h (rg(7 := rg 7 + 1)) (0x80000080) (r) (n + 1)"
    "in_ram (rg 8 + 12) 4 \<Longrightarrow> rv32_cpu_step h (view m h rg 0x80000080 r n) =
      view m h (rg) (0x80000084) (put32 (unat (rg 8 + 12 - RAM_BASE)) (rg 7) r) (n + 1)"
    "rv32_cpu_step h (view m h rg 0x80000084 r n) =
      view m h (rg(18 := rg 7)) (0x80000088) (r) (n + 1)"
    "in_ram (rg 8) 4 \<Longrightarrow> rv32_cpu_step h (view m h rg 0x80000088 r n) =
      view m h (rg) (0x8000008c) (put32 (unat (rg 8 - RAM_BASE)) 0 r) (n + 1)"
    "rv32_cpu_step h (view m h rg 0x8000008c r n) =
      view m h (rg) (0x80000034) (r) (n + 1)"
  by (simp_all add: worker_step [OF m r] worker_words [OF r] view_rules m in_ram_def del: encode.simps)

subsection \<open>A run\<close>

lemma ipi_offset:
  assumes "h < 8"
  shows "unat (ipi_addr (int h) - RAM_BASE) = 0x2010 + 4 * h" "in_ram (ipi_addr (int h)) 4"
    "0x80002010 + word_of_nat h * 4 = ipi_addr (int h)" "\<not> ipi_addr (int h) < RAM_BASE"
    "\<not> RAM_BASE + RAM_SIZE < ipi_addr (int h) + 4"
proof -
  have "h \<in> {0, 1, 2, 3, 4, 5, 6, 7}" using assms by auto
  then show "unat (ipi_addr (int h) - RAM_BASE) = 0x2010 + 4 * h" "in_ram (ipi_addr (int h)) 4"
    "0x80002010 + word_of_nat h * 4 = ipi_addr (int h)" "\<not> ipi_addr (int h) < RAM_BASE"
    "\<not> RAM_BASE + RAM_SIZE < ipi_addr (int h) + 4"
    by (elim insertE; simp add: ipi_addr_def in_ram_def)+
qed

lemma view_ipi:
  assumes "free_hart h m" "h < 8"
  shows "ram_read32 (ipi_addr (int h)) (view m h rg p r n) = le32 r (0x2010 + 4 * h)"
  using assms ipi_offset [OF assms(2)]
  by (simp add: ram_read32_def view_ram)

lemma worker_loop_view:
  assumes "free_hart h m" "h < 8" "0 < g" "rv32_cpu_step h (view m h rg p r n) = view m h rg' p' r' n'"
  shows "worker_loop g h (view m h rg p r n) =
    (if (p' = SMP_WORKER_POLL \<or> p' = SMP_WORKER_SPIN) \<and> le32 r' (0x2010 + 4 * h) = 0 then view m h rg' p' r' n'
     else worker_loop (g - 1) h (view m h rg' p' r' n'))"
proof -
  have "running (harts m h)" "\<not> halted (harts m h)" using assms(1) by (simp_all add: free_hart_def)
  then show ?thesis
    using assms(3,4) view_ipi [OF assms(1,2)]
    by (cases g) (simp_all add: Let_def)
qed

text \<open>The first half clears the flag and enters the handler.\<close>

lemma worker_run_poll:
  assumes m: "free_hart h m" and h: "h < 8" and r: "worker_loaded r"
    and rg: "rg 4 = word_of_nat h" "rg 8 = SMP_SYNC_BASE" and ipi: "le32 r (0x2010 + 4 * h) \<noteq> 0"
  shows "worker_loop 128 h (view m h rg SMP_WORKER_POLL r n) =
      worker_loop 121 h (view m h
        (rg(28 := word_of_nat h * 4, 5 := ipi_addr (int h), 6 := le32 r (0x2010 + 4 * h), 1 := SMP_WORKER_SPIN))
        SMP_WORKER_HANDLE (put32 (0x2010 + 4 * h) 0 r) (7 + n))"
  using rg ipi r
  by (simp add: worker_loop_view [OF m h] worker_steps [OF m] ipi_offset [OF h] worker_loaded_put32 le32_put32)

text \<open>
  The second half takes the lock, which is free, and the work item, counts it as done,
  releases the lock and is back at the poll address.
\<close>

lemma worker_run_handle:
  assumes m: "free_hart h m" and h: "h < 8" and r: "worker_loaded r"
    and rg: "rg 8 = SMP_SYNC_BASE" and ipi: "le32 r (0x2010 + 4 * h) = 0"
    and sync: "le32 r 0x2000 = 0" "le32 r 0x2008 \<noteq> 0"
  shows "worker_loop 121 h (view m h rg SMP_WORKER_HANDLE r n) =
      view m h (rg(5 := rg 4 + 1, 6 := le32 r 0x2004, 9 := le32 r 0x2004, 7 := le32 r 0x200C + 1,
          18 := le32 r 0x200C + 1)) SMP_WORKER_POLL
        (put32 0x2000 0 (put32 0x200C (le32 r 0x200C + 1) (put32 0x2008 0 (put32 0x2000 (rg 4 + 1) r)))) (15 + n)"
proof -
  show ?thesis
    using rg ipi r sync
    by (simp add: worker_loop_view [OF m h] worker_steps [OF m] worker_loaded_put32 le32_put32 in_ram_def)
qed

text \<open>The whole run, on the memory it finds.\<close>

definition served :: "nat \<Rightarrow> (nat \<Rightarrow> byte) \<Rightarrow> nat \<Rightarrow> byte" where
  "served h r = (let r2 = put32 (0x2010 + 4 * h) 0 r in
     put32 0x2000 0 (put32 0x200C (le32 r 0x200C + 1) (put32 0x2008 0 (put32 0x2000 (word_of_nat h + 1) r2))))"

lemma worker_serves:
  assumes "free_hart h m" "h < 8" "worker_loaded r" "rg 4 = word_of_nat h" "rg 8 = SMP_SYNC_BASE"
    and "le32 r (0x2010 + 4 * h) \<noteq> 0" "le32 r 0x2000 = 0" "le32 r 0x2008 \<noteq> 0"
  shows "\<exists>rg'. worker_loop 128 h (view m h rg SMP_WORKER_POLL r n) = view m h rg' SMP_WORKER_POLL (served h r) (22 + n) \<and>
    rg' 9 = le32 r 0x2004 \<and> rg' 18 = le32 r 0x200C + 1"
proof -
  define r2 where "r2 = put32 (0x2010 + 4 * h) 0 r"
  have r2: "worker_loaded r2" "le32 r2 (0x2010 + 4 * h) = 0" "le32 r2 0x2000 = 0" "le32 r2 0x2008 \<noteq> 0"
    "le32 r2 0x2004 = le32 r 0x2004" "le32 r2 0x200C = le32 r 0x200C"
    using assms(3,7,8) by (simp_all add: r2_def worker_loaded_put32 le32_put32)
  show ?thesis
    using worker_run_poll [OF assms(1-6), of n]
      worker_run_handle [OF assms(1,2) r2(1) _ r2(2-4), of "rg(28 := word_of_nat h * 4, 5 := ipi_addr (int h),
        6 := le32 r (0x2010 + 4 * h), 1 := SMP_WORKER_SPIN)" "7 + n"] r2(5,6) assms(4,5)
    by (simp add: r2_def [symmetric] served_def Let_def) (intro exI conjI, rule refl, simp_all)
qed

text \<open>The block of shared words after the delivery and after the run.\<close>

definition delivered :: "nat \<Rightarrow> 32 word \<Rightarrow> (nat \<Rightarrow> byte) \<Rightarrow> nat \<Rightarrow> byte" where
  "delivered h item r = put32 (0x2010 + 4 * h) 1 (put32 0x2008 1 (put32 0x2004 item r))"

lemma delivered_words:
  "le32 (delivered h item r) (0x2010 + 4 * h) = 1" "le32 (delivered h item r) 0x2000 = le32 r 0x2000"
  "le32 (delivered h item r) 0x2008 = 1" "le32 (delivered h item r) 0x2004 = item"
  "le32 (delivered h item r) 0x200C = le32 r 0x200C" "worker_loaded r \<Longrightarrow> worker_loaded (delivered h item r)"
  by (simp_all add: delivered_def le32_put32 worker_loaded_put32)

lemma served_words:
  "le32 (served h r) 0x200C = le32 r 0x200C + 1" "le32 (served h r) 0x2008 = 0" "le32 (served h r) 0x2000 = 0"
  "le32 (served h r) (0x2010 + 4 * h) = 0"
  by (simp_all add: served_def Let_def le32_put32)

lemma shared_words_only:
  "h < 8 \<Longrightarrow> i < 0x2000 \<or> 0x2040 \<le> i \<Longrightarrow> served h r i = r i"
  "h < 8 \<Longrightarrow> i < 0x2000 \<or> 0x2040 \<le> i \<Longrightarrow> delivered h item r i = r i"
  by (auto simp: served_def delivered_def Let_def put32_outside)

lemma view_deliver:
  assumes "free_hart h m" "h < 8" "int h < nh" "0 < h"
  shows "smp_deliver_ipi nh (int h) item (view m h rg p r n) =
    view m h rg p (delivered h item r) n"
  using assms ipi_offset [OF assms(2)]
  by (simp add: smp_deliver_ipi_def view_ram_write delivered_def)

text \<open>
  C12: An interrupt is served. A worker that waits at its poll address, with the lock
  free and no watchpoint in its way, takes the work item delivered to it, runs its handler to
  the end within the guard of 128 instructions (it needs 22) and is back at the poll
  address: the item is in s1, \<open>shared_done\<close> has gone up by one and is in s2, the
  interrupt flag, the ready flag and the lock are clear, and nothing outside the block of
  shared words and no other hart has changed.
\<close>

theorem ipi_served:
  fixes m :: "'e mach" and item :: "32 word"
  assumes "free_hart h m" "h < 8" "int h < nh" "worker_loaded (memory (harts m 0))"
    and "pc (harts m h) = SMP_WORKER_POLL" "regs (harts m h) 4 = word_of_nat h" "regs (harts m h) 8 = SMP_SYNC_BASE"
    and "ram_read32 (SMP_SYNC_BASE + OFF_LOCK) m = 0" "0 < h"
  defines "m' \<equiv> smp_sync_run_worker_jobs nh (int h) (smp_deliver_ipi nh (int h) item m)"
  shows "ram_read32 (SMP_SYNC_BASE + OFF_SHARED_DONE) m' = ram_read32 (SMP_SYNC_BASE + OFF_SHARED_DONE) m + 1 \<and>
    regs (harts m' h) 9 = item \<and> regs (harts m' h) 18 = ram_read32 (SMP_SYNC_BASE + OFF_SHARED_DONE) m' \<and>
    ram_read32 (ipi_addr (int h)) m' = 0 \<and> ram_read32 (SMP_SYNC_BASE + OFF_WORK_READY) m' = 0 \<and>
    ram_read32 (SMP_SYNC_BASE + OFF_LOCK) m' = 0 \<and>
    pc (harts m' h) = SMP_WORKER_POLL \<and> instruction_count (harts m' h) = instruction_count (harts m h) + 22 \<and>
    (\<forall>i. i < 0x2000 \<or> 0x2040 \<le> i \<longrightarrow> memory (harts m' 0) i = memory (harts m 0) i) \<and>
    (\<forall>k. k \<noteq> h \<longrightarrow> k \<noteq> 0 \<longrightarrow> harts m' k = harts m k) \<and>
    regs (harts m' 0) = regs (harts m 0) \<and> pc (harts m' 0) = pc (harts m 0)"
proof -
  let ?rg = "regs (harts m h)" and ?r = "memory (harts m 0)" and ?n = "instruction_count (harts m h)"
  note pos = assms(9)
  have run: "running (harts m h)" using assms(1) by (simp add: free_hart_def)
  have v: "view m h ?rg SMP_WORKER_POLL ?r ?n = m" using view_self [of m h] assms(5) by simp
  note word = view_read_word [OF assms(1), of _ ?rg SMP_WORKER_POLL ?r ?n, unfolded v]
  have lock: "le32 ?r 0x2000 = 0" using assms(8) word [of SMP_SYNC_BASE] by simp
  have cnt: "ram_read32 (SMP_SYNC_BASE + OFF_SHARED_DONE) m = le32 ?r 0x200C"
    using word [of "SMP_SYNC_BASE + OFF_SHARED_DONE"] by simp
  define r1 where "r1 = delivered h item ?r"
  note d = delivered_words [where h = h and item = item and r = ?r, folded r1_def]
  have "smp_deliver_ipi nh (int h) item m = view m h ?rg SMP_WORKER_POLL r1 ?n"
    using view_deliver [OF assms(1-3) pos, of item ?rg SMP_WORKER_POLL ?r ?n] by (simp add: v r1_def)
  moreover have "smp_sync_worker_should_run nh (int h) (view m h ?rg SMP_WORKER_POLL r1 ?n)"
    using pos assms(3) view_ipi [OF assms(1,2)] d(1) by (simp add: smp_sync_worker_should_run_def)
  ultimately have "m' = worker_loop 128 h (view m h ?rg SMP_WORKER_POLL r1 ?n)"
    using pos assms(3) run by (simp add: m'_def smp_sync_run_worker_jobs_def)
  then obtain rg where m': "m' = view m h rg SMP_WORKER_POLL (served h r1) (22 + ?n)"
    and rg: "rg 9 = item" "rg 18 = le32 ?r 0x200C + 1"
    using worker_serves [OF assms(1,2) d(6) [OF assms(4)] assms(6,7), of ?n] d(1-5) lock by auto
  note rd = view_read_word [OF assms(1), of _ rg SMP_WORKER_POLL "served h r1" "22 + ?n", folded m']
  have "ram_read32 (SMP_SYNC_BASE + OFF_SHARED_DONE) m' = le32 ?r 0x200C + 1"
    "ram_read32 (SMP_SYNC_BASE + OFF_WORK_READY) m' = 0" "ram_read32 (SMP_SYNC_BASE + OFF_LOCK) m' = 0"
    using rd [of "SMP_SYNC_BASE + OFF_SHARED_DONE"] rd [of "SMP_SYNC_BASE + OFF_WORK_READY"] rd [of SMP_SYNC_BASE] d(5)
    by (simp_all add: served_words)
  moreover have "ram_read32 (ipi_addr (int h)) m' = 0"
    using view_ipi [OF assms(1,2), of rg SMP_WORKER_POLL "served h r1" "22 + ?n"] by (simp add: m' served_words)
  ultimately show ?thesis
    using rg cnt pos shared_words_only [OF assms(2)] by (simp add: m' r1_def add.commute)
qed

text \<open>Two harts, the second one a worker, with nothing in memory but the worker program.\<close>

definition two_harts :: "unit mach" where
  "two_harts = \<lparr>harts = (\<lambda>h. if h = 0
       then rv32_cpu_init\<lparr>memory := \<lambda>i. if 0x30 \<le> i \<and> i < 0x90 then code_bytes smp_worker_code ! (i - 0x30) else 0\<rparr>
       else smp_sync_init_worker_hart (rv32_cpu_init\<lparr>shared_ram := Some 0, regs := (\<lambda>_. 0)(4 := word_of_nat h)\<rparr>)),
     stdout = [], env = ()\<rparr>"

lemma ipi_served_witness:
  "regs (harts (smp_sync_run_worker_jobs 2 (int 1) (smp_deliver_ipi 2 (int 1) 5 two_harts)) 1) 9 = 5 \<and>
   regs (harts (smp_sync_run_worker_jobs 2 (int 1) (smp_deliver_ipi 2 (int 1) 5 two_harts)) 1) 18 = 1"
proof -
  have w: "worker_loaded (memory (harts two_harts 0))" by (rule worker_loadedI) (simp add: two_harts_def)
  have f: "free_hart 1 two_harts"
    by (simp add: free_hart_def two_harts_def smp_sync_init_worker_hart_def rv32_cpu_init_def quiet_hook_def)
  have z: "ram_read32 SMP_SYNC_BASE two_harts = 0" "ram_read32 (SMP_SYNC_BASE + OFF_SHARED_DONE) two_harts = 0"
    by (simp_all add: two_harts_def ram_read32_def rv32_cpu_ram_def rv32_cpu_init_def le32_def)
  show ?thesis
    using ipi_served [OF f, of 2 5] w z
    by (simp add: two_harts_def smp_sync_init_worker_hart_def)
qed

text \<open>
  C33: Loading a program. A program of words that fits is stored so that every word of it is
  fetched again, little-endian, at its place, and no other byte of the memory changes; one
  that does not fit is refused and changes nothing.
\<close>

theorem program_loaded:
  fixes m :: "'e mach" and h :: nat and ws :: "32 word list" and base :: "32 word"
  defines "r \<equiv> rv32_cpu_load_program h (code_bytes ws) base m"
  shows "(RAM_BASE \<le> base \<and> unat base + 4 * length ws \<le> 0x80010000 \<longrightarrow> fst r \<and>
      (\<forall>k < length ws. le32 (ram_of h (snd r)) (unat (base - RAM_BASE) + 4 * k) = ws ! k) \<and>
      (\<forall>i. i < unat (base - RAM_BASE) \<or> unat (base - RAM_BASE) + 4 * length ws \<le> i \<longrightarrow>
        ram_of h (snd r) i = ram_of h m i)) \<and>
    (\<not> (RAM_BASE \<le> base \<and> unat base + 4 * length ws \<le> 0x80010000) \<longrightarrow> r = (False, m))"
proof -
  have ram: "ram_of h (set_ram h q m) = q" for q
    by (simp add: set_ram_def upd_hart_def rv32_cpu_ram_def split: option.split)
  show ?thesis
    by (auto simp: r_def rv32_cpu_load_program_def Let_def ram not_less not_le intro!: le32_code)
qed

lemma program_loaded_witness:
  "le32 (ram_of 1 (snd (rv32_cpu_load_program 1 (code_bytes smp_worker_code) 0x80000030 two_harts))) 0x34 = 0x01040293"
  using program_loaded [of "0x80000030" smp_worker_code 1 two_harts]
  by (auto simp: smp_worker_code_def dest: spec [of _ 1])

end
