(* ===== verification/Demo_Program.thy ===== *)
theory Demo_Program
  imports Worker_Ipi Emu_Session
begin

text \<open>
  The program that \<open>create_test_program\<close> of src/emu/main.c puts into memory: the machine that
  \<open>init_system\<close> makes, and the run of the program on one hart, instruction by instruction.
\<close>

subsection \<open>The machine at the start\<close>

lemma ram_write32_memory:
  assumes "shared_ram (harts m 0) = None" "\<not> a < RAM_BASE" "\<not> RAM_BASE + RAM_SIZE < a + 4"
  shows "ram_write32 a v m = upd_hart 0 (memory_update (put32 (unat (a - RAM_BASE)) v)) m"
  using assms by (auto simp: ram_write32_def set_ram_def rv32_cpu_ram_def upd_hart_def fun_eq_iff intro!: mach.equality)

text \<open>The words that \<open>smp_sync_ram_init\<close> writes.\<close>

definition sync_init :: "int \<Rightarrow> (nat \<Rightarrow> byte) \<Rightarrow> nat \<Rightarrow> byte" where
  "sync_init nh r = fold (\<lambda>h. put32 (0x2010 + 4 * h) 0) [0..<8]
     (put32 0x2030 (word_of_int nh) (put32 0x200C 0 (put32 0x2008 0 (put32 0x2004 0 (put32 0x2000 0 r)))))"

lemma upd_memory_shared [simp]:
  "shared_ram (harts (upd_hart 0 (memory_update f) m) k) = shared_ram (harts m k)"
  "upd_hart 0 (memory_update g) (upd_hart 0 (memory_update f) m) = upd_hart 0 (memory_update (\<lambda>r. g (f r))) m"
  by (simp_all add: upd_hart_def comp_def)

lemma fold_ipi_words:
  assumes "shared_ram (harts m 0) = None" "\<forall>h \<in> set hs. h < 8"
  shows "fold (\<lambda>h. ram_write32 (ipi_addr (int h)) 0) hs (upd_hart 0 (memory_update f) m) =
    upd_hart 0 (memory_update (\<lambda>r. fold (\<lambda>h. put32 (0x2010 + 4 * h) 0) hs (f r))) m"
  using assms(2)
proof (induction hs arbitrary: f)
  case (Cons h hs)
  then have "h < 8" by simp
  then show ?case using Cons assms(1) ipi_offset [of h] by (simp add: ram_write32_memory)
qed simp

lemma ram_init_memory:
  "shared_ram (harts m 0) = None \<Longrightarrow> smp_sync_ram_init nh m = upd_hart 0 (memory_update (sync_init nh)) m"
  unfolding smp_sync_ram_init_def by (simp add: ram_write32_memory fold_ipi_words sync_init_def [abs_def])

lemma sync_init_words:
  "i < 0x2000 \<Longrightarrow> sync_init nh r i = r i"
  "le32 (sync_init nh r) 0x2000 = 0" "le32 (sync_init nh r) 0x2004 = 0" "le32 (sync_init nh r) 0x2008 = 0"
  "le32 (sync_init nh r) 0x200C = 0" "le32 (sync_init nh r) 0x2030 = word_of_int nh"
  "h < 8 \<Longrightarrow> le32 (sync_init nh r) (0x2010 + 4 * h) = 0"
proof -
  have e: "sync_init nh r = put32 0x202C 0 (put32 0x2028 0 (put32 0x2024 0 (put32 0x2020 0 (put32 0x201C 0
      (put32 0x2018 0 (put32 0x2014 0 (put32 0x2010 0 (put32 0x2030 (word_of_int nh)
      (put32 0x200C 0 (put32 0x2008 0 (put32 0x2004 0 (put32 0x2000 0 r))))))))))))"
  proof -
    have "[0..<8] = [0, 1, 2, 3, 4, 5, 6, 7 :: nat]" by (simp add: upt_conv_Cons)
    then show ?thesis by (simp add: sync_init_def)
  qed
  show "i < 0x2000 \<Longrightarrow> sync_init nh r i = r i" by (simp add: e put32_outside)
  show "le32 (sync_init nh r) 0x2000 = 0" "le32 (sync_init nh r) 0x2004 = 0" "le32 (sync_init nh r) 0x2008 = 0"
    "le32 (sync_init nh r) 0x200C = 0" "le32 (sync_init nh r) 0x2030 = word_of_int nh"
    by (simp_all add: e le32_put32)
  show "le32 (sync_init nh r) (0x2010 + 4 * h) = 0" if "h < 8"
  proof -
    have "h \<in> {0, 1, 2, 3, 4, 5, 6, 7}" using that by auto
    then show ?thesis by (elim insertE) (simp_all add: e le32_put32)
  qed
qed

text \<open>The program and behind it the worker code.\<close>

definition demo_image :: "(nat \<Rightarrow> byte) \<Rightarrow> nat \<Rightarrow> byte" where
  "demo_image r i = (if i < 0x30 then code_bytes test_program ! i
     else if i < 0x90 then code_bytes smp_worker_code ! (i - 0x30) else r i)"

lemma program_lengths [simp]: "length test_program = 12" "length smp_worker_code = 24"
  by (simp_all add: test_program_def smp_worker_code_def)

lemma fold_upd_hart:
  "distinct hs \<Longrightarrow> harts (fold (\<lambda>h. upd_hart h f) hs m) k = (if k \<in> set hs then f (harts m k) else harts m k)"
  by (induction hs arbitrary: m) (auto simp: upd_hart_def)

lemma create_harts:
  assumes "shared_ram (harts m 0) = None"
  shows "harts (create_test_program n m) 0 = memory_update (\<lambda>r. sync_init n (demo_image r)) (harts m 0)"
    "0 < k \<Longrightarrow> harts (create_test_program n m) k =
      (if k < nat n then smp_sync_init_worker_hart (harts m k) else harts m k)"
proof -
  have mu: "memory_update f (harts m 0) = (harts m 0)\<lparr>memory := f (memory (harts m 0))\<rparr>" for f
    by (cases "harts m 0") simp
  have r0: "rv32_cpu_ram 0 m = 0" using assms by (simp add: rv32_cpu_ram_def)
  have l: "snd (rv32_cpu_load_program 0 (code_bytes test_program) RAM_BASE m) =
      upd_hart 0 (memory_update (\<lambda>r i. if i < 0x30 then code_bytes test_program ! i else r i)) m"
    unfolding rv32_cpu_load_program_def set_ram_def r0 Let_def
    by (simp add: upd_hart_def
        mu [of "\<lambda>r i. if i < 0x30 then code_bytes test_program ! i else r i"] cong: if_cong)
  have c: "copy_worker_code (upd_hart 0 (memory_update (\<lambda>r i. if i < 0x30 then code_bytes test_program ! i else r i)) m) =
      upd_hart 0 (memory_update demo_image) m"
    by (auto simp: copy_worker_code_def Let_def demo_image_def [abs_def] fun_eq_iff intro!: arg_cong [of _ _ "\<lambda>f. upd_hart 0 (memory_update f) m"] ext)
  have r: "smp_sync_ram_init n (upd_hart 0 (memory_update demo_image) m) =
      upd_hart 0 (memory_update (\<lambda>r. sync_init n (demo_image r))) m"
    using assms by (simp add: ram_init_memory)
  have "create_test_program n m = fold (\<lambda>h. upd_hart h smp_sync_init_worker_hart) [1..<nat n]
      (upd_hart 0 (memory_update (\<lambda>r. sync_init n (demo_image r))) m)"
    by (simp add: create_test_program_def Let_def l c r)
  then show "harts (create_test_program n m) 0 = memory_update (\<lambda>r. sync_init n (demo_image r)) (harts m 0)"
    "0 < k \<Longrightarrow> harts (create_test_program n m) k =
      (if k < nat n then smp_sync_init_worker_hart (harts m k) else harts m k)"
    by (simp_all add: fold_upd_hart upd_hart_def)
qed

lemma demo_image_words:
  "k < 12 \<Longrightarrow> le32 (demo_image r) (4 * k) = test_program ! k"
  "k < 24 \<Longrightarrow> le32 (demo_image r) (0x30 + 4 * k) = smp_worker_code ! k"
  using le32_code [where k = k and ws = test_program and off = 0 and r = "demo_image r"]
    le32_code [where k = k and ws = smp_worker_code and off = "0x30" and r = "demo_image r"]
  by (simp_all add: demo_image_def)

lemma le32_cong:
  assumes "\<And>j. j < 4 \<Longrightarrow> r (i + j) = r' (i + j)"
  shows "le32 r i = le32 r' i"
  using assms [of 0] assms [of 1] assms [of 2] assms [of 3] by (simp add: le32_def)

text \<open>The harts of a system just made.\<close>

lemma init_harts:
  assumes "valid_hart_count n"
  shows "sys_harts (init_system n) 0 = (init_hart 0)\<lparr>memory := sync_init n (demo_image (\<lambda>_. 0))\<rparr>"
    "0 < k \<Longrightarrow> k < nat n \<Longrightarrow> sys_harts (init_system n) k = smp_sync_init_worker_hart (init_hart k)"
    "sys_num_harts (init_system n) = n" "sys_focus_hart (init_system n) = 0"
    "g_interrupt_received (init_system n) = False"
proof -
  let ?m = "\<lparr>harts = \<lambda>h. if h < nat n then init_hart h else zero_cpu, stdout = [],
    env = \<lparr>d_ctx = zero_context, d_stop_hart = - 1\<rparr>\<rparr>"
  have n: "0 < n" using assms by (auto simp: valid_hart_count_def)
  have "shared_ram (harts ?m 0) = None" using n by (simp add: init_hart_wiring)
  note c = create_harts [OF this, where n = n]
  have z: "memory (init_hart 0) = (\<lambda>_. 0)" by (simp add: init_hart_def Let_def setup_hart_watchpoints_def rv32_cpu_init_def)
  show "sys_harts (init_system n) 0 = (init_hart 0)\<lparr>memory := sync_init n (demo_image (\<lambda>_. 0))\<rparr>"
    using assms n c(1) z by (simp add: init_system_def Let_def)
  show "0 < k \<Longrightarrow> k < nat n \<Longrightarrow> sys_harts (init_system n) k = smp_sync_init_worker_hart (init_hart k)"
    using assms c(2) [where k = k] by (simp add: init_system_def Let_def)
  show "sys_num_harts (init_system n) = n" "sys_focus_hart (init_system n) = 0" "g_interrupt_received (init_system n) = False"
    using assms by (simp_all add: init_system_def Let_def)
qed

subsection \<open>The run of the program\<close>

definition demo_instrs :: "instr list" where
  "demo_instrs =
     [Lui 5 0x80000, Op_imm ADDI 6 0 0, Op_imm ADDI 7 0 5, Lui 8 0x80001, Op_imm ADDI 8 8 0, Store SW 8 6 0,
      Load LW 28 8 0, Op_imm ADDI 6 6 1, Branch NE 6 7 4, Jal 0 (- 8), Store SW 8 6 4, Jal 0 0]"

lemma demo_words: "map encode demo_instrs = test_program"
  by code_simp

definition demo_loaded :: "(nat \<Rightarrow> byte) \<Rightarrow> bool" where
  "demo_loaded r = (\<forall>k < 12. le32 r (4 * k) = test_program ! k)"

lemma demo_loaded_put32: "0x30 \<le> i \<Longrightarrow> demo_loaded r \<Longrightarrow> demo_loaded (put32 i v r)"
  by (simp add: demo_loaded_def le32_put32)

lemma demo_word:
  assumes "demo_loaded r" "k < 12"
  shows "le32 r (4 * k) = encode (demo_instrs ! k)"
proof -
  have "k < length demo_instrs" using assms(2) by (simp add: demo_instrs_def)
  then show ?thesis using assms demo_words by (metis nth_map demo_loaded_def)
qed

lemma demo_program_words:
  assumes "demo_loaded r"
  shows "le32 r 0 = encode (Lui 5 0x80000)" "le32 r 4 = encode (Op_imm ADDI 6 0 0)" "le32 r 8 = encode (Op_imm ADDI 7 0 5)"
    "le32 r 12 = encode (Lui 8 0x80001)" "le32 r 16 = encode (Op_imm ADDI 8 8 0)" "le32 r 20 = encode (Store SW 8 6 0)"
    "le32 r 24 = encode (Load LW 28 8 0)" "le32 r 28 = encode (Op_imm ADDI 6 6 1)" "le32 r 32 = encode (Branch NE 6 7 4)"
    "le32 r 36 = encode (Jal 0 (- 8))" "le32 r 40 = encode (Store SW 8 6 4)" "le32 r 44 = encode (Jal 0 0)"
  using demo_word [OF assms, of 0] demo_word [OF assms, of 1] demo_word [OF assms, of 2] demo_word [OF assms, of 3]
    demo_word [OF assms, of 4] demo_word [OF assms, of 5] demo_word [OF assms, of 6] demo_word [OF assms, of 7]
    demo_word [OF assms, of 8] demo_word [OF assms, of 9] demo_word [OF assms, of 10] demo_word [OF assms, of 11]
  by (simp_all add: demo_instrs_def del: encode.simps)

lemma demo_step:
  assumes "free_hart 0 m" "in_ram p 4" "unat (p - RAM_BASE) = a" "le32 r a = encode i"
  shows "rv32_cpu_step 0 (view m 0 rg p r n) = effect 0 i p (view m 0 rg (p + 4) r (n + 1))"
  using view_step [OF assms(1,2), of r i rg n] assms(3,4) by simp

lemma demo_steps:
  assumes m: "free_hart 0 m" and r: "demo_loaded r"
  shows
    "rv32_cpu_step 0 (view m 0 rg 0x80000000 r n) = view m 0 (rg(5 := 0x80000000)) 0x80000004 r (n + 1)"
    "rv32_cpu_step 0 (view m 0 rg 0x80000004 r n) = view m 0 (rg(6 := 0)) 0x80000008 r (n + 1)"
    "rv32_cpu_step 0 (view m 0 rg 0x80000008 r n) = view m 0 (rg(7 := 5)) 0x8000000c r (n + 1)"
    "rv32_cpu_step 0 (view m 0 rg 0x8000000c r n) = view m 0 (rg(8 := 0x80001000)) 0x80000010 r (n + 1)"
    "rv32_cpu_step 0 (view m 0 rg 0x80000010 r n) = view m 0 (rg(8 := rg 8)) 0x80000014 r (n + 1)"
    "in_ram (rg 8) 4 \<Longrightarrow> rv32_cpu_step 0 (view m 0 rg 0x80000014 r n) =
      view m 0 rg 0x80000018 (put32 (unat (rg 8 - RAM_BASE)) (rg 6) r) (n + 1)"
    "in_ram (rg 8) 4 \<Longrightarrow> rv32_cpu_step 0 (view m 0 rg 0x80000018 r n) =
      view m 0 (rg(28 := le32 r (unat (rg 8 - RAM_BASE)))) 0x8000001c r (n + 1)"
    "rv32_cpu_step 0 (view m 0 rg 0x8000001c r n) = view m 0 (rg(6 := rg 6 + 1)) 0x80000020 r (n + 1)"
    "rv32_cpu_step 0 (view m 0 rg 0x80000020 r n) =
      view m 0 rg (if rg 6 \<noteq> rg 7 then 0x80000028 else 0x80000024) r (n + 1)"
    "rv32_cpu_step 0 (view m 0 rg 0x80000024 r n) = view m 0 rg 0x80000014 r (n + 1)"
    "in_ram (rg 8 + 4) 4 \<Longrightarrow> rv32_cpu_step 0 (view m 0 rg 0x80000028 r n) =
      view m 0 rg 0x8000002c (put32 (unat (rg 8 + 4 - RAM_BASE)) (rg 6) r) (n + 1)"
    "rv32_cpu_step 0 (view m 0 rg 0x8000002c r n) = view m 0 rg 0x8000002c r (n + 1)"
  by (simp_all add: demo_step [OF m] demo_program_words [OF r] view_rules m in_ram_def del: encode.simps)

definition demo_pc :: "nat \<Rightarrow> 32 word" where
  "demo_pc k = (if k \<le> 8 then 0x80000000 + 4 * word_of_nat k else if k = 9 then 0x80000028 else 0x8000002c)"

text \<open>What the ten instructions until the last, endless one have done.\<close>

lemma demo_prefix:
  fixes m :: "'e mach" and rg :: "nat \<Rightarrow> 32 word"
  assumes m: "free_hart 0 m" and r: "demo_loaded r"
  defines "f \<equiv> rv32_cpu_step 0" and "g \<equiv> rg(5 := 0x80000000, 6 := 0, 7 := 5, 8 := 0x80001000)"
  shows "(f ^^ 5) (view m 0 rg RAM_BASE r n) = view m 0 g 0x80000014 r (n + 5)"
    "(f ^^ 9) (view m 0 rg RAM_BASE r n) = view m 0 (g(28 := 0, 6 := 1)) 0x80000028 (put32 0x1000 0 r) (n + 9)"
    "k \<le> 9 \<Longrightarrow> \<exists>rg' r' n'. (f ^^ k) (view m 0 rg RAM_BASE r n) = view m 0 rg' (demo_pc k) r' n'"
    "10 \<le> k \<Longrightarrow> \<exists>n'. (f ^^ k) (view m 0 rg RAM_BASE r n) =
      view m 0 (g(28 := 0, 6 := 1)) 0x8000002c (put32 0x1004 1 (put32 0x1000 0 r)) n'"
proof -
  note s = demo_steps [OF m, folded f_def]
  let ?x = "view m 0 rg RAM_BASE r n"
  have r1: "demo_loaded (put32 0x1000 v r)" for v by (rule demo_loaded_put32 [OF _ r]) simp
  have r2: "demo_loaded (put32 0x1004 u (put32 0x1000 v r))" for u v by (rule demo_loaded_put32 [OF _ r1]) simp
  have nx: "(f ^^ 1) x = f x" "(f ^^ 2) x = f (f x)" "(f ^^ 3) x = f ((f ^^ 2) x)" "(f ^^ 4) x = f ((f ^^ 3) x)"
    "(f ^^ 5) x = f ((f ^^ 4) x)" "(f ^^ 6) x = f ((f ^^ 5) x)" "(f ^^ 7) x = f ((f ^^ 6) x)"
    "(f ^^ 8) x = f ((f ^^ 7) x)" "(f ^^ 9) x = f ((f ^^ 8) x)" "(f ^^ 10) x = f ((f ^^ 9) x)" for x
    by (simp_all add: numeral_eq_Suc)
  have k: "(f ^^ 1) ?x = view m 0 (rg(5 := 0x80000000)) 0x80000004 r (n + 1)"
    "(f ^^ 2) ?x = view m 0 (rg(5 := 0x80000000, 6 := 0)) 0x80000008 r (n + 2)"
    "(f ^^ 3) ?x = view m 0 (rg(5 := 0x80000000, 6 := 0, 7 := 5)) 0x8000000c r (n + 3)"
    "(f ^^ 4) ?x = view m 0 g 0x80000010 r (n + 4)"
    "(f ^^ 5) ?x = view m 0 g 0x80000014 r (n + 5)"
    "(f ^^ 6) ?x = view m 0 g 0x80000018 (put32 0x1000 0 r) (n + 6)"
    "(f ^^ 7) ?x = view m 0 (g(28 := 0)) 0x8000001c (put32 0x1000 0 r) (n + 7)"
    "(f ^^ 8) ?x = view m 0 (g(28 := 0, 6 := 1)) 0x80000020 (put32 0x1000 0 r) (n + 8)"
    "(f ^^ 9) ?x = view m 0 (g(28 := 0, 6 := 1)) 0x80000028 (put32 0x1000 0 r) (n + 9)"
    "(f ^^ 10) ?x = view m 0 (g(28 := 0, 6 := 1)) 0x8000002c (put32 0x1004 1 (put32 0x1000 0 r)) (n + 10)"
    by (simp_all add: nx s r r1 g_def in_ram_def le32_put32 add.assoc fun_upd_twist)
  show "(f ^^ 5) ?x = view m 0 g 0x80000014 r (n + 5)"
    "(f ^^ 9) ?x = view m 0 (g(28 := 0, 6 := 1)) 0x80000028 (put32 0x1000 0 r) (n + 9)" using k by blast+
  show "\<exists>rg' r' n'. (f ^^ k) ?x = view m 0 rg' (demo_pc k) r' n'" if "k \<le> 9" for k
  proof -
    have "k \<in> {0, 1, 2, 3, 4, 5, 6, 7, 8, 9}" using that by auto
    then show ?thesis using k by (elim insertE) (simp_all add: demo_pc_def del: One_nat_def, blast+)
  qed
  show "\<exists>n'. (f ^^ k) ?x = view m 0 (g(28 := 0, 6 := 1)) 0x8000002c (put32 0x1004 1 (put32 0x1000 0 r)) n'" if "10 \<le> k" for k
    using that
  proof (induction rule: dec_induct)
    case base
    show ?case using k(10) by blast
  next
    case (step i)
    then obtain n' where "(f ^^ i) ?x = view m 0 (g(28 := 0, 6 := 1)) 0x8000002c (put32 0x1004 1 (put32 0x1000 0 r)) n'"
      by blast
    then have "(f ^^ Suc i) ?x = view m 0 (g(28 := 0, 6 := 1)) 0x8000002c (put32 0x1004 1 (put32 0x1000 0 r)) (n' + 1)"
      by (simp add: s(12) [OF r2])
    then show ?case by blast
  qed
qed

subsection \<open>The run in the emulator\<close>

lemma of_to_mach [simp]:
  "to_mach (of_mach m w) = m" "of_mach m (of_mach m' w) = of_mach m w" "of_mach (to_mach w) w = w"
proof -
  show "to_mach (of_mach m w) = m"
    by (rule mach.equality) (simp_all add: to_mach_def of_mach_def)
  show "of_mach m (of_mach m' w) = of_mach m w" by (cases w) (simp add: of_mach_def)
  show "of_mach (to_mach w) w = w" by (cases w) (simp add: of_mach_def to_mach_def)
qed

lemma one_hart_steps:
  assumes "sys_num_harts (w_sim w) = 1"
  shows "(sys_cpu_step 0 ^^ k) w = of_mach ((rv32_cpu_step 0 ^^ k) (to_mach w)) w"
proof (induction k)
  case (Suc k)
  then show ?case using assms by (simp add: sys_cpu_step_def sys_post_step_def on_mach_def)
qed simp

text \<open>A world in which the demonstration is about to start on one hart, with no watchpoint set.\<close>

definition demo_world :: "emu \<Rightarrow> bool" where
  "demo_world w = (sys_harts (w_sim w) = sys_harts (init_system 1) \<and> sys_num_harts (w_sim w) = 1 \<and>
     wp_active (w_ctx w) = {})"

lemma quiet_hooks:
  assumes "wp_active (d_ctx e) = {}"
  shows "quiet_hook (Some gdb_watchpoint_read) i e" "quiet_hook (Some gdb_watchpoint_write) i e"
proof -
  have "\<not> wp_hit t a l (d_ctx e)" for t a l using assms by (simp add: wp_hit_def)
  then show "quiet_hook (Some gdb_watchpoint_read) i e" "quiet_hook (Some gdb_watchpoint_write) i e"
    by (simp_all add: quiet_hook_def gdb_watchpoint_read_def gdb_watchpoint_write_def check_no_hit)
qed

lemma demo_hart:
  assumes "demo_world w"
  shows "free_hart 0 (to_mach w)" "demo_loaded (memory (hart w 0))" "pc (hart w 0) = RAM_BASE"
proof -
  have h: "hart w 0 = (init_hart 0)\<lparr>memory := sync_init 1 (demo_image (\<lambda>_. 0))\<rparr>"
    using assms init_harts(1) [of 1] by (simp add: demo_world_def valid_hart_count_def)
  have e: "wp_active (w_ctx w) = {}" using assms by (simp add: demo_world_def)
  have "running (init_hart 0)" "\<not> halted (init_hart 0)" "pc (init_hart 0) = RAM_BASE"
    by (simp_all add: init_hart_def Let_def setup_hart_watchpoints_def rv32_cpu_init_def)
  then show "free_hart 0 (to_mach w)" "pc (hart w 0) = RAM_BASE"
    using quiet_hooks [of "env (to_mach w)"] e
    by (simp_all add: free_hart_def h init_hart_wiring to_mach_def)
  have "le32 (sync_init 1 (demo_image (\<lambda>_. 0))) (4 * k) = le32 (demo_image (\<lambda>_. 0)) (4 * k)" if "k < 12" for k
    using that by (intro le32_cong sync_init_words(1)) simp
  then show "demo_loaded (memory (hart w 0))" by (simp add: demo_loaded_def h demo_image_words)
qed

lemma demo_run:
  assumes "demo_world w"
  defines "x \<equiv> \<lambda>k. hart ((sys_cpu_step 0 ^^ k) w) 0"
  shows "running (x k)" "\<not> halted (x k)" "pc (x k) = demo_pc k"
    "regs (x 9) 6 = 1" "10 \<le> k \<Longrightarrow> regs (x k) 6 = 1" "10 \<le> k \<Longrightarrow> le32 (memory (x k)) 0x1004 = 1"
proof -
  note d = demo_hart [OF assms(1)]
  have n: "sys_num_harts (w_sim w) = 1" using assms(1) by (simp add: demo_world_def)
  obtain rg0 n0 where v: "to_mach w = view (to_mach w) 0 rg0 RAM_BASE (memory (hart w 0)) n0"
    using view_self [of "to_mach w" 0] d(3) by (simp add: to_mach_def) metis
  have x: "x k = harts ((rv32_cpu_step 0 ^^ k) (view (to_mach w) 0 rg0 RAM_BASE (memory (hart w 0)) n0)) 0" for k
    using v by (simp add: x_def one_hart_steps [OF n] of_mach_def)
  have r: "running (harts (to_mach w) 0)" "\<not> halted (harts (to_mach w) 0)" using d(1) by (simp_all add: free_hart_def)
  note p = demo_prefix [OF d(1,2), where rg = rg0 and n = n0]
  show "regs (x 9) 6 = 1" by (simp add: x p(2))
  have "running (x k) \<and> \<not> halted (x k) \<and> pc (x k) = demo_pc k"
  proof (cases "k \<le> 9")
    case True
    from p(3) [OF this] show ?thesis using r by (auto simp: x)
  next
    case False
    then have "10 \<le> k" by simp
    from p(4) [OF this] show ?thesis using r False by (auto simp: x demo_pc_def)
  qed
  then show "running (x k)" "\<not> halted (x k)" "pc (x k) = demo_pc k" by simp_all
  show "10 \<le> k \<Longrightarrow> regs (x k) 6 = 1" "10 \<le> k \<Longrightarrow> le32 (memory (x k)) 0x1004 = 1"
    using p(4) [of k] by (auto simp: x le32_put32)
qed

lemma demo_world_start: "demo_world (demo_start 1)"
proof -
  have "wp_active (w_ctx (demo_start 1)) = {}"
    by (simp add: demo_start_def main_start_def gdb_stub_init_def gdb_stub_accept_def Let_def zero_context_def
        wp_abs_defs active_keys_def)
  then show ?thesis
    using main_start_ok(3) [OF demo_start, of 1] init_harts(3) [of 1] by (simp add: demo_world_def valid_hart_count_def)
qed

text \<open>
  C29: The built-in program leaves its loop after one round. README and the comment on its
  ninth word say that it counts from 0 to 5 and branches out of the loop when the counter is
  equal to 5; the word is the encoding of BNE, not of BEQ. So the ninth instruction of a run on one hart
  goes to \<open>end\<close> with the counter at 1, and after the tenth, which stores that 1, the processor
  spins at 0x8000002c for ever.
\<close>

theorem demo_one_round:
  fixes x :: "nat \<Rightarrow> dbg rv32_cpu"
  defines "x \<equiv> \<lambda>k. hart ((sys_cpu_step 0 ^^ k) (demo_start 1)) 0"
  shows "pc (x 9) = 0x80000028 \<and> regs (x 9) 6 = 1 \<and>
    (\<forall>k. running (x k) \<and> pc (x (10 + k)) = 0x8000002c \<and> regs (x (10 + k)) 6 = 1 \<and>
      le32 (memory (x (10 + k))) 0x1004 = 1)"
proof -
  note d = demo_run [OF demo_world_start]
  show ?thesis using d(1,4) d(3) [of 9] d(3) [of "10 + k" for k] d(5,6) [of "10 + k" for k] by (simp add: x_def demo_pc_def)
qed

end
