(* ===== verification/Emu_Run.thy ===== *)
theory Emu_Run
  imports Emu_Packets Demo_Program
begin

text \<open>
  Running the harts: what the stepping and continuing of src/emu/main.c do to the debugger's
  tables and to the connection, the instructions a continue executes as a trace, and the one
  stop reply it sends.
\<close>

subsection \<open>What a step leaves alone\<close>

text \<open>A step changes the context only through the watchpoint hooks: the address of the last hit.\<close>

definition but_watch :: "32 gdb_context \<Rightarrow> 32 gdb_context" where
  "but_watch c = c\<lparr>last_watchpoint_addr := 0\<rparr>"

lemma but_watchD: "but_watch c = but_watch c' \<Longrightarrow> c' = c\<lparr>last_watchpoint_addr := last_watchpoint_addr c'\<rparr>"
  by (cases c; cases c') (simp add: but_watch_def)

lemma but_watch_fields:
  assumes "but_watch c = but_watch c'"
  shows "stub c = stub c'" "bp_active c = bp_active c'" "should_stop c = should_stop c'"
    "single_step c = single_step c'" "continue_thread c = continue_thread c'" "breakpoint_hit c = breakpoint_hit c'"
    "current_thread c = current_thread c'" "stop_thread c = stop_thread c'"
    "multiprocess_active c = multiprocess_active c'"
proof -
  have c: "c' = c\<lparr>last_watchpoint_addr := last_watchpoint_addr c'\<rparr>"
    by (rule but_watchD [OF assms])
  show "stub c = stub c'" "bp_active c = bp_active c'" "should_stop c = should_stop c'"
    "single_step c = single_step c'" "continue_thread c = continue_thread c'" "breakpoint_hit c = breakpoint_hit c'"
    "current_thread c = current_thread c'" "stop_thread c = stop_thread c'"
    "multiprocess_active c = multiprocess_active c'"
    by (subst c, simp add: bp_active_def)+
qed

lemma hooks_but_watch:
  "but_watch (d_ctx (snd (gdb_watchpoint_read i a l e))) = but_watch (d_ctx e)"
  "but_watch (d_ctx (snd (gdb_watchpoint_write i a l e))) = but_watch (d_ctx e)"
  by (auto simp: but_watch_def gdb_watchpoint_read_def gdb_watchpoint_write_def gdb_stub_check_watchpoint_read_def
      gdb_stub_check_watchpoint_write_def split: option.split)

lemma on_mach_keeps:
  assumes "emu_ok w" "\<And>m. confined P m (f m)" "P (env (to_mach w))"
    and "\<And>i a l e. P e \<Longrightarrow> P (snd (gdb_watchpoint_read i a l e)) \<and> P (snd (gdb_watchpoint_write i a l e))"
  shows "P (env (to_mach (on_mach f w)))"
proof -
  have "env (to_mach (on_mach f w)) = env (f (to_mach w))"
    by (simp add: on_mach_def of_mach_def to_mach_def)
  then show ?thesis using assms(2) [of "to_mach w"] assms(3) hooks_keepI [OF assms(1,4)] by (simp add: confined_def)
qed

lemma on_mach_but_watch:
  assumes "emu_ok w" "\<And>P m. confined P m (f m)"
  shows "but_watch (w_ctx (on_mach f w)) = but_watch (w_ctx w)"
  using on_mach_keeps [OF assms, of "\<lambda>e. but_watch (d_ctx e) = but_watch (w_ctx w)"] hooks_but_watch
  by (simp add: to_mach_def)

lemma step_but_watch: "emu_ok w \<Longrightarrow> but_watch (w_ctx (sys_cpu_step h w)) = but_watch (w_ctx w)"
proof -
  assume w: "emu_ok w"
  then have s: "emu_ok (on_mach (rv32_cpu_step h) w)" by (rule on_mach_ok [OF _ confined_step])
  then have "sys_num_harts (w_sim (on_mach (rv32_cpu_step h) w)) \<le> 8" unfolding good_def by (blast intro: sys_num_bound)
  with w s show ?thesis
    unfolding sys_cpu_step_def sys_post_step_def
    by (auto simp: Let_def on_mach_but_watch confined_step confined_mmio(3))
qed

lemma on_mach_frames [simp]:
  "w_link (on_mach f w) = w_link w" "sys_focus_hart (w_sim (on_mach f w)) = sys_focus_hart (w_sim w)"
  "g_interrupt_received (w_sim (on_mach f w)) = g_interrupt_received (w_sim w)"
  "sys_sync (w_sim (on_mach f w)) = sys_sync (w_sim w)"
  by (simp_all add: on_mach_def of_mach_def)

lemma step_frames [simp]:
  "w_link (sys_cpu_step h w) = w_link w" "sys_focus_hart (w_sim (sys_cpu_step h w)) = sys_focus_hart (w_sim w)"
  "g_interrupt_received (w_sim (sys_cpu_step h w)) = g_interrupt_received (w_sim w)"
  by (simp_all add: sys_cpu_step_def sys_post_step_def)

lemmas step_ctx = but_watch_fields [OF step_but_watch]

lemma continue_step_frames [simp]:
  "w_link (continue_step d h w) = w_link w" "sys_focus_hart (w_sim (continue_step d h w)) = sys_focus_hart (w_sim w)"
  "g_interrupt_received (w_sim (continue_step d h w)) = g_interrupt_received (w_sim w)"
  "continue_step False h = sys_cpu_step h"
  by (simp_all add: continue_step_def fun_eq_iff)

lemma continue_but_watch: "emu_ok w \<Longrightarrow> but_watch (w_ctx (continue_step d h w)) = but_watch (w_ctx w)"
  by (simp add: continue_step_def step_but_watch)

lemmas continue_ctx = but_watch_fields [OF continue_but_watch]

lemma upd_cpu_frames [simp]:
  "w_link (upd_cpu h f w) = w_link w" "w_ctx (upd_cpu h f w) = w_ctx w"
  "sys_focus_hart (w_sim (upd_cpu h f w)) = sys_focus_hart (w_sim w)"
  "g_interrupt_received (w_sim (upd_cpu h f w)) = g_interrupt_received (w_sim w)"
  by (simp_all add: upd_cpu_def)

lemma halt_resume_frames [simp]:
  "w_link (sys_halt_all w) = w_link w" "w_ctx (sys_halt_all w) = w_ctx w"
  "sys_focus_hart (w_sim (sys_halt_all w)) = sys_focus_hart (w_sim w)"
  "g_interrupt_received (w_sim (sys_halt_all w)) = g_interrupt_received (w_sim w)"
  "w_link (sys_resume_runnable w) = w_link w" "w_ctx (sys_resume_runnable w) = w_ctx w"
  "sys_focus_hart (w_sim (sys_resume_runnable w)) = sys_focus_hart (w_sim w)"
  "g_interrupt_received (w_sim (sys_resume_runnable w)) = g_interrupt_received (w_sim w)"
  by (simp_all add: sys_halt_all_def sys_resume_runnable_def fold_frame
      fold_frame [where g = "\<lambda>w. sys_focus_hart (w_sim w)"] fold_frame [where g = "\<lambda>w. g_interrupt_received (w_sim w)"])

lemma sigint_frames [simp]:
  "w_link (sigint_handler w) = w_link w" "bp_active (w_ctx (sigint_handler w)) = bp_active (w_ctx w)"
  "continue_thread (w_ctx (sigint_handler w)) = continue_thread (w_ctx w)"
  "sys_num_harts (w_sim (sigint_handler w)) = sys_num_harts (w_sim w)"
  "sys_focus_hart (w_sim (sigint_handler w)) = sys_focus_hart (w_sim w)"
  "w_stub (sigint_handler w) = w_stub w" "breakpoint_hit (w_ctx (sigint_handler w)) = breakpoint_hit (w_ctx w)"
  by (simp_all add: sigint_handler_def Let_def bp_active_def)

subsection \<open>The instructions of a continue\<close>

text \<open>
  The trace of a run: which hart executes the instruction at which address, one after the
  other, with SIGINT anywhere between them. A hart may execute when the debugger lets its
  thread run, it is running and not halted, and there is no breakpoint at its program counter.
\<close>

definition may_execute :: "nat \<Rightarrow> emu \<Rightarrow> bool" where
  "may_execute h w = (h < nat (sys_num_harts (w_sim w)) \<and> gdb_stub_should_run_thread (w_ctx w) (int h + 1) \<and>
     running (hart w h) \<and> \<not> halted (hart w h) \<and> pc (hart w h) \<notin> bp_active (w_ctx w))"

inductive executes :: "bool \<Rightarrow> emu \<Rightarrow> (nat \<times> 32 word) list \<Rightarrow> emu \<Rightarrow> bool" for d where
  nothing: "executes d w [] w"
| instruction: "executes d w ((h, pc (hart w h)) # tr) w'" if "may_execute h w" "executes d (continue_step d h w) tr w'"
| signal: "executes d w tr w'" if "executes d (sigint_handler w) tr w'"

lemma executes_append: "executes d w tr v \<Longrightarrow> executes d v tr' w' \<Longrightarrow> executes d w (tr @ tr') w'"
  by (induction rule: executes.induct) (auto intro: executes.intros)

lemma executes_one: "may_execute h w \<Longrightarrow> executes d (continue_step d h w) tr w' \<Longrightarrow> \<exists>tr'. executes d w tr' w'"
  by (blast intro: executes.instruction)

lemma executes_keeps:
  assumes "executes d w tr v" "emu_ok w"
  shows "emu_ok v \<and> bp_active (w_ctx v) = bp_active (w_ctx w) \<and> continue_thread (w_ctx v) = continue_thread (w_ctx w) \<and>
    w_link v = w_link w \<and> sys_num_harts (w_sim v) = sys_num_harts (w_sim w) \<and> w_stub v = w_stub w \<and>
    breakpoint_hit (w_ctx v) = breakpoint_hit (w_ctx w) \<and> sys_focus_hart (w_sim v) = sys_focus_hart (w_sim w)"
  using assms
  by (induction rule: executes.induct) (simp_all add: continue_step_ok continue_ctx sigint_handler_ok)

lemma executes_trace:
  assumes "executes d w tr v" "emu_ok w" "(h, a) \<in> set tr"
  shows "a \<notin> bp_active (w_ctx w) \<and> gdb_stub_should_run_thread (w_ctx w) (int h + 1) \<and> h < nat (sys_num_harts (w_sim w))"
  using assms
  by (induction rule: executes.induct)
    (auto simp: may_execute_def continue_step_ok sigint_handler_ok continue_ctx gdb_stub_should_run_thread_def)

text \<open>How the loop reports that hart \<open>h\<close> has stopped in the world \<open>v\<close>.\<close>

inductive hart_stops :: "nat \<Rightarrow> emu \<Rightarrow> emu \<Rightarrow> bool" for h v where
  at_breakpoint: "hart_stops h v (handle_hart_stop h 5 (v\<lparr>w_ctx := (w_ctx v)\<lparr>breakpoint_hit := True\<rparr>\<rparr>))"
    if "pc (hart v h) \<in> bp_active (w_ctx v)"
| halted: "hart_stops h v (handle_hart_stop h 5 v)" if "halted (hart v h)"
| off: "hart_stops h v (handle_hart_stop h 4 v)" if "\<not> running (hart v h)" "\<not> halted (hart v h)"

lemma same_ctx [simp]: "w\<lparr>w_ctx := w_ctx w\<rparr> = w"
  by simp

lemma run_harts_executes:
  assumes "run_harts d hs w = (sent, w')" "emu_ok w" "\<forall>h \<in> set hs. h < nat (sys_num_harts (w_sim w))"
  shows "\<exists>tr v. executes d w tr v \<and>
    (sent \<longrightarrow> (\<exists>h < nat (sys_num_harts (w_sim w)). hart_stops h v w')) \<and> (\<not> sent \<longrightarrow> w' = v)"
  using assms
proof (induction d hs w rule: run_harts.induct)
  case (2 d h hs w)
  show ?case
  proof (cases "should_step_hart h False w \<and> running (hart w h) \<and> \<not> halted (hart w h)")
    case False
    then have "run_harts d hs w = (sent, w')" using "2.prems"(1) by (auto split: if_splits)
    then show ?thesis using "2.IH"(1,2) False "2.prems"(2,3) by fastforce
  next
    case True
    then have thread: "gdb_stub_should_run_thread (w_ctx w) (int h + 1)"
      by (auto simp: should_step_hart_def sys_thread_id_def add.commute split: if_splits)
    show ?thesis
    proof (cases "pc (hart w h) \<in> bp_active (w_ctx w)")
      case bp: True
      then have "sent" "w' = handle_hart_stop h 5 (w\<lparr>w_ctx := (w_ctx w)\<lparr>breakpoint_hit := True\<rparr>\<rparr>)"
        using True "2.prems"(1) by (auto simp: check_breakpoint_eq Let_def)
      then show ?thesis using bp "2.prems"(3) by (auto intro: executes.nothing hart_stops.intros)
    next
      case bp: False
      let ?w = "continue_step d h w"
      have may: "may_execute h w" using thread True bp "2.prems"(3) by (simp add: may_execute_def)
      have e: "executes d w [(h, pc (hart w h))] ?w" by (intro executes.intros may)
      have r: "(if halted (hart ?w h) then (True, handle_hart_stop h 5 ?w)
          else if \<not> running (hart ?w h) then (True, handle_hart_stop h 4 ?w) else run_harts d hs ?w) = (sent, w')"
        using True bp "2.prems"(1) by (simp add: check_breakpoint_eq Let_def split: if_split_asm)
      show ?thesis
      proof (cases "halted (hart ?w h) \<or> \<not> running (hart ?w h)")
        case stop: True
        then have "sent \<and> hart_stops h ?w w'" using r by (auto intro: hart_stops.intros split: if_splits)
        then show ?thesis using e "2.prems"(3) by auto
      next
        case go: False
        then have "run_harts d hs ?w = (sent, w')" using r by simp
        then have "\<exists>tr v. executes d ?w tr v \<and>
            (sent \<longrightarrow> (\<exists>h < nat (sys_num_harts (w_sim w)). hart_stops h v w')) \<and> (\<not> sent \<longrightarrow> w' = v)"
          using "2.IH"(3) [of "(False, w_ctx w)" False "w_ctx w" w ?w] True bp go "2.prems"(2,3) continue_step_ok [of w d h]
          by (simp add: check_breakpoint_eq)
        then show ?thesis using executes_append [OF e] by blast
      qed
    qed
  qed
qed (auto intro: executes.nothing)

text \<open>How the loop ends, in the world \<open>v\<close>, and whether it has sent the stop reply.\<close>

definition loop_ends :: "poll list \<Rightarrow> bool \<Rightarrow> emu \<Rightarrow> emu \<Rightarrow> bool" where
  "loop_ends polls sent v w' =
     (if sent then \<exists>h < nat (sys_num_harts (w_sim v)). hart_stops h v w'
      else w' = v \<and> \<not> (sys_any_running v \<and> \<not> should_stop (w_ctx v) \<and> \<not> g_interrupt_received (w_sim v)) \<or>
        w' = w_ctx_update (\<lambda>c. c\<lparr>should_stop := True\<rparr>) v \<and> Client_data \<in> set polls)"

lemma loop_ends_more: "loop_ends ps sent v w' \<Longrightarrow> set ps \<subseteq> set polls \<Longrightarrow> loop_ends polls sent v w'"
  by (auto simp: loop_ends_def)

lemma continue_loop_step:
  "\<not> (sys_any_running w \<and> \<not> should_stop (w_ctx w) \<and> \<not> g_interrupt_received (w_sim w)) \<Longrightarrow>
    continue_loop d polls w = Some (False, w)"
  "sys_any_running w \<and> \<not> should_stop (w_ctx w) \<and> \<not> g_interrupt_received (w_sim w) \<Longrightarrow>
    run_harts d (hart_list w) w = (stop, w1) \<Longrightarrow> continue_loop d polls w =
      (if stop then Some (True, w1)
       else (case polls of
            [] \<Rightarrow> None
          | Quiet # ps \<Rightarrow> continue_loop d ps w1
          | Sigint # ps \<Rightarrow> continue_loop d ps (sigint_handler w1)
          | Client_data # ps \<Rightarrow> Some (False, w_ctx_update (\<lambda>c. c\<lparr>should_stop := True\<rparr>) w1)))"
  by (subst continue_loop.simps, simp only: if_False if_True simp_thms Let_def prod.case)+

lemma continue_loop_executes:
  "continue_loop d polls w = Some (sent, w') \<Longrightarrow> emu_ok w \<Longrightarrow> \<exists>tr v. executes d w tr v \<and> loop_ends polls sent v w'"
proof (induction d polls w rule: continue_loop.induct)
  case (1 d polls w)
  show ?case
  proof (cases "sys_any_running w \<and> \<not> should_stop (w_ctx w) \<and> \<not> g_interrupt_received (w_sim w)")
    case False
    then have "sent = False" "w' = w" using "1.prems"(1) continue_loop_step(1) [OF False, of d polls] by simp_all
    then show ?thesis using False by (auto simp: loop_ends_def intro: executes.nothing)
  next
    case go: True
    obtain stop w1 where r: "run_harts d (hart_list w) w = (stop, w1)" by fastforce
    obtain tr v where tr: "executes d w tr v" "stop \<longrightarrow> (\<exists>h < nat (sys_num_harts (w_sim w)). hart_stops h v w1)" "\<not> stop \<longrightarrow> w1 = v"
      using run_harts_executes [OF r "1.prems"(2)] by auto
    have v: "emu_ok v" "sys_num_harts (w_sim v) = sys_num_harts (w_sim w)" using executes_keeps [OF tr(1) "1.prems"(2)] by simp_all
    have body: "(if stop then Some (True, w1)
        else (case polls of
            [] \<Rightarrow> None
          | Quiet # ps \<Rightarrow> continue_loop d ps w1
          | Sigint # ps \<Rightarrow> continue_loop d ps (sigint_handler w1)
          | Client_data # ps \<Rightarrow> Some (False, w_ctx_update (\<lambda>c. c\<lparr>should_stop := True\<rparr>) w1))) = Some (sent, w')"
      using "1.prems"(1) continue_loop_step(2) [OF go r] by simp
    show ?thesis
    proof (cases stop)
      case True
      then have "loop_ends polls sent v w'" using tr(2) v(2) body by (auto simp: loop_ends_def)
      then show ?thesis using tr(1) by blast
    next
      case False
      note ih = "1.IH" [OF go r [symmetric] refl False]
      from False tr(3) have w1: "w1 = v" by simp
      show ?thesis
      proof (cases polls)
        case (Cons p ps)
        then have more: "set ps \<subseteq> set polls" by auto
        show ?thesis
        proof (cases p)
          case Quiet
          then have "\<exists>tr' u. executes d v tr' u \<and> loop_ends ps sent u w'" using ih(1) Cons body False w1 v(1) by simp
          then show ?thesis using executes_append [OF tr(1)] loop_ends_more more by blast
        next
          case Sigint
          then have "\<exists>tr' u. executes d (sigint_handler v) tr' u \<and> loop_ends ps sent u w'"
            using ih(2) Cons body False w1 sigint_handler_ok [OF v(1)] by simp
          then show ?thesis using executes_append [OF tr(1) executes.signal] loop_ends_more more by blast
        next
          case Client_data
          then have "sent = False" "w' = w_ctx_update (\<lambda>c. c\<lparr>should_stop := True\<rparr>) v" using body Cons False w1 by simp_all
          then show ?thesis using tr(1) Cons Client_data by (auto simp: loop_ends_def)
        qed
      qed (use body False in simp)
    qed
  qed
qed

subsection \<open>The stop reply\<close>

lemma emu_reason_text:
  "fst (stop_reason s a (c :: 32 gdb_context)) = stop_reply_text c s (stop_tid c) (breakpoint_hit c)
     (if breakpoint_hit c then 0 else last_watchpoint_addr c)
     (if breakpoint_hit c \<or> last_watchpoint_addr c \<noteq> 0 then 0 else a)"
  by (simp add: stop_reason_def Let_def format_stop_reply_text)

lemma emu_reason_length: "length (fst (stop_reason s a (c :: 32 gdb_context))) < 4092"
  by (rule less_trans [of _ 128]) (simp_all add: emu_reason_text length_stop_reply_text)

lemma stop_reason_keeps [simp]:
  "bp_active (snd (stop_reason s a c)) = bp_active c" "should_stop (snd (stop_reason s a c)) = should_stop c"
  by (simp_all add: stop_reason_def bp_active_def Let_def)

lemma set_stop_thread_keeps [simp]:
  "bp_active (gdb_stub_set_stop_thread t c) = bp_active c" "should_stop (gdb_stub_set_stop_thread t c) = should_stop c"
  "breakpoint_hit (gdb_stub_set_stop_thread t c) = breakpoint_hit c" "stub (gdb_stub_set_stop_thread t c) = stub c"
  "last_watchpoint_addr (gdb_stub_set_stop_thread t c) = last_watchpoint_addr c"
  by (simp_all add: gdb_stub_set_stop_thread_def bp_active_def)

lemma bp_active_flags [simp]:
  "bp_active (c\<lparr>breakpoint_hit := b\<rparr>) = bp_active c" "bp_active (c\<lparr>should_stop := b\<rparr>) = bp_active c"
  "bp_active (c\<lparr>stop_thread := t\<rparr>) = bp_active c" "bp_active (c\<lparr>single_step := b\<rparr>) = bp_active c"
  by (simp_all add: bp_active_def)

definition reported_thread :: "emu \<Rightarrow> int" where
  "reported_thread w = (if sys_stop_hart (w_sim w) \<ge> 0 then sys_thread_id (sys_stop_hart (w_sim w))
     else sys_thread_id (sys_focus_hart (w_sim w)))"

lemma notify_stop_sends:
  fixes w :: emu
  assumes "wsched (w_link w) = []"
  defines "c \<equiv> gdb_stub_set_stop_thread (reported_thread w) (w_ctx w)"
  shows "notify_stop signal a w = w\<lparr>w_ctx := snd (stop_reason signal a c),
    w_link := (w_link w)\<lparr>tx := tx (w_link w) @ frame (fst (stop_reason signal a c))\<rparr>\<rparr>"
proof -
  have "length (fst (stop_reason signal a c)) < 4092" by (rule emu_reason_length)
  then show ?thesis
    unfolding notify_stop_def Let_def send_stop_reason_eq reported_thread_def [symmetric]
    using assms(1) by (simp add: reply_ok flip: c_def)
qed

text \<open>The stop reply for the context \<open>c\<close> is the one packet sent, and what it reports is consumed.\<close>

definition stop_sent :: "int \<Rightarrow> 32 gdb_context \<Rightarrow> emu \<Rightarrow> emu \<Rightarrow> bool" where
  "stop_sent signal c v w' = (w_ctx w' = snd (stop_reason signal (pc (hart w' (focus w'))) c) \<and>
     tx (w_link w') = tx (w_link v) @ frame (fst (stop_reason signal (pc (hart w' (focus w'))) c)))"

lemma handle_hart_stop_sends:
  fixes w :: emu
  assumes "emu_ok w" "h < nat (sys_num_harts (w_sim w))" "wsched (w_link w) = []"
  defines "c \<equiv> (w_ctx w)\<lparr>should_stop := True, stop_thread := int h + 1\<rparr>"
    and "s \<equiv> (w_sim w)\<lparr>sys_stop_hart := int h, sys_focus_hart := int h\<rparr>"
  shows "handle_hart_stop h signal w = w\<lparr>w_sim := s, w_ctx := snd (stop_reason signal (pc (hart w h)) c),
    w_link := (w_link w)\<lparr>tx := tx (w_link w) @ frame (fst (stop_reason signal (pc (hart w h)) c))\<rparr>\<rparr>"
proof -
  let ?v = "w\<lparr>w_sim := s, w_ctx := (w_ctx w)\<lparr>should_stop := True\<rparr>\<rparr>"
  have h: "hart_id (hart w h) = int h" by (rule emu_wiring(2) [OF assms(1,2)])
  have t: "gdb_stub_set_stop_thread (reported_thread ?v) (w_ctx ?v) = c"
    by (simp add: reported_thread_def s_def c_def gdb_stub_set_stop_thread_def sys_thread_id_def add.commute)
  have "w_ctx_update (\<lambda>c. c\<lparr>should_stop := True\<rparr>)
      (w_sim_update (\<lambda>s. s\<lparr>sys_stop_hart := int h, sys_focus_hart := int h\<rparr>) w) = ?v"
    by (cases w) (simp add: s_def)
  then have "handle_hart_stop h signal w = notify_stop signal (pc (hart ?v h)) ?v"
    by (simp only: handle_hart_stop_def Let_def h)
  moreover have "hart ?v h = hart w h" by (simp add: s_def)
  ultimately show ?thesis using notify_stop_sends [of ?v signal "pc (hart w h)"] assms(3) unfolding t by simp
qed

lemma flag_updates:
  "should_stop c \<Longrightarrow> c\<lparr>should_stop := True\<rparr> = c"
  "c\<lparr>should_stop := s, breakpoint_hit := breakpoint_hit c, stop_thread := t\<rparr> = c\<lparr>should_stop := s, stop_thread := t\<rparr>"
  "c\<lparr>breakpoint_hit := b, should_stop := s\<rparr> = c\<lparr>should_stop := s, breakpoint_hit := b\<rparr>"
  by (cases c; simp)+

lemma stopped_hart:
  assumes "hart_stops h v w'" "emu_ok v" "h < nat (sys_num_harts (w_sim v))" "wsched (w_link v) = []"
  shows "\<exists>signal b. sys_focus_hart (w_sim w') = int h \<and> sys_harts (w_sim w') = sys_harts (w_sim v) \<and>
    stop_sent signal ((w_ctx v)\<lparr>should_stop := True, breakpoint_hit := b, stop_thread := int h + 1\<rparr>) v w' \<and>
    (signal = 5 \<and> b \<and> pc (hart w' h) \<in> bp_active (w_ctx v) \<or>
     signal = 5 \<and> b = breakpoint_hit (w_ctx v) \<and> halted (hart w' h) \<or>
     signal = 4 \<and> b = breakpoint_hit (w_ctx v) \<and> \<not> running (hart w' h) \<and> \<not> halted (hart w' h))"
  using assms(1)
proof cases
  case at_breakpoint
  let ?v = "v\<lparr>w_ctx := (w_ctx v)\<lparr>breakpoint_hit := True\<rparr>\<rparr>"
  have "emu_ok ?v" using assms(2) by (simp add: good_def stub_inv_flags)
  from handle_hart_stop_sends [OF this, of h 5] at_breakpoint assms(3,4) show ?thesis
    by (intro exI [of _ 5] exI [of _ True]) (simp add: stop_sent_def flag_updates)
next
  case halted
  with handle_hart_stop_sends [OF assms(2,3,4), of 5] show ?thesis
    by (intro exI [of _ 5] exI [of _ "breakpoint_hit (w_ctx v)"]) (simp add: stop_sent_def flag_updates)
next
  case off
  with handle_hart_stop_sends [OF assms(2,3,4), of 4] show ?thesis
    by (intro exI [of _ 4] exI [of _ "breakpoint_hit (w_ctx v)"]) (simp add: stop_sent_def flag_updates)
qed

subsection \<open>One continue, one stop reply\<close>

lemma any_running_cong: "w_sim w = w_sim v \<Longrightarrow> sys_any_running w = sys_any_running v"
  by (simp add: sys_any_running_def)

text \<open>A loop that ends without having reported a stop is followed by the report.\<close>

definition reports :: "emu \<Rightarrow> emu \<Rightarrow> bool" where
  "reports w w' = (\<exists>signal c. signal = (if sys_any_running w then 2 else 4) \<and>
     c = gdb_stub_set_stop_thread (reported_thread w) ((w_ctx w)\<lparr>should_stop := True\<rparr>) \<and>
     sys_harts (w_sim w') = sys_harts (w_sim w) \<and> sys_focus_hart (w_sim w') = sys_focus_hart (w_sim w) \<and>
     sys_num_harts (w_sim w') = sys_num_harts (w_sim w) \<and>
     g_interrupt_received (w_sim w') = (g_interrupt_received (w_sim w) \<and> \<not> sys_any_running w) \<and>
     w_ctx w' = snd (stop_reason signal (pc (hart w' (focus w'))) c) \<and>
     w_link w' = (w_link w)\<lparr>tx := tx (w_link w) @ frame (fst (stop_reason signal (pc (hart w' (focus w'))) c))\<rparr>)"

lemma reports_print_out [simp]: "reports w (print_out s w') = reports w w'"
  by (simp add: reports_def)

lemma reportsD:
  assumes "reports w w'"
  shows "should_stop (w_ctx w')" "bp_active (w_ctx w') = bp_active (w_ctx w)" "w_stub w' = w_stub w"
    "sys_harts (w_sim w') = sys_harts (w_sim w)" "sys_focus_hart (w_sim w') = sys_focus_hart (w_sim w)"
    "sys_num_harts (w_sim w') = sys_num_harts (w_sim w)"
    "g_interrupt_received (w_sim w') = (g_interrupt_received (w_sim w) \<and> \<not> sys_any_running w)"
    "rx (w_link w') = rx (w_link w)" "wsched (w_link w') = wsched (w_link w)"
    "\<exists>c. tx (w_link w') = tx (w_link w) @ frame (fst (stop_reason (if sys_any_running w then 2 else 4)
       (pc (hart w' (focus w'))) c))"
  using assms unfolding reports_def by (elim exE conjE; simp add: stop_reason_stub; fail)+
    (use assms in \<open>unfold reports_def, elim exE conjE, intro exI, simp\<close>)

lemma reports_stop_sent:
  assumes "reports w w'" "emu_ok w"
  shows "stop_sent (if sys_any_running w then 2 else 4)
    ((w_ctx w)\<lparr>should_stop := True, stop_thread := reported_thread w\<rparr>) w w'"
proof -
  have "1 \<le> reported_thread w" using assms(2) by (auto simp: reported_thread_def sys_thread_id_def good_def sys_ok_def)
  then show ?thesis using assms(1) by (auto simp: reports_def stop_sent_def gdb_stub_set_stop_thread_def)
qed

lemma notify_reports:
  assumes "wsched (w_link w) = []" "w_ctx u = (w_ctx w)\<lparr>should_stop := True\<rparr>"
    and "w_link u = w_link w" "sys_harts (w_sim u) = sys_harts (w_sim w)" "sys_num_harts (w_sim u) = sys_num_harts (w_sim w)"
    and "sys_focus_hart (w_sim u) = sys_focus_hart (w_sim w)" "sys_stop_hart (w_sim u) = sys_stop_hart (w_sim w)"
    and "signal = (if sys_any_running w then 2 else 4)"
    and "g_interrupt_received (w_sim u) = (g_interrupt_received (w_sim w) \<and> \<not> sys_any_running w)"
  shows "reports w (notify_stop signal (pc (hart u (focus u))) u)"
proof -
  have t: "reported_thread u = reported_thread w" by (simp add: reported_thread_def assms(6,7))
  have "wsched (w_link u) = []" using assms(1,3) by simp
  from notify_stop_sends [OF this, of signal "pc (hart u (focus u))", unfolded t assms(2)] show ?thesis
    unfolding reports_def using assms(3-9) by (intro exI conjI) (assumption | rule refl | simp)+
qed

lemma loop_reports:
  assumes "continue_loop d polls w = Some (False, w1)" "wsched (w_link w1) = []"
    and "\<not> sys_any_running w1 \<or> g_interrupt_received (w_sim w1) \<or> should_stop (w_ctx w1)"
  shows "\<exists>w'. continue_all_harts d polls w = Some (True, w') \<and> reports w1 w'"
proof -
  let ?s = "w_ctx_update (\<lambda>c. c\<lparr>should_stop := True\<rparr>)"
  let ?i = "w_sim_update (\<lambda>s. s\<lparr>g_interrupt_received := False\<rparr>)"
  note all = continue_all_harts_def [of d polls w, unfolded assms(1) bind.bind_lunit prod.case Let_def]
  consider "\<not> sys_any_running w1" | "sys_any_running w1" "g_interrupt_received (w_sim w1)"
    | "sys_any_running w1" "\<not> g_interrupt_received (w_sim w1)" "should_stop (w_ctx w1)"
    using assms(3) by blast
  then show ?thesis
  proof cases
    case 1
    with notify_reports [OF assms(2), of "?s w1" 4] show ?thesis unfolding all by simp
  next
    case 2
    with notify_reports [OF assms(2), of "?s (?i w1)" 2] show ?thesis unfolding all by simp
  next
    case 3
    with notify_reports [OF assms(2), of w1 2] show ?thesis unfolding all by (simp add: flag_updates)
  qed
qed

lemma loop_ends_cause:
  assumes "loop_ends polls False v w1"
  shows "\<not> sys_any_running v \<or> g_interrupt_received (w_sim v) \<or> should_stop (w_ctx v) \<or> Client_data \<in> set polls"
  using assms unfolding loop_ends_def by auto

lemma loop_ends_same:
  assumes "loop_ends polls False v w1" "emu_ok v"
  shows "w_sim w1 = w_sim v" "w_link w1 = w_link v" "(w_ctx w1)\<lparr>should_stop := True\<rparr> = (w_ctx v)\<lparr>should_stop := True\<rparr>"
    "emu_ok w1" "bp_active (w_ctx w1) = bp_active (w_ctx v)"
proof -
  have "w1 = v \<or> w1 = w_ctx_update (\<lambda>c. c\<lparr>should_stop := True\<rparr>) v" using assms(1) by (auto simp: loop_ends_def)
  then show "w_sim w1 = w_sim v" "w_link w1 = w_link v" "(w_ctx w1)\<lparr>should_stop := True\<rparr> = (w_ctx v)\<lparr>should_stop := True\<rparr>"
    "emu_ok w1" "bp_active (w_ctx w1) = bp_active (w_ctx v)"
    using assms(2) by (elim disjE; simp add: good_def stub_inv_flags)+
qed

text \<open>
  What the reply says after the instructions that lead from \<open>w\<close> to \<open>v\<close>: the thread of a hart that
  has stopped, or the thread the main program remembers when the loop has ended before.
\<close>

definition stop_told :: "poll list \<Rightarrow> emu \<Rightarrow> emu \<Rightarrow> emu \<Rightarrow> bool" where
  "stop_told polls w v w' = (\<exists>signal b t c. c = (w_ctx v)\<lparr>should_stop := True, breakpoint_hit := b, stop_thread := t\<rparr> \<and>
     w_ctx w' = snd (stop_reason signal (pc (hart w' (focus w'))) c) \<and>
     tx (w_link w') = tx (w_link w) @ frame (fst (stop_reason signal (pc (hart w' (focus w'))) c)) \<and>
     (t = int (focus w') + 1 \<and>
        (signal = 5 \<and> b \<and> pc (hart w' (focus w')) \<in> bp_active (w_ctx w) \<or>
         signal = 5 \<and> b = breakpoint_hit (w_ctx w) \<and> halted (hart w' (focus w')) \<or>
         signal = 4 \<and> b = breakpoint_hit (w_ctx w) \<and> \<not> running (hart w' (focus w')) \<and> \<not> halted (hart w' (focus w'))) \<or>
      focus w' = focus w \<and> b = breakpoint_hit (w_ctx w) \<and>
        t = (if sys_stop_hart (w_sim v) \<ge> 0 then sys_stop_hart (w_sim v) + 1 else int (focus w) + 1) \<and>
        (signal = 4 \<and> \<not> sys_any_running v \<or>
         signal = 2 \<and> sys_any_running v \<and>
           (g_interrupt_received (w_sim v) \<or> should_stop (w_ctx v) \<or> Client_data \<in> set polls))))"

lemma hart_stop_told:
  assumes "executes d w tr v" "emu_ok w" "wsched (w_link w) = []" "hart_stops h v w'" "h < nat (sys_num_harts (w_sim v))"
  shows "sys_harts (w_sim w') = sys_harts (w_sim v) \<and> should_stop (w_ctx w') \<and> bp_active (w_ctx w') = bp_active (w_ctx w) \<and>
    stop_told polls w v w'"
proof -
  note k = executes_keeps [OF assms(1,2)]
  have k: "emu_ok v" "bp_active (w_ctx v) = bp_active (w_ctx w)" "w_link v = w_link w" "breakpoint_hit (w_ctx v) = breakpoint_hit (w_ctx w)"
    using k by simp_all
  have "wsched (w_link v) = []" using assms(3) k(3) by simp
  from stopped_hart [OF assms(4) k(1) assms(5) this] obtain signal b where
      f0: "sys_focus_hart (w_sim w') = int h" and f2: "sys_harts (w_sim w') = sys_harts (w_sim v)"
    and sent: "stop_sent signal ((w_ctx v)\<lparr>should_stop := True, breakpoint_hit := b, stop_thread := int h + 1\<rparr>) v w'"
    and s: "signal = 5 \<and> b \<and> pc (hart w' h) \<in> bp_active (w_ctx v) \<or>
      signal = 5 \<and> b = breakpoint_hit (w_ctx v) \<and> halted (hart w' h) \<or>
      signal = 4 \<and> b = breakpoint_hit (w_ctx v) \<and> \<not> running (hart w' h) \<and> \<not> halted (hart w' h)"
    by blast
  have f: "focus w' = h" using f0 by simp
  note sent = sent [unfolded stop_sent_def k(3)]
  have "should_stop (w_ctx w')" "bp_active (w_ctx w') = bp_active (w_ctx w)"
    unfolding sent [THEN conjunct1] stop_reason_keeps by (simp_all add: k(2))
  moreover have "stop_told polls w v w'"
    unfolding stop_told_def
    by (rule exI [of _ signal], rule exI [of _ b], rule exI [of _ "int h + 1"],
        rule exI [of _ "(w_ctx v)\<lparr>should_stop := True, breakpoint_hit := b, stop_thread := int h + 1\<rparr>"], intro conjI)
      (rule refl sent [THEN conjunct1] sent [THEN conjunct2] disjI1 conjI arg_cong [OF f [symmetric]] s [unfolded k(2,4), folded f])+
  ultimately show ?thesis using f2 by blast
qed

lemma loop_end_told:
  assumes "executes d w tr v" "emu_ok w" "loop_ends polls False v w1" "reports w1 w'"
  shows "sys_harts (w_sim w') = sys_harts (w_sim v) \<and> should_stop (w_ctx w') \<and> bp_active (w_ctx w') = bp_active (w_ctx w) \<and>
    stop_told polls w v w'"
proof -
  note k = executes_keeps [OF assms(1,2)]
  have k: "emu_ok v" "w_link v = w_link w" "bp_active (w_ctx v) = bp_active (w_ctx w)"
    "breakpoint_hit (w_ctx v) = breakpoint_hit (w_ctx w)" "sys_focus_hart (w_sim v) = sys_focus_hart (w_sim w)"
    using k by simp_all
  note cause = loop_ends_cause [OF assms(3)]
  note sim = loop_ends_same [OF assms(3) k(1)]
  have f: "focus w' = focus w" "sys_harts (w_sim w') = sys_harts (w_sim v)"
    using reportsD(4,5) [OF assms(4)] sim(1) k(5) by simp_all
  have ctx: "(w_ctx w1)\<lparr>should_stop := True, stop_thread := u\<rparr> =
      (w_ctx v)\<lparr>should_stop := True, breakpoint_hit := breakpoint_hit (w_ctx w), stop_thread := u\<rparr>" for u
    using sim(3) k(4) flag_updates(2) [where c = "w_ctx v" and s = True and t = u] by simp
  have "0 \<le> sys_focus_hart (w_sim w)" using assms(2) by (simp add: good_def sys_ok_def)
  then have u: "reported_thread w1 = (if sys_stop_hart (w_sim v) \<ge> 0 then sys_stop_hart (w_sim v) + 1 else int (focus w) + 1)"
    using sim(1) k(5) by (simp add: reported_thread_def sys_thread_id_def add.commute)
  let ?s = "if sys_any_running v then 2 else 4 :: int"
  have signal: "?s = 4 \<and> \<not> sys_any_running v \<or>
      ?s = 2 \<and> sys_any_running v \<and> (g_interrupt_received (w_sim v) \<or> should_stop (w_ctx v) \<or> Client_data \<in> set polls)"
    using cause by (cases "sys_any_running v") simp_all
  note sent = reports_stop_sent [OF assms(4) sim(4), unfolded any_running_cong [OF sim(1)] ctx stop_sent_def sim(2) k(2)]
  have "stop_told polls w v w'"
    unfolding stop_told_def
    by (rule exI [of _ ?s], rule exI [of _ "breakpoint_hit (w_ctx w)"], rule exI [of _ "reported_thread w1"],
        rule exI [of _ "(w_ctx v)\<lparr>should_stop := True, breakpoint_hit := breakpoint_hit (w_ctx w), stop_thread := reported_thread w1\<rparr>"],
        intro conjI)
      (rule refl sent [THEN conjunct1] sent [THEN conjunct2] disjI2 conjI f(1) u signal)+
  moreover have "bp_active (w_ctx w') = bp_active (w_ctx w)" using reportsD(2) [OF assms(4)] sim(5) k(3) by simp
  ultimately show ?thesis using f(2) reportsD(1) [OF assms(4)] by blast
qed


subsection \<open>Running to a breakpoint\<close>

lemma one_hart:
  assumes "emu_ok w" "sys_num_harts (w_sim w) = 1"
  shows "hart_list w = [0]" "focus w = 0" "sys_any_running w \<longleftrightarrow> running (hart w 0) \<and> \<not> halted (hart w 0)"
    "should_step_hart 0 m w = gdb_stub_should_run_thread (w_ctx w) 1"
  using assms emu_focus [OF assms(1)]
  by (simp_all add: sys_any_running_def should_step_hart_def sys_thread_id_def)

text \<open>A single hart that the debugger has let run, before the first breakpoint.\<close>

definition single_run :: "bool \<Rightarrow> nat \<Rightarrow> emu \<Rightarrow> bool" where
  "single_run d k w = (emu_ok w \<and> sys_num_harts (w_sim w) = 1 \<and> gdb_stub_should_run_thread (w_ctx w) 1 \<and>
     \<not> should_stop (w_ctx w) \<and> \<not> g_interrupt_received (w_sim w) \<and>
     (\<forall>i \<le> k. running (hart ((continue_step d 0 ^^ i) w) 0) \<and> \<not> halted (hart ((continue_step d 0 ^^ i) w) 0)) \<and>
     (\<forall>i < k. pc (hart ((continue_step d 0 ^^ i) w) 0) \<notin> bp_active (w_ctx w)))"

lemma single_run_Suc:
  assumes "single_run d (Suc k) w"
  shows "single_run d k (continue_step d 0 w)" "running (hart w 0)" "\<not> halted (hart w 0)"
    "running (hart (continue_step d 0 w) 0)" "\<not> halted (hart (continue_step d 0 w) 0)" "pc (hart w 0) \<notin> bp_active (w_ctx w)"
proof -
  have w: "emu_ok w" using assms by (simp add: single_run_def)
  have run: "running (hart ((continue_step d 0 ^^ i) w) 0) \<and> \<not> halted (hart ((continue_step d 0 ^^ i) w) 0)" if "i \<le> Suc k" for i
    using assms that by (simp add: single_run_def)
  have pcs: "pc (hart ((continue_step d 0 ^^ i) w) 0) \<notin> bp_active (w_ctx w)" if "i < Suc k" for i
    using assms that unfolding single_run_def by blast
  show "running (hart w 0)" "\<not> halted (hart w 0)" using run [of 0] by simp_all
  show "running (hart (continue_step d 0 w) 0)" "\<not> halted (hart (continue_step d 0 w) 0)" using run [of 1] by simp_all
  show "pc (hart w 0) \<notin> bp_active (w_ctx w)" using pcs [of 0] by simp
  have "running (hart ((continue_step d 0 ^^ i) (continue_step d 0 w)) 0) \<and> \<not> halted (hart ((continue_step d 0 ^^ i) (continue_step d 0 w)) 0)"
    if "i \<le> k" for i using run [of "Suc i"] that by (simp add: funpow_swap1)
  moreover have "pc (hart ((continue_step d 0 ^^ i) (continue_step d 0 w)) 0) \<notin> bp_active (w_ctx w)" if "i < k" for i
    using pcs [of "Suc i"] that by (simp add: funpow_swap1)
  ultimately show "single_run d k (continue_step d 0 w)"
    using assms continue_ctx [OF w, of d 0] by (simp add: single_run_def continue_step_ok gdb_stub_should_run_thread_def)
qed

lemma single_round:
  assumes "single_run d k w"
  shows "sys_any_running w \<and> \<not> should_stop (w_ctx w) \<and> \<not> g_interrupt_received (w_sim w)"
    "pc (hart w 0) \<in> bp_active (w_ctx w) \<Longrightarrow>
      run_harts d (hart_list w) w = (True, handle_hart_stop 0 5 (w\<lparr>w_ctx := (w_ctx w)\<lparr>breakpoint_hit := True\<rparr>\<rparr>))"
    "k = Suc n \<Longrightarrow> run_harts d (hart_list w) w = (False, continue_step d 0 w)"
proof -
  have w: "emu_ok w" "sys_num_harts (w_sim w) = 1" "gdb_stub_should_run_thread (w_ctx w) 1"
    and s: "\<not> should_stop (w_ctx w)" "\<not> g_interrupt_received (w_sim w)"
    and r: "running (hart w 0)" "\<not> halted (hart w 0)"
    using assms by (auto simp: single_run_def dest: spec [of _ 0])
  note o = one_hart [OF w(1,2)]
  show "sys_any_running w \<and> \<not> should_stop (w_ctx w) \<and> \<not> g_interrupt_received (w_sim w)" using o s r by simp
  show "run_harts d (hart_list w) w = (True, handle_hart_stop 0 5 (w\<lparr>w_ctx := (w_ctx w)\<lparr>breakpoint_hit := True\<rparr>\<rparr>))"
    if "pc (hart w 0) \<in> bp_active (w_ctx w)" using that o w r by (simp add: check_breakpoint_eq Let_def)
  show "run_harts d (hart_list w) w = (False, continue_step d 0 w)" if "k = Suc n"
    using single_run_Suc [of d n w] assms that o w by (simp add: check_breakpoint_eq Let_def)
qed

lemma continue_loop_to_breakpoint:
  "single_run d k w \<Longrightarrow> v = (continue_step d 0 ^^ k) w \<Longrightarrow> pc (hart v 0) \<in> bp_active (w_ctx w) \<Longrightarrow>
    continue_loop d (replicate k Quiet @ ps) w =
      Some (True, handle_hart_stop 0 5 (v\<lparr>w_ctx := (w_ctx v)\<lparr>breakpoint_hit := True\<rparr>\<rparr>))"
proof (induction k arbitrary: w)
  case 0
  from continue_loop_step(2) [OF single_round(1,2) [OF "0.prems"(1)]] 0 show ?case by simp
next
  case (Suc k)
  note s = single_run_Suc [OF Suc.prems(1)]
  have "emu_ok w" using Suc.prems(1) by (simp add: single_run_def)
  then have "bp_active (w_ctx (continue_step d 0 w)) = bp_active (w_ctx w)" by (simp add: continue_ctx)
  with Suc.IH [OF s(1)] Suc.prems(2,3) have
    "continue_loop d (replicate k Quiet @ ps) (continue_step d 0 w) =
      Some (True, handle_hart_stop 0 5 (v\<lparr>w_ctx := (w_ctx v)\<lparr>breakpoint_hit := True\<rparr>\<rparr>))"
    by (simp add: funpow_swap1)
  then show ?case
    using continue_loop_step(2) [OF single_round(1,3) [OF Suc.prems(1)], of k] by simp
qed

lemma steps_keep:
  "emu_ok w \<Longrightarrow> emu_ok ((continue_step d h ^^ k) w) \<and> w_link ((continue_step d h ^^ k) w) = w_link w \<and>
    but_watch (w_ctx ((continue_step d h ^^ k) w)) = but_watch (w_ctx w) \<and>
    sys_num_harts (w_sim ((continue_step d h ^^ k) w)) = sys_num_harts (w_sim w)"
  by (induction k) (simp_all add: continue_step_ok continue_but_watch)

lemma run_to_breakpoint:
  fixes w :: emu
  assumes "single_run d k w" "wsched (w_link w) = []"
  defines "v \<equiv> (continue_step d 0 ^^ k) w"
  assumes "pc (hart v 0) \<in> bp_active (w_ctx w)"
  shows "\<exists>w'. continue_all_harts d (replicate k Quiet @ polls) w = Some (True, w') \<and>
    sys_harts (w_sim w') = sys_harts (w_sim v) \<and> sys_stdout (w_sim w') = sys_stdout (w_sim v) \<and>
    tx (w_link w') = tx (w_link w) @ frame (''T05thread:'' @
      (if multiprocess_active (w_ctx w) then ''p1.'' else '''') @ ''1;swbreak:;'')"
proof -
  let ?v = "v\<lparr>w_ctx := (w_ctx v)\<lparr>breakpoint_hit := True\<rparr>\<rparr>"
  let ?w = "handle_hart_stop 0 5 ?v"
  have w: "emu_ok w" "sys_num_harts (w_sim w) = 1" using assms(1) by (simp_all add: single_run_def)
  note k = steps_keep [OF w(1), where h = 0 and d = d and k = k, folded v_def]
  have "continue_all_harts d (replicate k Quiet @ polls) w = Some (True, ?w)"
    using continue_loop_to_breakpoint [OF assms(1) refl, of polls] assms(4)
    by (simp add: continue_all_harts_def v_def)
  moreover have "emu_ok ?v" using k by (simp add: good_def stub_inv_flags)
  from handle_hart_stop_sends [OF this, of 0 5] k w(2) assms(2)
  have "sys_harts (w_sim ?w) = sys_harts (w_sim v) \<and> sys_stdout (w_sim ?w) = sys_stdout (w_sim v) \<and>
    tx (w_link ?w) = tx (w_link w) @ frame (fst (stop_reason 5 (pc (hart v 0)) ((w_ctx ?v)\<lparr>should_stop := True, stop_thread := 1\<rparr>)))"
    by simp
  moreover have "multiprocess_active (w_ctx v) = multiprocess_active (w_ctx w)"
    using but_watch_fields(9) k by blast
  ultimately show ?thesis
    by (intro exI [of _ ?w]) (simp add: emu_reason_text stop_reply_text_def stop_tid_def fmt_int_x_pid fmt_0x_byte hex_char_def)
qed

text \<open>The demonstration on one hart, with a breakpoint at \<open>a\<close>.\<close>

definition stop_at :: "32 word \<Rightarrow> emu" where
  "stop_at a = w_ctx_update (\<lambda>c. snd (gdb_stub_add_breakpoint a c)) (demo_start 1)"

lemma stop_at_facts:
  "emu_ok (stop_at a)" "demo_world (stop_at a)" "bp_active (w_ctx (stop_at a)) = {a}" "wsched (w_link (stop_at a)) = []"
  "tx (w_link (stop_at a)) = []" "multiprocess_active (w_ctx (stop_at a)) = False"
  "sys_num_harts (w_sim (stop_at a)) = 1" "continue_thread (w_ctx (stop_at a)) = - 1"
  "should_stop (w_ctx (stop_at a)) = False" "g_interrupt_received (w_sim (stop_at a)) = False"
proof -
  note m = main_start_ok [OF demo_start, of 1]
  show "emu_ok (stop_at a)" unfolding stop_at_def by (rule good_upd_ctx [OF m(1)]) simp
  obtain g where c: "w_ctx (demo_start 1) = zero_context\<lparr>stub := g, current_thread := 1, continue_thread := - 1\<rparr>"
    by (simp add: demo_start_def main_start_def gdb_stub_init_def gdb_stub_accept_def Let_def zero_context_def)
  show "demo_world (stop_at a)" "sys_num_harts (w_sim (stop_at a)) = 1" "g_interrupt_received (w_sim (stop_at a)) = False"
    using demo_world_start m(3) init_harts [of 1]
    by (simp_all add: demo_world_def stop_at_def valid_hart_count_def gdb_stub_add_breakpoint_def Let_def
        wp_active_def split: option.split)
  have "bp_inv (w_ctx (demo_start 1))" "bp_slots (w_ctx (demo_start 1)) = {}"
    using c by (simp_all add: zero_context_def bp_abs_defs)
  then show "bp_active (w_ctx (stop_at a)) = {a}"
    using add_effect [of "w_ctx (demo_start 1)" a] m(6) by (simp add: stop_at_def)
  show "wsched (w_link (stop_at a)) = []" "tx (w_link (stop_at a)) = []" by (simp_all add: stop_at_def demo_facts)
  show "multiprocess_active (w_ctx (stop_at a)) = False" "continue_thread (w_ctx (stop_at a)) = - 1"
    "should_stop (w_ctx (stop_at a)) = False"
    by (simp_all add: stop_at_def gdb_stub_add_breakpoint_def Let_def c zero_context_def split: option.split)
qed

lemma stop_at_end: "single_run False 9 (stop_at 0x80000028)"
proof -
  note d = demo_run [OF stop_at_facts(2) [of "0x80000028"]]
  have "demo_pc i \<noteq> 0x80000028" if "i < 9" for i
  proof -
    have "i \<in> {0, 1, 2, 3, 4, 5, 6, 7, 8}" using that by auto
    then show ?thesis by (elim insertE) (simp_all add: demo_pc_def)
  qed
  then show ?thesis using d(1,2,3)
    by (simp add: single_run_def stop_at_facts gdb_stub_should_run_thread_def)
qed

text \<open>
  C10: Running to a breakpoint. Let one hart run that has no breakpoint before it in its next
  \<open>k\<close> instructions, is neither halted nor stopped by them, and has one at the address it
  reaches after them. Then \<open>continue_all_harts\<close> returns after exactly these \<open>k\<close>
  instructions, whatever the client would have sent later: the processor stands at the
  breakpoint, whose instruction has not been executed, and the one packet sent is the stop
  reply for a trap at a software breakpoint of thread 1.
\<close>

theorem continue_to_breakpoint:
  fixes w :: emu
  assumes "single_run d k w" "wsched (w_link w) = []"
  defines "v \<equiv> (continue_step d 0 ^^ k) w"
  assumes "pc (hart v 0) \<in> bp_active (w_ctx w)"
  shows "\<exists>w'. continue_all_harts d (replicate k Quiet @ polls) w = Some (True, w') \<and>
    sys_harts (w_sim w') = sys_harts (w_sim v) \<and> sys_stdout (w_sim w') = sys_stdout (w_sim v) \<and>
    tx (w_link w') = tx (w_link w) @ frame (''T05thread:'' @
      (if multiprocess_active (w_ctx w) then ''p1.'' else '''') @ ''1;swbreak:;'')"
  unfolding v_def by (rule run_to_breakpoint [OF assms(1,2) assms(4) [unfolded v_def]])

lemma continue_to_breakpoint_witness:
  "\<exists>w'. continue_all_harts False (replicate 9 Quiet) (stop_at 0x80000028) = Some (True, w') \<and>
     pc (hart w' 0) = 0x80000028 \<and> regs (hart w' 0) 6 = 1 \<and> tx (w_link w') = frame ''T05thread:1;swbreak:;''"
proof -
  note d = demo_run [OF stop_at_facts(2) [of "0x80000028"]]
  have b: "pc (hart ((continue_step False 0 ^^ 9) (stop_at 0x80000028)) 0) \<in> bp_active (w_ctx (stop_at 0x80000028))"
    by (simp add: stop_at_facts d(3) demo_pc_def)
  from continue_to_breakpoint [OF stop_at_end stop_at_facts(4) b, of "[]"] show ?thesis
    using d(3,4) by (auto simp: stop_at_facts demo_pc_def)
qed


end
