(* ===== verification/Emu_Turns.thy ===== *)
theory Emu_Turns
  imports Emu_Run
begin

text \<open>
  Whole turns of the main loop of src/emu/main.c, from the packet that the client sends to the
  stop reply: stepping, and the two ways of interrupting a continue.
\<close>

subsection \<open>Resuming\<close>

definition with_harts :: "(nat \<Rightarrow> dbg rv32_cpu) \<Rightarrow> emu \<Rightarrow> emu" where
  "with_harts f w = w_sim_update (\<lambda>s. s\<lparr>sys_harts := f\<rparr>) w"

lemma with_harts_simps [simp]:
  "w_ctx (with_harts f w) = w_ctx w" "w_link (with_harts f w) = w_link w" "hart (with_harts f w) = f"
  "sys_num_harts (w_sim (with_harts f w)) = sys_num_harts (w_sim w)"
  "sys_focus_hart (w_sim (with_harts f w)) = sys_focus_hart (w_sim w)"
  "g_interrupt_received (w_sim (with_harts f w)) = g_interrupt_received (w_sim w)"
  by (simp_all add: with_harts_def)

lemma with_harts_again [simp]:
  "with_harts g (with_harts f w) = with_harts g w" "with_harts (sys_harts (w_sim w)) w = w"
  by (cases w; simp add: with_harts_def)+

lemma fold_upd_cpu:
  assumes "distinct hs"
  shows "fold (\<lambda>h w. if P (w_ctx w) h then upd_cpu h (g h) w else w) hs w =
    with_harts (\<lambda>h. if h \<in> set hs \<and> P (w_ctx w) h then g h (hart w h) else hart w h) w"
  using assms
proof (induction hs arbitrary: w)
  case (Cons a hs)
  have "upd_cpu a (g a) w = with_harts ((sys_harts (w_sim w))(a := g a (hart w a))) w"
    by (simp add: upd_cpu_def with_harts_def)
  with Cons show ?case
    by (simp del: fun_upd_apply) (intro conjI impI arg_cong2 [where f = with_harts] refl ext; auto)
qed simp

lemma resume_harts:
  "sys_resume_runnable w =
    with_harts (\<lambda>h. if h < nat (sys_num_harts (w_sim w)) \<and> gdb_stub_should_run_thread (w_ctx w) (int h + 1)
         then (hart w h)\<lparr>halted := False\<rparr> else hart w h) w"
  unfolding sys_resume_runnable_def
  by (subst fold_upd_cpu [where P = "\<lambda>c h. gdb_stub_should_run_thread c (sys_thread_id (int h))" and g = "\<lambda>_. halted_update (\<lambda>_. False)"])
    (simp_all add: sys_thread_id_def add.commute)

lemma resume_twice: "sys_resume_runnable (sys_resume_runnable w) = sys_resume_runnable w"
  by (simp add: resume_harts if_distrib cong: if_cong)

lemma resume_ok: "emu_ok w \<Longrightarrow> emu_ok (sys_resume_runnable w)"
  by (rule halt_resume_ok(2))

subsection \<open>Stepping\<close>

text \<open>A hart that is running executes exactly one instruction of its own in a step.\<close>

lemma sys_step_count:
  assumes "emu_ok w" "h < nat (sys_num_harts (w_sim w))"
  shows "instruction_count (hart (sys_cpu_step h w) h) = instruction_count (hart w h) + of_bool (running (hart w h))"
proof -
  let ?w = "on_mach (rv32_cpu_step h) w"
  have "emu_ok ?w" by (rule on_mach_ok [OF assms(1) confined_step])
  then have "hart_id (hart ?w h) = int h" using emu_wiring(2) [of ?w h] assms(2) by simp
  moreover have "instruction_count (hart (on_mach (smp_sync_on_counter_store nh src c) u) 0) = instruction_count (hart u 0)"
    for nh src c u
    using arg_cong [OF counter_store_apart [where nh = nh and src = src and c = c and m = "to_mach u" and z = "\<lambda>_. 0"], of instruction_count]
    by (simp add: on_mach_def of_mach_def to_mach_def)
  ultimately have "instruction_count (hart (sys_cpu_step h w) h) = instruction_count (hart ?w h)"
    by (simp add: sys_cpu_step_def sys_post_step_def)
  then show ?thesis using step_counts [of h "to_mach w"] by (simp add: on_mach_def of_mach_def to_mach_def)
qed

lemma step_focus_sends:
  assumes "emu_ok w" "wsched (w_link w) = []" "gdb_stub_should_run_thread (w_ctx w) (sys_focus_hart (w_sim w) + 1)"
    and "pc (hart w (focus w)) \<notin> bp_active (w_ctx w)"
  defines "v \<equiv> sys_cpu_step (focus w) w"
  shows "\<exists>w' c. step_focus_hart False w = w' \<and> sys_harts (w_sim w') = sys_harts (w_sim v) \<and>
    sys_focus_hart (w_sim w') = sys_focus_hart (w_sim w) \<and> rx (w_link w') = rx (w_link w) \<and>
    stop_thread c = sys_focus_hart (w_sim w) + 1 \<and> breakpoint_hit c = breakpoint_hit (w_ctx w) \<and>
    last_watchpoint_addr c = last_watchpoint_addr (w_ctx v) \<and>
    multiprocess_active c = multiprocess_active (w_ctx w) \<and>
    tx (w_link w') = tx (w_link w) @ frame (fst (stop_reason
      (if running (hart v (focus w)) \<or> halted (hart v (focus w)) then 5 else 4) (pc (hart v (focus w))) c))"
proof -
  let ?h = "focus w" and ?v = "w_ctx_update (\<lambda>c. c\<lparr>should_stop := True, single_step := False\<rparr>) v"
  have h: "hart_id (hart w ?h) = int ?h" "int ?h = sys_focus_hart (w_sim w)" "?h < nat (sys_num_harts (w_sim w))"
    using emu_wiring(2) [OF assms(1) emu_focus(1) [OF assms(1)]] emu_focus(1) [OF assms(1)] assms(1)
    by (auto simp: good_def sys_ok_def)
  have v: "emu_ok v" "w_link v = w_link w" "sys_num_harts (w_sim v) = sys_num_harts (w_sim w)"
    using sys_cpu_step_ok [OF assms(1)] by (simp_all add: v_def)
  then have "emu_ok ?v" by (intro good_upd_ctx) simp_all
  note s = handle_hart_stop_sends [OF this, of ?h]
  have "step_focus_hart False w = handle_hart_stop ?h (if running (hart v ?h) \<or> halted (hart v ?h) then 5 else 4) ?v"
    using assms(3,4) h by (simp add: step_focus_hart_def Let_def check_breakpoint_eq sys_thread_id_def v_def)
  then show ?thesis
    using s h v assms(2) step_ctx [OF assms(1), of ?h, folded v_def]
    by (intro exI [of _ "step_focus_hart False w"] exI [of _ "(w_ctx ?v)\<lparr>should_stop := True, stop_thread := int ?h + 1\<rparr>"])
      simp
qed

lemma ready_process:
  assumes "ready w" "rx (w_link w) = frame d @ rest" "d \<noteq> []" "CHR ''#'' \<notin> set d" "length d \<le> 4095"
  shows "gdb_stub_process emu_callbacks w = dispatch emu_callbacks (hd d) (received d rest w)"
    "emu_ok (received d rest w)" "wsched (w_link (received d rest w)) = []"
    "tx (w_link (received d rest w)) = tx (w_link w) @ ack w"
proof -
  show "gdb_stub_process emu_callbacks w = dispatch emu_callbacks (hd d) (received d rest w)"
    using process_frame [of w "[]" d rest emu_callbacks] assms ready_buf [OF assms(1)] by (simp add: ready_def)
  show "emu_ok (received d rest w)" "wsched (w_link (received d rest w)) = []"
    using received_ready [OF assms(1), of d rest] assms(5) by (simp_all add: ready_def)
  show "tx (w_link (received d rest w)) = tx (w_link w) @ ack w" by (simp add: received_def)
qed

lemma received_ctx [simp]:
  "bp_active (w_ctx (received d rest w)) = bp_active (w_ctx w)"
  "current_thread (w_ctx (received d rest w)) = current_thread (w_ctx w)"
  "continue_thread (w_ctx (received d rest w)) = continue_thread (w_ctx w)"
  "breakpoint_hit (w_ctx (received d rest w)) = breakpoint_hit (w_ctx w)"
  "last_watchpoint_addr (w_ctx (received d rest w)) = last_watchpoint_addr (w_ctx w)"
  "multiprocess_active (w_ctx (received d rest w)) = multiprocess_active (w_ctx w)"
  "wp_active (w_ctx (received d rest w)) = wp_active (w_ctx w)"
  by (simp_all add: received_def bp_active_def wp_active_def)

lemma wp_active_flags [simp]:
  "wp_active (c\<lparr>continue_thread := t\<rparr>) = wp_active c" "wp_active (c\<lparr>should_stop := b\<rparr>) = wp_active c"
  "wp_active (c\<lparr>stop_thread := t\<rparr>) = wp_active c" "wp_active (c\<lparr>single_step := b\<rparr>) = wp_active c"
  by (simp_all add: wp_active_def)

lemma bp_active_continue [simp]: "bp_active (c\<lparr>continue_thread := t\<rparr>) = bp_active c"
  by (simp add: bp_active_def)

text \<open>
  C11: A step packet. When the client asks for a step of the thread in focus, which has no
  breakpoint at its program counter, one turn of the main loop resumes that hart and no
  other, executes exactly one of its instructions (none if it has stopped running), leaves the
  focus where it is, and sends the acknowledgement and one stop reply for that thread: signal
  5, or 4 when the instruction has stopped the hart for good.
\<close>

theorem step_packet:
  fixes w :: emu
  assumes "ready w" "rx (w_link w) = frame ''s'' @ rest"
    and "current_thread (w_ctx w) = sys_focus_hart (w_sim w) + 1"
    and "continue_thread (w_ctx w) < 0 \<or> continue_thread (w_ctx w) = sys_focus_hart (w_sim w) + 1"
    and "pc (hart w (focus w)) \<notin> bp_active (w_ctx w)"
  defines "h \<equiv> focus w" and "u \<equiv> process_step emu_callbacks (received ''s'' rest w)"
  defines "v \<equiv> sys_cpu_step h u"
  shows "sys_harts (w_sim u) = (sys_harts (w_sim w))(h := (hart w h)\<lparr>halted := False\<rparr>) \<and>
    instruction_count (hart v h) = instruction_count (hart w h) + of_bool (running (hart w h)) \<and>
    (\<exists>go w' c. main_turn False im line polls r w = Some (go, True, w') \<and>
      sys_harts (w_sim w') = sys_harts (w_sim v) \<and> sys_focus_hart (w_sim w') = sys_focus_hart (w_sim w) \<and>
      rx (w_link w') = rest \<and> stop_thread c = sys_focus_hart (w_sim w) + 1 \<and>
      tx (w_link w') = tx (w_link w) @ ack w @ frame (fst (stop_reason
        (if running (hart v h) \<or> halted (hart v h) then 5 else 4) (pc (hart v h)) c)))"
proof -
  note p = ready_process [OF assms(1,2), simplified]
  let ?F = "\<lambda>c :: 32 gdb_context. (if continue_thread c < 0 then c\<lparr>continue_thread := current_thread c\<rparr> else c)
        \<lparr>should_stop := False, single_step := True, stop_thread := 0\<rparr>"
  define u0 where "u0 = w_ctx_update ?F (received ''s'' rest w)"
  have u: "u = sys_resume_runnable u0"
    by (simp add: u_def u0_def process_step_def emu_callbacks_def call_opt_def gdb_resume_def)
  have u0: "emu_ok u0" "w_sim u0 = w_sim w" "continue_thread (w_ctx u0) = sys_focus_hart (w_sim w) + 1" "single_step (w_ctx u0)"
    "bp_active (w_ctx u0) = bp_active (w_ctx w)" "w_link u0 = w_link (received ''s'' rest w)"
    using assms(3,4) good_upd_ctx [OF p(2), of ?F] by (simp_all add: u0_def) auto
  have f: "0 \<le> sys_focus_hart (w_sim w)" "h < nat (sys_num_harts (w_sim w))" "int h = sys_focus_hart (w_sim w)"
    using emu_focus [OF u0(1)] u0(1,2) by (auto simp: good_def sys_ok_def h_def)
  have harts: "sys_harts (w_sim u) = (sys_harts (w_sim w))(h := (hart w h)\<lparr>halted := False\<rparr>)"
    using u0(2,3) f by (auto simp: u resume_harts gdb_stub_should_run_thread_def fun_eq_iff)
  have uok: "emu_ok u" "w_link u = w_link u0" "w_ctx u = w_ctx u0" "sys_focus_hart (w_sim u) = sys_focus_hart (w_sim w)"
    "sys_num_harts (w_sim u) = sys_num_harts (w_sim w)"
    using resume_ok [OF u0(1)] u0(2) by (simp_all add: u)
  have "instruction_count (hart v h) = instruction_count (hart w h) + of_bool (running (hart w h))"
    using sys_step_count [OF uok(1), of h] f uok(5) by (simp add: v_def harts)
  moreover have "gdb_stub_process emu_callbacks w = Some (1, u)"
    using p(1) by (simp add: dispatch_def u_def)
  then have "\<exists>go s. main_turn False im line polls r w = Some (go, True, print_out s (step_focus_hart False u))"
    using u0(4) uok(3) turn_end [of "im \<and> should_stop (w_ctx (step_focus_hart False u))" line "step_focus_hart False u"]
    by (auto simp: main_turn_def Let_def u resume_twice)
  moreover have pre: "wsched (w_link u) = []" "gdb_stub_should_run_thread (w_ctx u) (sys_focus_hart (w_sim u) + 1)"
    "pc (hart u (focus u)) \<notin> bp_active (w_ctx u)"
    using u0(3,5,6) uok p(3) harts assms(5) by (simp_all add: gdb_stub_should_run_thread_def h_def)
  have "rx (w_link u) = rest" "tx (w_link u) = tx (w_link w) @ ack w" "focus u = h"
    using uok(2,4) u0(6) p(4) by (simp_all add: h_def)
  with step_focus_sends [OF uok(1) pre] uok(4)
  have "\<exists>w' c. step_focus_hart False u = w' \<and> sys_harts (w_sim w') = sys_harts (w_sim v) \<and>
    sys_focus_hart (w_sim w') = sys_focus_hart (w_sim w) \<and> rx (w_link w') = rest \<and> stop_thread c = sys_focus_hart (w_sim w) + 1 \<and>
    tx (w_link w') = tx (w_link w) @ ack w @ frame (fst (stop_reason
      (if running (hart v h) \<or> halted (hart v h) then 5 else 4) (pc (hart v h)) c))"
    unfolding v_def by auto
  ultimately show ?thesis using harts print_out_simps by metis
qed

lemma demo_ctx:
  "\<exists>g. w_ctx (demo_start n) = zero_context\<lparr>stub := g, current_thread := 1, continue_thread := - 1\<rparr>"
  by (simp add: demo_start_def main_start_def gdb_stub_init_def gdb_stub_accept_def Let_def zero_context_def)

lemma demo_sim:
  assumes "valid_hart_count n"
  shows "sys_focus_hart (w_sim (demo_start n)) = 0" "sys_num_harts (w_sim (demo_start n)) = n"
    "g_interrupt_received (w_sim (demo_start n)) = False"
    "running (hart (demo_start n) 0)" "halted (hart (demo_start n) 0) = False" "pc (hart (demo_start n) 0) = RAM_BASE"
    "instruction_count (hart (demo_start n) 0) = 0"
  using main_start_ok(3) [OF demo_start, of n] init_harts [OF assms]
  by (simp_all add: init_hart_def setup_hart_watchpoints_def rv32_cpu_init_def Let_def)

lemma step_packet_witness:
  "\<exists>go w'. main_turn False False None [] False (client_sends (frame ''s'') (demo_start 1)) = Some (go, True, w') \<and>
     instruction_count (hart w' 0) = 1 \<and> rx (w_link w') = ''''"
proof -
  let ?w = "client_sends (frame ''s'') (demo_start 1)"
  obtain g where c: "w_ctx (demo_start 1) = zero_context\<lparr>stub := g, current_thread := 1, continue_thread := - 1\<rparr>"
    using demo_ctx by blast
  have v: "valid_hart_count 1" by (simp add: valid_hart_count_def)
  have a: "rx (w_link ?w) = frame ''s'' @ ''''" "current_thread (w_ctx ?w) = sys_focus_hart (w_sim ?w) + 1"
    "continue_thread (w_ctx ?w) < 0 \<or> continue_thread (w_ctx ?w) = sys_focus_hart (w_sim ?w) + 1"
    "pc (hart ?w (focus ?w)) \<notin> bp_active (w_ctx ?w)"
    using c demo_sim [OF v] main_start_ok(6) [OF demo_start, of 1] by (simp_all add: zero_context_def del: frame_def)
  from step_packet [OF demo_ready a, of False None "[]" False] show ?thesis
    using demo_sim [OF v] by (auto simp del: frame_def)
qed

subsection \<open>Interrupting a continue\<close>

lemma halt_all_harts:
  "sys_halt_all w = with_harts (\<lambda>h. if h < nat (sys_num_harts (w_sim w)) then (hart w h)\<lparr>halted := True\<rparr> else hart w h) w"
  using fold_upd_cpu [where P = "\<lambda>_ _. True" and g = "\<lambda>_. halted_update (\<lambda>_. True)" and hs = "hart_list w" and w = w]
  by (simp add: sys_halt_all_def)

lemma sigint_stops:
  assumes "connected (w_stub w)"
  shows "\<not> sys_any_running (sigint_handler w)" "g_interrupt_received (w_sim (sigint_handler w))"
    "h < nat (sys_num_harts (w_sim w)) \<Longrightarrow> hart (sigint_handler w) h = (hart w h)\<lparr>halted := True\<rparr>"
  using assms by (simp_all add: sigint_handler_def Let_def sys_any_running_def halt_all_harts list_ex_iff)

text \<open>A round in which no hart stops.\<close>

definition quiet_round :: "bool \<Rightarrow> emu \<Rightarrow> emu \<Rightarrow> bool" where
  "quiet_round d w w1 = (sys_any_running w \<and> \<not> should_stop (w_ctx w) \<and> \<not> g_interrupt_received (w_sim w) \<and>
     run_harts d (hart_list w) w = (False, w1))"

lemma quiet_round_keeps:
  assumes "quiet_round d w w1" "emu_ok w"
  shows "emu_ok w1" "w_link w1 = w_link w" "w_stub w1 = w_stub w" "sys_num_harts (w_sim w1) = sys_num_harts (w_sim w)"
    "bp_active (w_ctx w1) = bp_active (w_ctx w)" "continue_thread (w_ctx w1) = continue_thread (w_ctx w)"
proof -
  obtain tr where "executes d w tr w1"
    using run_harts_executes [of d "hart_list w" w False w1] assms by (auto simp: quiet_round_def)
  from executes_keeps [OF this assms(2)] show "emu_ok w1" "w_link w1 = w_link w" "w_stub w1 = w_stub w"
    "sys_num_harts (w_sim w1) = sys_num_harts (w_sim w)"
    "bp_active (w_ctx w1) = bp_active (w_ctx w)" "continue_thread (w_ctx w1) = continue_thread (w_ctx w)" by simp_all
qed

lemma quiet_round_poll:
  assumes "quiet_round d w w1"
  shows "continue_loop d (Sigint # ps) w = continue_loop d ps (sigint_handler w1)"
    "continue_loop d (Client_data # ps) w = Some (False, w_ctx_update (\<lambda>c. c\<lparr>should_stop := True\<rparr>) w1)"
  using assms continue_loop_step(2) [of w d False w1] by (simp_all add: quiet_round_def)

text \<open>
  C30: SIGINT while the harts run. The handler halts every hart, so the loop takes the stop
  for the end of all harts: the debugger is told of signal 4, illegal instruction, and not of
  signal 2, and \<open>g_interrupt_received\<close> stays set. The next continue of the client therefore
  executes no instruction at all and reports signal 2 then, for a signal long past.
\<close>

theorem sigint_misreported:
  fixes w :: emu
  assumes "emu_ok w" "connected (w_stub w)" "wsched (w_link w) = []" "quiet_round d w w1" "running (hart w1 0)"
  shows "\<exists>w' c u' c'. continue_all_harts d (Sigint # polls) w = Some (True, w') \<and> g_interrupt_received (w_sim w') \<and>
    tx (w_link w') = tx (w_link w) @ frame (fst (stop_reason 4 (pc (hart w' (focus w'))) c)) \<and>
    continue_all_harts d polls' (process_continue emu_callbacks w') = Some (True, u') \<and>
    sys_harts (w_sim u') = sys_harts (w_sim (process_continue emu_callbacks w')) \<and>
    tx (w_link u') = tx (w_link w') @ frame (fst (stop_reason 2 (pc (hart u' (focus u'))) c'))"
proof -
  let ?s = "sigint_handler w1"
  note k = quiet_round_keeps [OF assms(4,1)]
  have conn: "connected (w_stub w1)" using k(3) assms(2) by simp
  note s = sigint_stops [OF conn]
  have "continue_loop d (Sigint # polls) w = Some (False, ?s)"
    unfolding quiet_round_poll(1) [OF assms(4)] by (rule continue_loop_step(1)) (simp add: s(1))
  from loop_reports [OF this] s(1) k(2) assms(3) obtain w' where c: "continue_all_harts d (Sigint # polls) w = Some (True, w')"
    and w': "reports ?s w'" by auto
  let ?u = "process_continue emu_callbacks w'"
  have "0 < nat (sys_num_harts (w_sim w1))" using emu_focus(2) [OF k(1)] .
  then have r: "running (hart w' 0)" "g_interrupt_received (w_sim w')" "0 < nat (sys_num_harts (w_sim w'))"
    using reportsD [OF w'] s assms(5) by simp_all
  have u: "sys_any_running ?u" "g_interrupt_received (w_sim ?u)" "w_link ?u = w_link w'"
    using r by (auto simp: process_continue_def call_opt_def emu_callbacks_def gdb_resume_def resume_harts
        sys_any_running_def list_ex_iff gdb_stub_should_run_thread_def)
  have "continue_loop d polls' ?u = Some (False, ?u)" by (rule continue_loop_step(1)) (simp add: u(2))
  from loop_reports [OF this] u reportsD(9) [OF w'] k(2) assms(3)
  obtain u' where c': "continue_all_harts d polls' ?u = Some (True, u')" and u': "reports ?u u'" by auto
  from reportsD(10) [OF w'] s(1) k(2) reportsD(4,10) [OF u'] u(1,3) c c' r(2) show ?thesis by auto
qed

lemma single_run_le: "j \<le> k \<Longrightarrow> single_run d k w \<Longrightarrow> single_run d j w"
  by (simp add: single_run_def)

lemma stop_at_round: "quiet_round False (stop_at 0x80000028) (sys_cpu_step 0 (stop_at 0x80000028))"
proof -
  have "single_run False (Suc 0) (stop_at 0x80000028)" by (rule single_run_le [OF _ stop_at_end]) simp
  from single_round(1,3) [OF this] show ?thesis by (simp add: quiet_round_def)
qed

lemma stop_at_connected: "connected (w_stub (stop_at a))" "consecutive_failures (w_stub (stop_at a)) = 0"
  using main_start_ok(2) [OF demo_start, of 1] demo_facts(1) [of 1] by (simp_all add: stop_at_def breakpoint_frames)

lemma sigint_misreported_witness:
  "\<exists>w' c. continue_all_harts False [Sigint] (stop_at 0x80000028) = Some (True, w') \<and> g_interrupt_received (w_sim w') \<and>
     tx (w_link w') = frame (fst (stop_reason 4 (pc (hart w' (focus w'))) c))"
proof -
  have "running (hart (sys_cpu_step 0 (stop_at 0x80000028)) 0)"
    using demo_run(1) [OF stop_at_facts(2) [of "0x80000028"], of 1] by simp
  from sigint_misreported [OF stop_at_facts(1) stop_at_connected(1) stop_at_facts(4) stop_at_round this, of "[]" "[]"]
  show ?thesis by (simp add: stop_at_facts) blast
qed

lemma interrupt_byte:
  fixes w :: emu
  assumes "ready w" "rx (w_link w) = CHR 0x03 # rest"
  shows "\<exists>w1 c. gdb_stub_process emu_callbacks w = Some (0, w1) \<and> rx (w_link w1) = rest \<and>
    (\<forall>h < nat (sys_num_harts (w_sim w)). halted (hart w1 h)) \<and>
    tx (w_link w1) = tx (w_link w) @ frame (fst (stop_reason 2 (0 :: 32 word) c))"
proof -
  define v where "v = w_ctx_update (stub_update (\<lambda>g. g\<lparr>packet_buffer := (packet_buffer g)[0 := CHR 0x03], packet_size := 1\<rparr>))
      (w_link_update (rx_update (\<lambda>_. rest)) w)"
  have rp: "receive_packet (w_stub w) (w_link w) = (0, (w_stub w)\<lparr>packet_buffer := (w_buf w)[0 := CHR 0x03], packet_size := 1\<rparr>,
      (w_link w)\<lparr>rx := rest\<rparr>)"
    using receive_interrupt [of "w_link w" "[]" rest "w_stub w"] assms(2) by simp
  have b: "w_buf v = CHR 0x03 # drop 1 (w_buf w)"
    using ready_buf [OF assms(1)] by (cases "w_buf w") (simp_all add: v_def)
  have vv: "upd_ctx (stub_update (\<lambda>_. (w_stub w)\<lparr>packet_buffer := (w_buf w)[0 := CHR 0x03], packet_size := 1\<rparr>))
      (w\<lparr>w_link := (w_link w)\<lparr>rx := rest\<rparr>\<rparr>) = v"
    by (cases w) (simp add: v_def)
  have p: "gdb_stub_process emu_callbacks w = Some (0, process_interrupt emu_callbacks v)"
    using assms(1) unfolding gdb_stub_process_def rp Let_def prod.case vv b
    by (simp add: ready_def dispatch_def)
  define x where "x = gdb_halt_cpus (w_ctx_update (\<lambda>c. c\<lparr>should_stop := True\<rparr>) v)"
  define y where "y = (if stop_thread (w_ctx x) = 0 then w_ctx_update (gdb_stub_set_stop_thread 0) x else x)"
  have y: "w_link y = (w_link w)\<lparr>rx := rest\<rparr>" "w_sim y = w_sim x"
    by (simp_all add: y_def x_def v_def gdb_halt_cpus_def)
  have i: "process_interrupt emu_callbacks v = snd (gdb_stub_send_stop_reason 2 0 y)"
    by (simp add: process_interrupt_def call_opt_def emu_callbacks_def Let_def x_def y_def)
  have "halted (hart x h)" if "h < nat (sys_num_harts (w_sim w))" for h
    using that by (simp add: x_def v_def gdb_halt_cpus_def halt_all_harts)
  moreover have "wsched (w_link y) = []" using assms(1) y(1) by (simp add: ready_def)
  ultimately show ?thesis
    using p emu_reason_length [of 2 0 "w_ctx y"] y
    by (intro exI [of _ "process_interrupt emu_callbacks v"] exI [of _ "w_ctx y"]) (simp add: i send_stop_reason_eq reply_ok)
qed

text \<open>The world in which a continue packet lets the harts run.\<close>

lemma continue_world:
  fixes w :: emu
  assumes "emu_ok (received d rest w)"
  defines "u \<equiv> process_continue emu_callbacks (received d rest w)"
  shows "emu_ok u" "sys_resume_runnable u = u" "single_step (w_ctx u) = False" "should_stop (w_ctx u) = False"
    "continue_thread (w_ctx u) = - 1" "w_link u = w_link (received d rest w)" "w_stub u = w_stub (received d rest w)"
    "sys_num_harts (w_sim u) = sys_num_harts (w_sim w)" "bp_active (w_ctx u) = bp_active (w_ctx w)"
    "wp_active (w_ctx u) = wp_active (w_ctx w)" "g_interrupt_received (w_sim u) = g_interrupt_received (w_sim w)"
    "sys_harts (w_sim u) = (\<lambda>h. if h < nat (sys_num_harts (w_sim w)) then (hart w h)\<lparr>halted := False\<rparr> else hart w h)"
proof -
  let ?F = "\<lambda>c :: 32 gdb_context. c\<lparr>should_stop := False, single_step := False, stop_thread := 0, continue_thread := - 1\<rparr>"
  define u0 where "u0 = w_ctx_update ?F (received d rest w)"
  have u: "u = sys_resume_runnable u0"
    by (simp add: u_def u0_def process_continue_def emu_callbacks_def call_opt_def gdb_resume_def)
  have "emu_ok u0" unfolding u0_def by (rule good_upd_ctx [OF assms(1)]) simp
  then show "emu_ok u" unfolding u by (rule resume_ok)
  show "sys_resume_runnable u = u" by (simp add: u resume_twice)
  show "single_step (w_ctx u) = False" "should_stop (w_ctx u) = False"
    "continue_thread (w_ctx u) = - 1" "w_link u = w_link (received d rest w)" "w_stub u = w_stub (received d rest w)"
    "sys_num_harts (w_sim u) = sys_num_harts (w_sim w)" "bp_active (w_ctx u) = bp_active (w_ctx w)"
    "wp_active (w_ctx u) = wp_active (w_ctx w)" "g_interrupt_received (w_sim u) = g_interrupt_received (w_sim w)"
    "sys_harts (w_sim u) = (\<lambda>h. if h < nat (sys_num_harts (w_sim w)) then (hart w h)\<lparr>halted := False\<rparr> else hart w h)"
    by (simp_all add: u u0_def resume_harts gdb_stub_should_run_thread_def cong: if_cong)
qed

text \<open>
  C31: An interrupt from the debugger is answered twice. When the client asks for a continue
  and then sends the interrupt byte while the harts run, the loop ends because something has
  arrived and reports signal 2 without reading it; the next turn of the main loop reads the
  byte, halts every hart and sends a second stop reply for signal 2. The client receives two
  stop replies for one interrupt.
\<close>

theorem interrupt_answered_twice:
  fixes w u u1 :: emu
  assumes "ready w" "rx (w_link w) = frame ''c'' @ CHR 0x03 # rest"
  defines "u \<equiv> process_continue emu_callbacks (received ''c'' (CHR 0x03 # rest) w)"
  assumes "quiet_round d u u1" "sys_any_running u1"
  shows "\<exists>g1 g2 w1 w2 c1 c2. main_turn d im line (Client_data # polls) r w = Some (g1, True, w1) \<and>
    main_turn d im line polls' True w1 = Some (g2, True, w2) \<and> rx (w_link w2) = rest \<and>
    (\<forall>h < nat (sys_num_harts (w_sim w)). halted (hart w2 h)) \<and>
    tx (w_link w2) = tx (w_link w) @ ack w @ frame (fst (stop_reason 2 (pc (hart w1 (focus w1))) c1)) @
      frame (fst (stop_reason 2 (0 :: 32 word) c2))"
proof -
  note p = ready_process [OF assms(1,2), simplified]
  note cw = continue_world [OF p(2), folded u_def]
  note uok = cw(1)
  note k = quiet_round_keeps [OF assms(4) uok]
  have u1: "rx (w_link u1) = CHR 0x03 # rest" "wsched (w_link u1) = []" "tx (w_link u1) = tx (w_link w) @ ack w"
    "connected (w_stub u1)" "consecutive_failures (w_stub u1) = 0" "sys_num_harts (w_sim u1) = sys_num_harts (w_sim w)"
    using k(2-4) p(3,4) assms(1) cw(6,7,8) by (simp_all add: ready_def)
  let ?v = "w_ctx_update (\<lambda>c. c\<lparr>should_stop := True\<rparr>) u1"
  have any: "sys_any_running ?v" using assms(5) by (simp add: sys_any_running_def)
  obtain w0 where c: "continue_all_harts d (Client_data # polls) u = Some (True, w0)" and w0: "reports ?v w0"
    using loop_reports [OF quiet_round_poll(2) [OF assms(4)]] u1(2) by auto
  have "gdb_stub_process emu_callbacks w = Some (1, u)" using p(1) by (simp add: dispatch_def u_def)
  then obtain g1 s where t1: "main_turn d im line (Client_data # polls) r w = Some (g1, True, print_out s w0)"
    using c cw(2,3) turn_end [of "im \<and> should_stop (w_ctx w0)" line w0] by (auto simp: main_turn_def Let_def)
  define w1 where "w1 = print_out s w0"
  have w1: "reports ?v w1" using w0 by (simp add: w1_def)
  note r = reportsD [OF w1]
  have "emu_ok w1" using continue_all_harts_ok [OF c uok] by (simp add: w1_def)
  then have "ready w1" "rx (w_link w1) = CHR 0x03 # rest" using u1 r by (simp_all add: ready_def)
  from interrupt_byte [OF this] obtain v2 c2 where v2: "gdb_stub_process emu_callbacks w1 = Some (0, v2)" "rx (w_link v2) = rest"
    "\<forall>h < nat (sys_num_harts (w_sim w1)). halted (hart v2 h)" "tx (w_link v2) = tx (w_link w1) @ frame (fst (stop_reason 2 (0 :: 32 word) c2))"
    by blast
  obtain g2 s2 where t2: "main_turn d im line polls' True w1 = Some (g2, True, print_out s2 v2)"
    using v2(1) turn_end [of "im \<and> should_stop (w_ctx v2)" line v2] by (auto simp: main_turn_def)
  define w2 where "w2 = print_out s2 v2"
  have w2: "rx (w_link w2) = rest" "\<forall>h < nat (sys_num_harts (w_sim w1)). halted (hart w2 h)"
    "tx (w_link w2) = tx (w_link w1) @ frame (fst (stop_reason 2 (0 :: 32 word) c2))"
    using v2(2-4) by (simp_all add: w2_def)
  obtain c1 where "tx (w_link w1) = tx (w_link w) @ ack w @ frame (fst (stop_reason 2 (pc (hart w1 (focus w1))) c1))"
    using r(10) any u1(3) by auto
  with w2(3) have "tx (w_link w2) = tx (w_link w) @ ack w @ frame (fst (stop_reason 2 (pc (hart w1 (focus w1))) c1)) @
      frame (fst (stop_reason 2 (0 :: 32 word) c2))" by simp
  moreover have "\<forall>h < nat (sys_num_harts (w_sim w)). halted (hart w2 h)" using w2(2) r(6) u1(6) by simp
  ultimately show ?thesis using t1 t2 w2(1) unfolding w1_def w2_def by blast
qed

lemma interrupt_answered_twice_witness:
  "\<exists>g1 g2 w1 w2. main_turn False False None [Client_data] False
       (client_sends (frame ''c'' @ [CHR 0x03]) (demo_start 1)) = Some (g1, True, w1) \<and>
     main_turn False False None [] True w1 = Some (g2, True, w2) \<and> halted (hart w2 0)"
proof -
  let ?w = "client_sends (frame ''c'' @ [CHR 0x03]) (demo_start 1)"
  let ?u = "process_continue emu_callbacks (received ''c'' [CHR 0x03] ?w)"
  have v: "valid_hart_count 1" by (simp add: valid_hart_count_def)
  have "emu_ok (received ''c'' [CHR 0x03] ?w)" using received_ready [OF demo_ready] by (simp add: ready_def)
  note cw = continue_world [OF this]
  have "sys_harts (w_sim ?u) = sys_harts (w_sim (demo_start 1))"
    using cw(12) demo_sim [OF v] by (auto simp: fun_eq_iff)
  then have d: "demo_world ?u" using demo_world_start cw(8,10) demo_sim [OF v] by (simp add: demo_world_def)
  have bp: "bp_active (w_ctx (demo_start 1)) = {}" using main_start_ok(6) [OF demo_start] .
  have "single_run False (Suc 0) ?u"
    using cw demo_run(1,2) [OF d] demo_sim [OF v] bp by (simp add: single_run_def gdb_stub_should_run_thread_def)
  from single_round(1,3) [OF this] have q: "quiet_round False ?u (sys_cpu_step 0 ?u)" by (simp add: quiet_round_def)
  have "sys_any_running (sys_cpu_step 0 ?u)"
    using one_hart(3) [OF sys_cpu_step_ok [OF cw(1)]] cw(8) demo_run(1,2) [OF d, of 1] demo_sim [OF v] by simp
  from interrupt_answered_twice [OF demo_ready _ q this, of False None "[]" False "[]"] show ?thesis
    using demo_sim [OF v] by (auto simp del: frame_def)
qed

end
