(* ===== verification/Emu_Watch.thy ===== *)
theory Emu_Watch
  imports Emu_Turns
begin

text \<open>
  Watchpoints while the harts run: a store that touches a watched range, from the instruction
  in memory through the hook of src/emu/main.c and the check of the stub to the stop reply.
\<close>

text \<open>What a store does after its hook.\<close>

lemma write_mem_after_hook:
  fixes m :: "'e mach" and h :: nat and a :: "32 word" and n :: int
  defines "m1 \<equiv> call_check (check_watchpoint_write (harts m h)) h a n m"
  shows "env (rv32_cpu_write_mem h a v n m) = env m1" "pc (harts (rv32_cpu_write_mem h a v n m) k) = pc (harts m1 k)"
    "halted (harts (rv32_cpu_write_mem h a v n m) k) = halted (harts m1 k)"
    "running (harts (rv32_cpu_write_mem h a v n m) k) = running (harts m1 k)"
  by (simp_all add: rv32_cpu_write_mem_def Let_def set_ram_def upd_hart_def flip: m1_def)

text \<open>
  The fetch of an instruction. A watchpoint that covers it for reading marks the hart as halted
  and is remembered, and the instruction is executed all the same.
\<close>

lemma fetch_instruction:
  assumes "emu_ok w" "h < nat (sys_num_harts (w_sim w))" "in_ram a 4"
  shows "\<exists>m1 b x. rv32_cpu_read_mem h a 4 (to_mach w) = (le32 (memory (hart w 0)) (unat (a - RAM_BASE)), m1) \<and>
    harts m1 = (hart w)(h := (hart w h)\<lparr>halted := b\<rparr>) \<and> d_ctx (env m1) = (w_ctx w)\<lparr>last_watchpoint_addr := x\<rparr>"
proof -
  let ?m = "call_check (check_watchpoint_read (harts (to_mach w) h)) h a 4 (to_mach w)"
  obtain hit e where e: "gdb_watchpoint_read (hart_id (hart w (watchpoint_ctx (hart w h)))) a 4 (env (to_mach w)) = (hit, e)"
    by fastforce
  have "but_watch (w_ctx w) = but_watch (d_ctx e)"
    using hooks_but_watch(1) [of "hart_id (hart w (watchpoint_ctx (hart w h)))" a 4 "env (to_mach w)"] e by (simp add: to_mach_def)
  from but_watchD [OF this] have x: "d_ctx e = (w_ctx w)\<lparr>last_watchpoint_addr := last_watchpoint_addr (d_ctx e)\<rparr>" .
  have m: "harts ?m = (hart w)(h := (hart w h)\<lparr>halted := hit \<or> halted (hart w h)\<rparr>)" "env ?m = e"
    using emu_wiring(3) [OF assms(1,2)] e by (auto simp: call_check_def upd_hart_def to_mach_def Let_def)
  then have "rv32_cpu_read_mem h a 4 (to_mach w) = (le32 (memory (hart w 0)) (unat (a - RAM_BASE)), ?m)"
    using emu_ram [OF assms(1,2)] emu_wiring(1) [OF assms(1,2)] assms(3)
    by (auto simp: rv32_cpu_read_mem_def Let_def rv32_cpu_ram_def)
  with m x show ?thesis by (intro exI conjI) auto
qed

lemma store_hits:
  fixes w :: emu and h :: nat and rs1 :: xreg and imm :: "12 word"
  assumes "emu_ok w" "h < nat (sys_num_harts (w_sim w))" "connected (w_stub w)" "running (hart w h)"
    and "pc (hart w h) = p" "in_ram p 4" "le32 (memory (hart w 0)) (unat (p - RAM_BASE)) = encode (Store k rs1 rs2 imm)"
  defines "a \<equiv> rv32_cpu_read_reg (hart w h) (uint rs1) + scast imm"
  assumes "wp_hit WATCHPOINT_WRITE a (word_of_int (store_bytes_of k)) (w_ctx w)"
  defines "m' \<equiv> rv32_cpu_step h (to_mach w)"
  shows "\<exists>wa wl ty. (wa, wl, ty) \<in> wp_active (w_ctx w) \<and> (ty = WATCHPOINT_WRITE \<or> ty = WATCHPOINT_ACCESS) \<and>
    ranges_overlap a (word_of_int (store_bytes_of k)) wa wl \<and> halted (harts m' h) \<and> pc (harts m' h) = p + 4 \<and>
    d_ctx (env m') = (w_ctx w)\<lparr>last_watchpoint_addr := wa\<rparr>"
proof -
  let ?n = "word_of_int (store_bytes_of k) :: 32 word"
  obtain m1 b x where f: "rv32_cpu_read_mem h p 4 (to_mach w) = (encode (Store k rs1 rs2 imm), m1)"
      "harts m1 = (hart w)(h := (hart w h)\<lparr>halted := b\<rparr>)" "d_ctx (env m1) = (w_ctx w)\<lparr>last_watchpoint_addr := x\<rparr>"
    using fetch_instruction [OF assms(1,2,6)] assms(7) by auto
  have "wp_hit WATCHPOINT_WRITE a ?n (d_ctx (env m1))" using assms(9) by (simp add: f(3) wp_hit_def wp_active_def)
  from check_hit(2) [OF this] obtain wa wl ty where hit: "(wa, wl, ty) \<in> wp_active (w_ctx w)"
      "ty = WATCHPOINT_WRITE \<or> ty = WATCHPOINT_ACCESS" "ranges_overlap a ?n wa wl"
      "gdb_stub_check_watchpoint_write a ?n (d_ctx (env m1)) = (True, (w_ctx w)\<lparr>last_watchpoint_addr := wa\<rparr>)"
    by (auto simp: f(3) wp_active_def)
  define m2 where "m2 = upd_hart h (\<lambda>c. c\<lparr>pc := pc c + 4, instruction_count := instruction_count c + 1\<rparr>) m1"
  have m': "m' = rv32_cpu_write_mem h a (rv32_cpu_read_reg (harts m2 h) (uint rs2)) (store_bytes_of k) m2"
    using assms(4,5) f(1)
    by (simp add: m'_def rv32_cpu_step_def to_mach_def [THEN arg_cong [of _ _ harts]] execute_encode del: encode.simps flip: m2_def)
      (simp add: m2_def upd_hart_def rv32_cpu_read_reg_def a_def f(2))
  let ?m3 = "call_check (check_watchpoint_write (harts m2 h)) h a (store_bytes_of k) m2"
  have "halted (harts ?m3 h)" "pc (harts ?m3 h) = p + 4" "d_ctx (env ?m3) = (w_ctx w)\<lparr>last_watchpoint_addr := wa\<rparr>"
    using emu_wiring(4) [OF assms(1,2)] assms(3,5) hit(4)
    by (simp_all add: call_check_def m2_def upd_hart_def f(2,3) gdb_watchpoint_write_def)
  then show ?thesis
    using hit(1-3) by (auto simp: m' write_mem_after_hook)
qed

text \<open>
  What follows a store of hart \<open>h\<close>: the demonstration's store of hart 0 makes a worker run, whose
  accesses can hit watchpoints as well; the hart that stored is left alone.
\<close>

definition worker_runs :: "nat \<Rightarrow> 32 word \<Rightarrow> emu \<Rightarrow> bool" where
  "worker_runs h p w = (h = 0 \<and> p = 0x80000014 \<and> 1 < sys_num_harts (w_sim w))"

lemma wp_active_but_watch: "but_watch c = but_watch c' \<Longrightarrow> wp_active c' = wp_active c"
  by (subst but_watchD [of c c']) (simp_all add: wp_active_def)

lemma hooks_report_active:
  assumes "but_watch (d_ctx e) = but_watch c" "\<exists>wl ty. (last_watchpoint_addr (d_ctx e), wl, ty) \<in> wp_active c"
  shows "\<exists>wl ty. (last_watchpoint_addr (d_ctx (snd (gdb_watchpoint_read i a l e))), wl, ty) \<in> wp_active c"
    "\<exists>wl ty. (last_watchpoint_addr (d_ctx (snd (gdb_watchpoint_write i a l e))), wl, ty) \<in> wp_active c"
proof -
  have t: "wp_active (d_ctx e) = wp_active c" using wp_active_but_watch [OF assms(1)] by simp
  show "\<exists>wl ty. (last_watchpoint_addr (d_ctx (snd (gdb_watchpoint_read i a l e))), wl, ty) \<in> wp_active c"
    using check_hit(1) [of a l "d_ctx e"] check_no_hit(1) [of a l "d_ctx e"] assms(2) t
    by (cases "wp_hit WATCHPOINT_READ a l (d_ctx e)") (auto simp: gdb_watchpoint_read_def, blast+)
  show "\<exists>wl ty. (last_watchpoint_addr (d_ctx (snd (gdb_watchpoint_write i a l e))), wl, ty) \<in> wp_active c"
    using check_hit(2) [of a l "d_ctx e"] check_no_hit(2) [of a l "d_ctx e"] assms(2) t
    by (cases "wp_hit WATCHPOINT_WRITE a l (d_ctx e)") (auto simp: gdb_watchpoint_write_def, blast+)
qed

lemma post_step_hit:
  fixes u :: emu and h :: nat and p :: "32 word"
  assumes "emu_ok u" "h < nat (sys_num_harts (w_sim u))" "(last_watchpoint_addr (w_ctx u), wl, ty) \<in> wp_active (w_ctx u)"
  defines "v \<equiv> sys_post_step h p u"
  shows "pc (hart v h) = pc (hart u h)" "halted (hart v h) = halted (hart u h)"
    "but_watch (w_ctx v) = but_watch (w_ctx u)" "\<exists>wl ty. (last_watchpoint_addr (w_ctx v), wl, ty) \<in> wp_active (w_ctx u)"
    "\<not> worker_runs h p u \<Longrightarrow> v = u"
proof -
  let ?f = "smp_sync_on_counter_store (sys_num_harts (w_sim u)) 0 (regs (hart u h) 6)"
  let ?P = "\<lambda>e. but_watch (d_ctx e) = but_watch (w_ctx u) \<and> (\<exists>wl ty. (last_watchpoint_addr (d_ctx e), wl, ty) \<in> wp_active (w_ctx u))"
  have id: "hart_id (hart u h) = int h" by (rule emu_wiring(2) [OF assms(1,2)])
  have v: "v = (if worker_runs h p u then on_mach ?f u else u)"
    using id by (auto simp: v_def sys_post_step_def worker_runs_def)
  have n: "sys_num_harts (w_sim u) \<le> 8" using assms(1) unfolding good_def by (blast intro: sys_num_bound)
  have "?P (env (to_mach (on_mach ?f u)))"
  proof (rule on_mach_keeps [OF assms(1)])
    show "confined ?P m (?f m)" for m by (rule confined_mmio(3) [OF n])
    show "?P (env (to_mach u))" using assms(3) by (auto simp: to_mach_def)
    show "?P (snd (gdb_watchpoint_read i a l e)) \<and> ?P (snd (gdb_watchpoint_write i a l e))" if "?P e" for i a l e
      using that hooks_report_active [of e "w_ctx u"] hooks_but_watch by metis
  qed
  then show "but_watch (w_ctx v) = but_watch (w_ctx u)" "\<exists>wl ty. (last_watchpoint_addr (w_ctx v), wl, ty) \<in> wp_active (w_ctx u)"
    using assms(3) by (auto simp: v to_mach_def)
  have "(hart (on_mach ?f u) 0)\<lparr>memory := z\<rparr> = (hart u 0)\<lparr>memory := z\<rparr>" for z
    using counter_store_apart [where nh = "sys_num_harts (w_sim u)" and src = 0 and c = "regs (hart u h) 6" and m = "to_mach u" and z = z]
    by (simp add: on_mach_def of_mach_def to_mach_def)
  from arg_cong [OF this, of pc] arg_cong [OF this, of halted]
  show "pc (hart v h) = pc (hart u h)" "halted (hart v h) = halted (hart u h)"
    by (cases "h = 0"; simp add: v worker_runs_def)+
  show "\<not> worker_runs h p u \<Longrightarrow> v = u" by (simp add: v)
qed

lemma in_ram_next: "in_ram p 4 \<Longrightarrow> p + 4 \<noteq> 0"
  by (auto simp: in_ram_def word_le_nat_alt word_less_nat_alt unat_eq_0 [symmetric] unat_word_ariths)

text \<open>The world after the step of a watched store.\<close>

lemma watched_step:
  fixes w :: emu and h :: nat and d :: bool and rs1 :: xreg and imm :: "12 word"
  assumes "emu_ok w" "h < nat (sys_num_harts (w_sim w))" "connected (w_stub w)" "running (hart w h)"
    and "pc (hart w h) = p" "in_ram p 4" "le32 (memory (hart w 0)) (unat (p - RAM_BASE)) = encode (Store k rs1 rs2 imm)"
  defines "a \<equiv> rv32_cpu_read_reg (hart w h) (uint rs1) + scast imm"
  assumes "wp_hit WATCHPOINT_WRITE a (word_of_int (store_bytes_of k)) (w_ctx w)"
  defines "la \<equiv> last_watchpoint_addr (w_ctx (continue_step d h w))"
  shows "\<exists>wa wl ty. (wa, wl, ty) \<in> wp_active (w_ctx w) \<and> (ty = WATCHPOINT_WRITE \<or> ty = WATCHPOINT_ACCESS) \<and>
    ranges_overlap a (word_of_int (store_bytes_of k)) wa wl \<and>
    (la = wa \<or> h = 0 \<and> p = 0x80000014 \<and> 1 < sys_num_harts (w_sim w) \<and> (\<exists>wl ty. (la, wl, ty) \<in> wp_active (w_ctx w))) \<and>
    but_watch (w_ctx (continue_step d h w)) = but_watch (w_ctx w) \<and>
    pc (hart (continue_step d h w) h) = p + 4 \<and> halted (hart (continue_step d h w) h)"
proof -
  define v where "v = show_progress d h w"
  define m where "m = rv32_cpu_step h (to_mach v)"
  define u where "u = on_mach (rv32_cpu_step h) v"
  let ?w = "continue_step d h w"
  have v: "emu_ok v" "hart v = hart w" "w_ctx v = w_ctx w" "w_link v = w_link w" "sys_num_harts (w_sim v) = sys_num_harts (w_sim w)"
    using assms(1) by (simp_all add: v_def)
  obtain wa wl ty where hit: "(wa, wl, ty) \<in> wp_active (w_ctx w)" "ty = WATCHPOINT_WRITE \<or> ty = WATCHPOINT_ACCESS"
    "ranges_overlap a (word_of_int (store_bytes_of k)) wa wl"
    and m: "halted (harts m h)" "pc (harts m h) = p + 4" "d_ctx (env m) = (w_ctx w)\<lparr>last_watchpoint_addr := wa\<rparr>"
    using store_hits [of v h p k rs1 rs2 imm] assms(2-7) assms(9) [unfolded a_def] v unfolding a_def m_def
    by (auto simp del: encode.simps)
  have ok: "emu_ok u" unfolding u_def by (rule on_mach_ok [OF v(1) confined_step])
  have u: "hart u = harts m" "w_ctx u = (w_ctx w)\<lparr>last_watchpoint_addr := wa\<rparr>" "w_link u = w_link w"
      "sys_num_harts (w_sim u) = sys_num_harts (w_sim w)"
    using m(3) v(4,5) by (simp_all add: u_def on_mach_def of_mach_def m_def)
  have w: "?w = sys_post_step h p u"
    using assms(5) v(2) by (simp add: continue_step_def sys_cpu_step_def u_def v_def)
  have "(last_watchpoint_addr (w_ctx u), wl, ty) \<in> wp_active (w_ctx u)" "h < nat (sys_num_harts (w_sim u))"
    using hit(1) assms(2) by (simp_all add: u(2,4) wp_active_def)
  note post = post_step_hit [OF ok this(2,1), where p = p, folded w]
  have t: "wp_active (w_ctx u) = wp_active (w_ctx w)" by (simp add: u(2) wp_active_def)
  have "la = wa \<or> h = 0 \<and> p = 0x80000014 \<and> 1 < sys_num_harts (w_sim w) \<and> (\<exists>wl ty. (la, wl, ty) \<in> wp_active (w_ctx w))"
    using post(4,5) t by (cases "worker_runs h p u") (simp_all add: la_def u(2,4) worker_runs_def)
  moreover have "but_watch (w_ctx ?w) = but_watch (w_ctx w)" using post(3) by (simp add: u(2) but_watch_def)
  moreover have "pc (hart ?w h) = p + 4" "halted (hart ?w h)" using post(1,2) m(1,2) u(1) by simp_all
  ultimately show ?thesis using hit by blast
qed

text \<open>
  C14: A watched store stops the hart. Let it be the turn of a hart in a round of a continue,
  at an instruction without a breakpoint that is a store to a range watched for writing or
  for both. Then the hart executes this one instruction, the round ends there with the hart in
  focus, and the one packet sent is the stop reply for a trap of that hart's thread, which reports
  the address of a watchpoint that the store overlaps, even where the instruction itself is
  watched for reading. There are three exceptions: after the store of hart 0 at 0x80000014 that
  makes a worker run in a system of several harts the address can be that of an active watchpoint
  the worker hit; address 0 stands for none, so the reply gives the program counter; and if a
  breakpoint report was pending the reply is that one and the watchpoint stays to be reported.
  Otherwise the report is consumed.
\<close>

theorem store_watchpoint_stops:
  fixes w :: emu and h :: nat and rs1 :: xreg and imm :: "12 word"
  assumes "emu_ok w" "h < nat (sys_num_harts (w_sim w))" "connected (w_stub w)" "running (hart w h)" "\<not> halted (hart w h)"
    and "pc (hart w h) = p" "in_ram p 4" "le32 (memory (hart w 0)) (unat (p - RAM_BASE)) = encode (Store k rs1 rs2 imm)"
  defines "a \<equiv> rv32_cpu_read_reg (hart w h) (uint rs1) + scast imm"
  assumes "wp_hit WATCHPOINT_WRITE a (word_of_int (store_bytes_of k)) (w_ctx w)"
    and "should_step_hart h False w" "p \<notin> bp_active (w_ctx w)" "wsched (w_link w) = []"
  shows "\<exists>wa wl ty la w'. (wa, wl, ty) \<in> wp_active (w_ctx w) \<and> (ty = WATCHPOINT_WRITE \<or> ty = WATCHPOINT_ACCESS) \<and>
    ranges_overlap a (word_of_int (store_bytes_of k)) wa wl \<and>
    (la = wa \<or> h = 0 \<and> p = 0x80000014 \<and> 1 < sys_num_harts (w_sim w) \<and> (\<exists>wl ty. (la, wl, ty) \<in> wp_active (w_ctx w))) \<and>
    run_harts d (h # hs) w = (True, w') \<and> pc (hart w' h) = p + 4 \<and> focus w' = h \<and>
    tx (w_link w') = tx (w_link w) @ frame (''T05thread:'' @
      (if multiprocess_active (w_ctx w) then ''p1.'' else []) @ fmt_int_x (int h + 1) @
      (if breakpoint_hit (w_ctx w) then '';swbreak:;''
       else if la \<noteq> 0 then '';watch:'' @ fmt_addr la @ '';'' else '';20:'' @ fmt_addr (p + 4) @ '';'')) \<and>
    last_watchpoint_addr (w_ctx w') = (if breakpoint_hit (w_ctx w) then la else 0) \<and> \<not> breakpoint_hit (w_ctx w')"
proof -
  let ?w = "continue_step d h w"
  define la where "la = last_watchpoint_addr (w_ctx ?w)"
  obtain wa wl ty where hit: "(wa, wl, ty) \<in> wp_active (w_ctx w)" "ty = WATCHPOINT_WRITE \<or> ty = WATCHPOINT_ACCESS"
    "ranges_overlap a (word_of_int (store_bytes_of k)) wa wl"
    and la: "la = wa \<or> h = 0 \<and> p = 0x80000014 \<and> 1 < sys_num_harts (w_sim w) \<and> (\<exists>wl ty. (la, wl, ty) \<in> wp_active (w_ctx w))"
    and step: "but_watch (w_ctx ?w) = but_watch (w_ctx w)" "pc (hart ?w h) = p + 4" "halted (hart ?w h)"
    using watched_step [OF assms(1-4,6-8) assms(10) [unfolded a_def], of d] unfolding la_def a_def by blast
  note c = but_watch_fields [OF step(1)]
  have r: "run_harts d (h # hs) w = (True, handle_hart_stop h 5 ?w)"
    using assms(4-6,11,12) step(3) by (simp add: check_breakpoint_eq Let_def)
  have "h < nat (sys_num_harts (w_sim ?w))" "wsched (w_link ?w) = []" using assms(2,13) by simp_all
  note s = handle_hart_stop_sends [OF continue_step_ok [OF assms(1), of d h] this, of 5]
  have pc: "pc (hart ?w h) = p + 4" "p + 4 \<noteq> 0" using step(2) in_ram_next [OF assms(7)] by simp_all
  have "focus (handle_hart_stop h 5 ?w) = h" "pc (hart (handle_hart_stop h 5 ?w) h) = p + 4" using s pc by simp_all
  moreover have "last_watchpoint_addr (w_ctx (handle_hart_stop h 5 ?w)) = (if breakpoint_hit (w_ctx w) then la else 0)"
      "\<not> breakpoint_hit (w_ctx (handle_hart_stop h 5 ?w))"
    using s c by (simp_all add: stop_reason_def Let_def la_def)
  moreover have "tx (w_link (handle_hart_stop h 5 ?w)) = tx (w_link w) @ frame (''T05thread:'' @
      (if multiprocess_active (w_ctx w) then ''p1.'' else []) @ fmt_int_x (int h + 1) @
      (if breakpoint_hit (w_ctx w) then '';swbreak:;''
       else if la \<noteq> 0 then '';watch:'' @ fmt_addr la @ '';'' else '';20:'' @ fmt_addr (p + 4) @ '';''))"
    using s c pc by (simp add: emu_reason_text stop_reply_text_def stop_tid_def la_def fmt_int_x_pid fmt_0x_byte hex_char_def)
  ultimately show ?thesis using hit la r by blast
qed

text \<open>The demonstration before the store of its loop, with a watchpoint on the stored word.\<close>

definition watching :: emu where
  "watching = w_ctx_update (\<lambda>c. snd (gdb_stub_add_watchpoint 0x80001000 4 WATCHPOINT_WRITE c))
     ((sys_cpu_step 0 ^^ 5) (demo_start 1))"

lemma demo_at_store:
  "\<exists>rg n. (sys_cpu_step 0 ^^ 5) (demo_start 1) =
     of_mach (view (to_mach (demo_start 1)) 0 rg 0x80000014 (memory (hart (demo_start 1) 0)) n) (demo_start 1) \<and> rg 8 = 0x80001000"
proof -
  let ?w = "demo_start 1"
  note d = demo_hart [OF demo_world_start]
  have n: "sys_num_harts (w_sim ?w) = 1" using demo_world_start by (simp add: demo_world_def)
  obtain rg0 n0 where v: "to_mach ?w = view (to_mach ?w) 0 rg0 RAM_BASE (memory (hart ?w 0)) n0"
    using view_self [of "to_mach ?w" 0] d(3) by (simp add: to_mach_def) metis
  have "(rv32_cpu_step 0 ^^ 5) (to_mach ?w) = (rv32_cpu_step 0 ^^ 5) (view (to_mach ?w) 0 rg0 RAM_BASE (memory (hart ?w 0)) n0)"
    using v by simp
  then show ?thesis
    unfolding one_hart_steps [OF n] demo_prefix(1) [OF d(1,2)] by (intro exI conjI, simp, simp)
qed

lemma watching_facts:
  "emu_ok watching" "sys_num_harts (w_sim watching) = 1" "connected (w_stub watching)" "running (hart watching 0)"
  "halted (hart watching 0) = False" "pc (hart watching 0) = 0x80000014" "regs (hart watching 0) 8 = 0x80001000"
  "le32 (memory (hart watching 0)) 0x14 = encode (Store SW 8 6 0)" "wsched (w_link watching) = []"
  "wp_active (w_ctx watching) = {(0x80001000, 4, WATCHPOINT_WRITE)}" "bp_active (w_ctx watching) = {}"
  "continue_thread (w_ctx watching) = - 1" "breakpoint_hit (w_ctx watching) = False"
  "multiprocess_active (w_ctx watching) = False" "tx (w_link watching) = []"
proof -
  let ?u = "(sys_cpu_step 0 ^^ 5) (demo_start 1)"
  note m = main_start_ok [OF demo_start, of 1]
  note k = steps_keep [OF m(1), where d = False and h = 0 and k = 5]
  obtain rg n where u: "?u = of_mach (view (to_mach (demo_start 1)) 0 rg 0x80000014 (memory (hart (demo_start 1) 0)) n) (demo_start 1)"
    "rg 8 = 0x80001000"
    using demo_at_store by blast
  have ctx: "w_ctx ?u = w_ctx (demo_start 1)" by (simp add: u(1) of_mach_def) (simp add: to_mach_def)
  obtain g where c: "w_ctx (demo_start 1) = zero_context\<lparr>stub := g, current_thread := 1, continue_thread := - 1\<rparr>"
    using demo_ctx by blast
  have hart: "hart watching 0 = harts (view (to_mach (demo_start 1)) 0 rg 0x80000014 (memory (hart (demo_start 1) 0)) n) 0"
    by (simp add: watching_def u(1) of_mach_def)
  show "emu_ok watching" unfolding watching_def using k by (intro good_upd_ctx) simp_all
  show "sys_num_harts (w_sim watching) = 1"
    using k demo_world_start by (simp add: watching_def demo_world_def)
  show "running (hart watching 0)" "halted (hart watching 0) = False" "pc (hart watching 0) = 0x80000014"
    "regs (hart watching 0) 8 = 0x80001000"
    using demo_hart(1) [OF demo_world_start] u(2) by (simp_all add: hart free_hart_def)
  show "le32 (memory (hart watching 0)) 0x14 = encode (Store SW 8 6 0)"
    using demo_program_words(6) [OF demo_hart(2) [OF demo_world_start]] by (simp add: hart del: encode.simps)
  show "wsched (w_link watching) = []" "tx (w_link watching) = []" using k demo_facts [of 1] by (simp_all add: watching_def)
  have i: "wp_inv (w_ctx ?u)" "wp_slots (w_ctx ?u) = {}" "wp_active (w_ctx ?u) = {}"
    by (simp_all add: ctx c zero_context_def wp_abs_defs active_keys_def)
  then show "wp_active (w_ctx watching) = {(0x80001000, 4, WATCHPOINT_WRITE)}"
    using wp_add_effect [of "w_ctx ?u" "(0x80001000, 4, WATCHPOINT_WRITE)"] by (simp add: watching_def wp_add_def wp_norm_def)
  show "connected (w_stub watching)" using m(2) ctx by (simp add: watching_def watchpoint_frames)
  show "bp_active (w_ctx watching) = {}" "continue_thread (w_ctx watching) = - 1" "breakpoint_hit (w_ctx watching) = False"
    "multiprocess_active (w_ctx watching) = False"
    by (simp_all add: watching_def ctx c gdb_stub_add_watchpoint_def zero_context_def Let_def bp_active_def active_keys_def
        split: option.split)
qed

lemma store_watchpoint_stops_witness:
  "\<exists>w'. run_harts False [0] watching = (True, w') \<and> pc (hart w' 0) = 0x80000018 \<and>
     tx (w_link w') = frame (''T05thread:'' @ fmt_int_x 1 @ '';watch:'' @ fmt_addr (0x80001000 :: 32 word) @ '';'')"
proof -
  note f = watching_facts
  have o: "ranges_overlap 0x80001000 4 0x80001000 (4 :: 32 word)" by (simp add: ranges_overlap_def Let_def)
  have hit: "wp_hit WATCHPOINT_WRITE (rv32_cpu_read_reg (hart watching 0) (uint (8 :: xreg)) + scast (0 :: 12 word))
      (word_of_int (store_bytes_of SW)) (w_ctx watching)"
    using o by (simp add: wp_hit_def f rv32_cpu_read_reg_def)
  have st: "should_step_hart 0 False watching"
    using one_hart(4) [OF f(1,2)] f(12) by (simp add: gdb_stub_should_run_thread_def)
  have "\<exists>wa wl ty la w'. (wa, wl, ty) \<in> wp_active (w_ctx watching) \<and> (ty = WATCHPOINT_WRITE \<or> ty = WATCHPOINT_ACCESS) \<and>
    ranges_overlap (rv32_cpu_read_reg (hart watching 0) (uint (8 :: xreg)) + scast (0 :: 12 word)) (word_of_int (store_bytes_of SW)) wa wl \<and>
    (la = wa \<or> 0 = (0 :: nat) \<and> (0x80000014 :: 32 word) = 0x80000014 \<and> 1 < sys_num_harts (w_sim watching) \<and>
      (\<exists>wl ty. (la, wl, ty) \<in> wp_active (w_ctx watching))) \<and>
    run_harts False (0 # []) watching = (True, w') \<and> pc (hart w' 0) = 0x80000014 + 4 \<and> focus w' = 0 \<and>
    tx (w_link w') = tx (w_link watching) @ frame (''T05thread:'' @
      (if multiprocess_active (w_ctx watching) then ''p1.'' else []) @ fmt_int_x (int 0 + 1) @
      (if breakpoint_hit (w_ctx watching) then '';swbreak:;''
       else if la \<noteq> 0 then '';watch:'' @ fmt_addr la @ '';'' else '';20:'' @ fmt_addr (0x80000014 + 4 :: 32 word) @ '';'')) \<and>
    last_watchpoint_addr (w_ctx w') = (if breakpoint_hit (w_ctx watching) then la else 0) \<and> \<not> breakpoint_hit (w_ctx w')"
    by (rule store_watchpoint_stops [where k = SW and p = "0x80000014", OF f(1) _ f(3,4) _ f(6)])
      (use f hit st in \<open>simp_all add: in_ram_def wp_hit_def del: encode.simps\<close>)
  then show ?thesis by (auto simp: f simp del: run_harts.simps)
qed

end
