(* ===== verification/Emu_Registers.thy ===== *)
theory Emu_Registers
  imports Emu_Packets
begin

text \<open>
  Register packets against the harts of the emulator: what a client writes with \<open>P\<close> is
  what the register image of \<open>g\<close> shows, for the hart in focus and for no other.
\<close>

text \<open>The register file the debugger sees: registers 0 to 31 of the hart in focus, then its program counter.\<close>

definition reg_view :: "emu \<Rightarrow> nat \<Rightarrow> 32 word" where
  "reg_view w i = (if i < 32 then rv32_cpu_read_reg (hart w (focus w)) (int i) else pc (hart w (focus w)))"

definition view_image :: "(nat \<Rightarrow> 32 word) \<Rightarrow> string" where
  "view_image v = concat (map (\<lambda>i. encode_hex (v i) 4) [0..<33])"

lemma length_view_image: "length (view_image v) = 264"
  by (simp add: view_image_def length_concat comp_def sum_list_triv)

lemma registers_image_view: "registers_image emu_callbacks w = view_image (reg_view w)"
  unfolding registers_image_eq view_image_def
  by (rule arg_cong [where f = concat], rule map_cong)
    (auto simp: reg_view_def emu_callbacks_def gdb_read_reg_def gdb_get_pc_def)

text \<open>A write of register \<open>n\<close> by the debugger.\<close>

definition debug_write :: "nat \<Rightarrow> 32 word \<Rightarrow> emu \<Rightarrow> emu" where
  "debug_write n v w = (if n < 32 then gdb_write_reg (int n) v w else gdb_set_pc v w)"

lemma upd_cpu_view [simp]:
  "focus (upd_cpu h f w) = focus w" "w_stub (upd_cpu h f w) = w_stub w" "w_link (upd_cpu h f w) = w_link w"
  "hart (upd_cpu h f w) k = (if k = h then f (hart w h) else hart w k)"
  by (simp_all add: upd_cpu_def)

lemma debug_write_frames [simp]:
  "focus (debug_write n v w) = focus w" "w_stub (debug_write n v w) = w_stub w" "w_link (debug_write n v w) = w_link w"
  by (simp_all add: debug_write_def gdb_write_reg_def gdb_set_pc_def)

lemma debug_write_view:
  "i \<le> 32 \<Longrightarrow> n \<le> 32 \<Longrightarrow> reg_view (debug_write n v w) i = (if i = n \<and> n \<noteq> 0 then v else reg_view w i)"
  by (auto simp: reg_view_def debug_write_def gdb_write_reg_def gdb_set_pc_def rv32_cpu_read_reg_def rv32_cpu_write_reg_def)

lemma debug_write_hart:
  "n \<le> 32 \<Longrightarrow> hart (debug_write n v w) k = (if k = focus w then
     (hart w k)\<lparr>regs := if 0 < n \<and> n < 32 then (regs (hart w k))(n := v) else regs (hart w k),
       pc := if n = 32 then v else pc (hart w k)\<rparr> else hart w k)"
  by (auto simp: debug_write_def gdb_write_reg_def gdb_set_pc_def rv32_cpu_write_reg_def)

lemma reg_view_cong: "w_sim w' = w_sim w \<Longrightarrow> reg_view w' = reg_view w" "w_sim w' = w_sim w \<Longrightarrow> hart w' = hart w"
  by (simp_all add: reg_view_def fun_eq_iff)

lemma debug_write_cong: "w_sim w' = w_sim w \<Longrightarrow> w_sim (debug_write n v w') = w_sim (debug_write n v w)"
  by (simp add: debug_write_def gdb_write_reg_def gdb_set_pc_def upd_cpu_def)

subsection \<open>The packets\<close>

lemma read_registers_command:
  assumes w: "ready w" and rx: "rx (w_link w) = frame ''g'' @ rest"
  shows "\<exists>w1. gdb_stub_process emu_callbacks w = Some (0, w1) \<and> ready w1 \<and> rx (w_link w1) = rest \<and>
    tx (w_link w1) = tx (w_link w) @ ack w @ frame (view_image (reg_view w)) \<and> w_sim w1 = w_sim w"
proof -
  let ?w = "received ''g'' rest w"
  have "dispatch emu_callbacks (hd ''g'') ?w = Some (0, reply (view_image (reg_view w)) ?w)"
    by (simp add: dispatch_def handle_read_registers_def registers_image_view reg_view_cong(1) [of ?w w])
  from command_reply [OF w rx _ _ _ this] show ?thesis by (simp add: length_view_image reply_frames)
qed

lemma write_register_command:
  assumes w: "ready w" and rx: "rx (w_link w) = frame (CHR ''P'' # fmt_x n @ CHR ''='' # encode_hex v 4) @ rest" and n: "n \<le> 32"
  shows "\<exists>w1. gdb_stub_process emu_callbacks w = Some (0, w1) \<and> ready w1 \<and> rx (w_link w1) = rest \<and>
    tx (w_link w1) = tx (w_link w) @ ack w @ frame ''OK'' \<and> no_ack_mode (w_stub w1) = no_ack_mode (w_stub w) \<and>
    w_sim w1 = w_sim (debug_write n v w)"
proof -
  define d where "d = CHR ''P'' # fmt_x n @ CHR ''='' # encode_hex v 4"
  have l: "length (fmt_x n) \<le> 2" using n by (intro length_fmt_x) simp_all
  have "CHR ''#'' \<notin> set (encode_hex v 4)" 
    using hash_free(2) [of "map (byte_of v) [0..<4]"] by (simp add: encode_hex_def hex_image_def comp_def)
  then have d: "d \<noteq> []" "hd d = CHR ''P''" "CHR ''#'' \<notin> set d" "length d \<le> 4095"
    using l by (simp_all add: d_def)
  let ?w = "received d rest w"
  define u where "u = upd_buf (\<lambda>_. ''P'' @ fmt_x n @ NUL # encode_hex v 4 @ NUL # drop (length d + 1) (w_buf w)) ?w"
  have "w_buf ?w = ''P'' @ fmt_x n @ CHR ''='' # encode_hex v 4 @ NUL # drop (length d + 1) (w_buf w)"
    by (simp add: d_def)
  from handle_write_single_register_packet [OF emu_xlen, of "fmt_x n" ?w v _ emu_callbacks] this
  have "handle_write_single_register emu_callbacks ?w = reply_OK (debug_write n v u)"
    using n by (simp add: u_def debug_write_def emu_callbacks_def)
  then have r: "dispatch emu_callbacks (hd d) ?w = Some (0, reply ''OK'' (debug_write n v u))"
    by (simp add: d(2) dispatch_def)
  have "w_link (debug_write n v u) = w_link ?w" "conn (debug_write n v u) = conn ?w" "w_sim u = w_sim w"
    by (simp_all add: u_def)
  from command_reply [OF w rx [folded d_def] d(1,3,4) r this(1,2)] debug_write_cong [OF this(3), of n v]
  show ?thesis by (auto simp: reply_frames)
qed

text \<open>
  C13: Registers written by the debugger read back. When the client sends a \<open>P\<close> packet for
  register \<open>n\<close> (32 is the program counter) and then a \<open>g\<close> packet, the emulator answers OK
  and the image of all 33 registers of the hart in focus, in which register \<open>n\<close> has the
  value written, unless it is register 0, and every other one the value it had; that register is
  all that changes in any hart.
\<close>

theorem register_write_read:
  assumes "ready w" "n \<le> 32"
    and "rx (w_link w) = frame (CHR ''P'' # fmt_x n @ CHR ''='' # encode_hex v 4) @ frame ''g'' @ rest"
  shows "\<exists>w1 w2. gdb_stub_process emu_callbacks w = Some (0, w1) \<and> gdb_stub_process emu_callbacks w1 = Some (0, w2) \<and>
    rx (w_link w2) = rest \<and>
    tx (w_link w2) = tx (w_link w) @ ack w @ frame ''OK'' @ ack w @
      frame (view_image (\<lambda>i. if i = n \<and> n \<noteq> 0 then v else reg_view w i)) \<and>
    (\<forall>k. hart w2 k = (if k = focus w then
       (hart w k)\<lparr>regs := if 0 < n \<and> n < 32 then (regs (hart w k))(n := v) else regs (hart w k),
         pc := if n = 32 then v else pc (hart w k)\<rparr> else hart w k))"
proof -
  obtain w1 where w1: "gdb_stub_process emu_callbacks w = Some (0, w1)" "ready w1" "rx (w_link w1) = frame ''g'' @ rest"
      "tx (w_link w1) = tx (w_link w) @ ack w @ frame ''OK''" "no_ack_mode (w_stub w1) = no_ack_mode (w_stub w)"
      "w_sim w1 = w_sim (debug_write n v w)"
    using write_register_command [OF assms(1,3,2)] by blast
  have "reg_view w1 i = (if i = n \<and> n \<noteq> 0 then v else reg_view w i)" if "i < 33" for i
    using debug_write_view [of i n v w] that assms(2) reg_view_cong(1) [OF w1(6)] by simp
  then have "view_image (reg_view w1) = view_image (\<lambda>i. if i = n \<and> n \<noteq> 0 then v else reg_view w i)"
    unfolding view_image_def by (intro arg_cong [where f = concat] map_cong) auto
  with read_registers_command [OF w1(2,3)] w1(4,5) obtain w2 where w2: "gdb_stub_process emu_callbacks w1 = Some (0, w2)"
      "rx (w_link w2) = rest" "w_sim w2 = w_sim (debug_write n v w)"
      "tx (w_link w2) = tx (w_link w) @ ack w @ frame ''OK'' @ ack w @
        frame (view_image (\<lambda>i. if i = n \<and> n \<noteq> 0 then v else reg_view w i))"
    using w1(6) by (auto simp del: frame_def)
  show ?thesis
    unfolding reg_view_cong(2) [OF w2(3), symmetric] debug_write_hart [OF assms(2), symmetric]
    by (rule exI [of _ w1], rule exI [of _ w2])
      (intro conjI w1(1) w2(1,2,4) allI refl)
qed

lemma register_write_read_witness:
  "\<exists>w1 w2. gdb_stub_process emu_callbacks (client_sends (frame (CHR ''P'' # fmt_x 5 @ CHR ''='' # encode_hex (0xDEADBEEF :: 32 word) 4) @
       frame ''g'') (demo_start 1)) = Some (0, w1) \<and>
     gdb_stub_process emu_callbacks w1 = Some (0, w2) \<and> regs (hart w2 (focus (demo_start 1))) 5 = 0xDEADBEEF"
proof -
  let ?w = "client_sends (frame (CHR ''P'' # fmt_x 5 @ CHR ''='' # encode_hex (0xDEADBEEF :: 32 word) 4) @ frame ''g'') (demo_start 1)"
  have rx: "rx (w_link ?w) = frame (CHR ''P'' # fmt_x 5 @ CHR ''='' # encode_hex (0xDEADBEEF :: 32 word) 4) @ frame ''g'' @ []"
    by (simp del: frame_def)
  have "(5 :: nat) \<le> 32" by simp
  from register_write_read [OF demo_ready this rx] obtain w1 w2 where "gdb_stub_process emu_callbacks ?w = Some (0, w1)"
      "gdb_stub_process emu_callbacks w1 = Some (0, w2)"
      and h: "\<forall>k. hart w2 k = (if k = focus ?w then (hart ?w k)
        \<lparr>regs := if 0 < (5 :: nat) \<and> (5 :: nat) < 32 then (regs (hart ?w k))(5 := 0xDEADBEEF) else regs (hart ?w k),
          pc := if 5 = (32 :: nat) then 0xDEADBEEF else pc (hart ?w k)\<rparr> else hart ?w k)"
    by (elim exE conjE) (rule that)
  moreover have "regs (hart w2 (focus (demo_start 1))) 5 = 0xDEADBEEF" using h [rule_format, of "focus ?w"] by simp
  ultimately show ?thesis by blast
qed

end
