(* ===== verification/Emu_Reset.thy ===== *)
theory Emu_Reset
  imports Emu_Turns
begin

text \<open>
  What the reset callback of the emulator makes of the system: the registers of every hart, the
  block of shared words, and nothing else of the memory.
\<close>

subsection \<open>The shared words\<close>

definition sync_block :: "nat \<Rightarrow> byte list" where
  "sync_block n = replicate 48 0 @ [of_nat n, 0, 0, 0]"

lemma put32_zero: "put32 i 0 r j = (if i \<le> j \<and> j < i + 4 then 0 else r j)"
  by (auto simp: put32_def)

lemma fold_zero_words:
  "fold (\<lambda>h. put32 (b + 4 * h) 0) [0..<k] r j = (if b \<le> j \<and> j < b + 4 * k then 0 else r j)"
  by (induction k) (auto simp: put32_zero)

lemma sync_init_block:
  assumes "n < 256"
  shows "sync_init (int n) r j = (if 0x2000 \<le> j \<and> j < 0x2034 then sync_block n ! (j - 0x2000) else r j)"
proof -
  have v: "ucast (word_of_nat n :: 32 word) = (of_nat n :: byte)" "drop_bit (8 + k) (word_of_nat n :: 32 word) = 0" for k
  proof -
    have "take_bit 32 n = n" using assms by (intro take_bit_nat_eq_self) simp
    then show "ucast (word_of_nat n :: 32 word) = (of_nat n :: byte)" by (simp add: unsigned_of_nat)
    note \<open>take_bit 32 n = n\<close>
    moreover have "n < 2 ^ (8 + k)" using assms by (simp add: power_add less_le_trans [where y = 256])
    then have "drop_bit (8 + k) n = 0" by (simp add: drop_bit_nat_def del: power_add)
    ultimately show "drop_bit (8 + k) (word_of_nat n :: 32 word) = 0"
      by (intro word_unat_eq_iff [THEN iffD2]) (simp add: unsigned_drop_bit_eq unsigned_of_nat)
  qed
  have n: "put32 0x2030 (word_of_nat n) q j =
      (if j = 0x2030 then of_nat n else if 0x2031 \<le> j \<and> j < 0x2034 then 0 else q j)" for q
    using v(2) [of 0] v(2) [of 8] v(2) [of 16] by (auto simp: put32_def v(1))
  have "sync_block n ! i = (if i < 48 then 0 else if i = 48 then of_nat n else 0)" if "i < 52" for i
    using that by (auto simp: sync_block_def nth_append nth_Cons' )
  then show ?thesis
    unfolding sync_init_def fold_zero_words of_int_of_nat_eq n by (auto simp: put32_zero)
qed

subsection \<open>The harts\<close>

text \<open>The registers of hart \<open>h\<close> after a reset, with the program counter as number 32.\<close>

definition reset_reg :: "nat \<Rightarrow> nat \<Rightarrow> 32 word" where
  "reset_reg h i =
     (if i = 2 then 0x8000FFFC
      else if i = 4 then word_of_nat h
      else if i = 8 \<and> 0 < h then 0x80002000
      else if i = 32 then (if h = 0 then 0x80000000 else 0x80000034)
      else 0)"

lemma reset_reg_none: "i = 0 \<or> 32 < i \<Longrightarrow> reset_reg h i = 0"
  by (auto simp: reset_reg_def)

definition reset_hart :: "nat \<Rightarrow> dbg rv32_cpu \<Rightarrow> dbg rv32_cpu" where
  "reset_hart h c = (let c1 = rv32_cpu_reset c; c2 = c1\<lparr>regs := (regs c1)(4 := word_of_nat h)\<rparr>
     in if h > 0 then smp_sync_init_worker_hart c2 else c2)"

lemma reset_hart_regs:
  "i < 32 \<Longrightarrow> regs (reset_hart h c) i = reset_reg h i" "pc (reset_hart h c) = reset_reg h 32"
  "memory (reset_hart h c) = memory c" "shared_ram (reset_hart h c) = shared_ram c"
  by (auto simp: reset_hart_def reset_reg_def Let_def rv32_cpu_reset_def smp_sync_init_worker_hart_def)

lemma reset_world:
  assumes "wired w"
  defines "n \<equiv> sys_num_harts (w_sim w)"
  shows "w_ctx (gdb_reset w) = w_ctx w" "w_link (gdb_reset w) = w_link w"
    "sys_focus_hart (w_sim (gdb_reset w)) = 0" "sys_num_harts (w_sim (gdb_reset w)) = n"
    "sys_harts (w_sim (gdb_reset w)) = (\<lambda>h.
      let c = (if h < nat n then reset_hart h (hart w h) else hart w h)
      in if h = 0 then memory_update (sync_init n) c else c)"
proof -
  define w1 where "w1 = w_sim_update (\<lambda>s. s\<lparr>sys_sync := smp_sync_reset n\<rparr>) w"
  define w2 where "w2 = with_harts (\<lambda>h. if h < nat n then reset_hart h (hart w h) else hart w h) w1"
  have h1: "sys_harts (w_sim w1) = sys_harts (w_sim w)" "sys_num_harts (w_sim w1) = n" by (simp_all add: w1_def n_def)
  have f: "fold (\<lambda>h. upd_cpu h (reset_hart h)) (hart_list w1) w1 = w2"
    using fold_upd_cpu [where P = "\<lambda>_ _. True" and g = reset_hart and hs = "hart_list w1" and w = w1]
    by (simp add: w2_def h1 cong: if_cong)
  have r: "gdb_reset w = w_sim_update (\<lambda>s. s\<lparr>sys_focus_hart := 0, sys_stop_hart := - 1\<rparr>) (on_mach (smp_sync_ram_init n) w2)"
    unfolding gdb_reset_def Let_def n_def [symmetric] w1_def [symmetric] f [symmetric] by (simp add: reset_hart_def [abs_def] Let_def)
  have "shared_ram (hart w 0) = None"
  proof -
    have "config (hart w 0) = config (init_hart 0)" using assms(1) by (auto simp: sys_ok_def)
    then show ?thesis by (simp add: config_eq_iff init_hart_wiring)
  qed
  then have "shared_ram (harts (to_mach w2) 0) = None"
    by (simp add: w2_def to_mach_def reset_hart_regs)
  from ram_init_memory [OF this, of n] have m: "on_mach (smp_sync_ram_init n) w2 = of_mach (upd_hart 0 (memory_update (sync_init n)) (to_mach w2)) w2"
    by (simp add: on_mach_def)
  show "w_ctx (gdb_reset w) = w_ctx w" "w_link (gdb_reset w) = w_link w"
    "sys_focus_hart (w_sim (gdb_reset w)) = 0" "sys_num_harts (w_sim (gdb_reset w)) = n"
    unfolding r m by (simp_all add: of_mach_def upd_hart_def to_mach_def w2_def w1_def with_harts_def n_def)
  show "sys_harts (w_sim (gdb_reset w)) = (\<lambda>h.
      let c = (if h < nat n then reset_hart h (hart w h) else hart w h)
      in if h = 0 then memory_update (sync_init n) c else c)"
    unfolding r m by (auto simp: of_mach_def upd_hart_def to_mach_def w2_def w1_def with_harts_def fun_eq_iff Let_def)
qed

end
