(* ===== verification/Debug_Target.thy ===== *)
theory Debug_Target
  imports Emu_Registers Emu_Reset
begin

text \<open>
  What a debugger session promises: an abstract target with register files of harts, a memory,
  sets of breakpoints and watchpoints and a hart in focus, that serves requests; the target a
  world of the emulator stands for, and what accesses to memory leave of it. The step from one
  request to a session of them is made in a locale for any server of packets.
\<close>

subsection \<open>Servers of packets\<close>

fun serve_all :: "('q \<Rightarrow> 'v \<Rightarrow> string \<times> 'v) \<Rightarrow> 'q list \<Rightarrow> 'v \<Rightarrow> string list \<times> 'v" where
  "serve_all serve [] v = ([], v)"
| "serve_all serve (q # qs) v =
     (let (ans, v1) = serve q v; (anss, v2) = serve_all serve qs v1 in (ans # anss, v2))"

text \<open>So many calls that are all carried out with result 0.\<close>

fun process_times :: "('w \<Rightarrow> (int \<times> 'w) option) \<Rightarrow> nat \<Rightarrow> 'w \<Rightarrow> 'w option" where
  "process_times process 0 w = Some w"
| "process_times process (Suc n) w =
     (case process w of None \<Rightarrow> None | Some (r, w1) \<Rightarrow> if r = 0 then process_times process n w1 else None)"

locale packet_server =
  fixes process :: "'w \<Rightarrow> (int \<times> 'w) option"
    and live :: "'w \<Rightarrow> bool"
    and inp outp acks :: "'w \<Rightarrow> string"
    and view_of :: "'w \<Rightarrow> 'v"
    and packet :: "'q \<Rightarrow> string"
    and valid :: "'q \<Rightarrow> bool"
    and serve :: "'q \<Rightarrow> 'v \<Rightarrow> string \<times> 'v"
  assumes one: "live w \<Longrightarrow> valid q \<Longrightarrow> inp w = frame (packet q) @ rest \<Longrightarrow>
    \<exists>w'. process w = Some (0, w') \<and> live w' \<and> inp w' = rest \<and> acks w' = acks w \<and>
      outp w' = outp w @ acks w @ frame (fst (serve q (view_of w))) \<and> view_of w' = snd (serve q (view_of w))"
begin

lemma session:
  assumes "live w" "\<forall>q \<in> set qs. valid q" "inp w = concat (map (\<lambda>q. frame (packet q)) qs) @ rest"
  shows "\<exists>w'. process_times process (length qs) w = Some w' \<and> live w' \<and> inp w' = rest \<and>
    outp w' = outp w @ concat (map (\<lambda>ans. acks w @ frame ans) (fst (serve_all serve qs (view_of w)))) \<and>
    view_of w' = snd (serve_all serve qs (view_of w))"
  using assms
proof (induction qs arbitrary: w)
  case (Cons q qs)
  then obtain w1 where w1: "process w = Some (0, w1)" "live w1" "acks w1 = acks w"
      "inp w1 = concat (map (\<lambda>q. frame (packet q)) qs) @ rest"
      "outp w1 = outp w @ acks w @ frame (fst (serve q (view_of w)))" "view_of w1 = snd (serve q (view_of w))"
    using one [of w q "concat (map (\<lambda>q. frame (packet q)) qs) @ rest"] by auto
  from Cons.IH [OF w1(2) _ w1(4)] Cons.prems(2) obtain w' where
      "process_times process (length qs) w1 = Some w'" "live w'" "inp w' = rest"
      "outp w' = outp w1 @ concat (map (\<lambda>ans. acks w1 @ frame ans) (fst (serve_all serve qs (view_of w1))))"
      "view_of w' = snd (serve_all serve qs (view_of w1))"
    by auto
  with w1 show ?case by (intro exI [of _ w']) (simp add: Let_def case_prod_beta del: frame_def)
qed simp

end

subsection \<open>The abstract target\<close>

text \<open>
  Register files of harts (registers 0 to 31, then the program counter), a memory, breakpoints
  and watchpoints with the slots they have used, the hart in focus.
\<close>

record target =
  t_regs :: "nat \<Rightarrow> nat \<Rightarrow> 32 word"
  t_mem :: "32 word \<Rightarrow> byte"
  t_slots :: "32 word set"
  t_breaks :: "32 word set"
  t_wslots :: "32 wp_key set"
  t_watches :: "32 wp_key set"
  t_focus :: nat
  t_harts :: nat
  t_multi :: bool

datatype request =
    Get_regs
  | Set_regs "nat \<Rightarrow> 32 word"
  | Get_reg nat
  | Set_reg nat "32 word"
  | Get_mem "32 word" nat
  | Set_mem "32 word" "byte list"
  | Set_bytes "32 word" "byte list"
  | Search "32 word" nat "byte list"
  | Set_break "32 word"
  | Clear_break "32 word"
  | Set_watch "32 wp_key"
  | Clear_watch "32 wp_key"
  | Negotiate bool
  | Select nat
  | Alive nat
  | Threads
  | Reset

text \<open>The offsets in a range of \<open>n\<close> bytes at which a pattern lies.\<close>

definition hits :: "(32 word \<Rightarrow> byte) \<Rightarrow> 32 word \<Rightarrow> nat \<Rightarrow> byte list \<Rightarrow> nat list" where
  "hits m a n pat = filter (\<lambda>k. load_bytes m (a + word_of_nat k) (length pat) = pat) [0..<n + 1 - length pat]"

fun serve :: "request \<Rightarrow> target \<Rightarrow> string \<times> target" where
  "serve Get_regs t = (view_image (t_regs t (t_focus t)), t)"
| "serve (Set_regs v) t = (''OK'', t\<lparr>t_regs := (t_regs t)(t_focus t :=
     \<lambda>i. if 1 \<le> i \<and> i \<le> 32 then v i else t_regs t (t_focus t) i)\<rparr>)"
| "serve (Get_reg n) t = (if n \<le> 32 then encode_hex (t_regs t (t_focus t) n) 4 else ''E01'', t)"
| "serve (Set_reg n v) t =
     (if n \<le> 32 then
        (''OK'', if n = 0 then t else t\<lparr>t_regs := (t_regs t)(t_focus t := (t_regs t (t_focus t))(n := v))\<rparr>)
      else (''E01'', t))"
| "serve (Get_mem a n) t = (hex_image (load_bytes (t_mem t) a n), t)"
| "serve (Set_mem a bs) t = (''OK'', t\<lparr>t_mem := store_bytes a bs (t_mem t)\<rparr>)"
| "serve (Set_bytes a bs) t = (''OK'', t\<lparr>t_mem := store_bytes a bs (t_mem t)\<rparr>)"
| "serve (Search a n pat) t = (case hits (t_mem t) a n pat of [] \<Rightarrow> ''0'' | k # _ \<Rightarrow> ''1,'' @ fmt_addr (a + word_of_nat k), t)"
| "serve (Set_break a) t =
     (if card (t_slots t) < 64 then (''OK'', t\<lparr>t_slots := insert a (t_slots t), t_breaks := insert a (t_breaks t)\<rparr>)
      else (''E01'', t))"
| "serve (Clear_break a) t = (if a \<in> t_slots t then ''OK'' else ''E01'', t\<lparr>t_breaks := t_breaks t - {a}\<rparr>)"
| "serve (Set_watch k) t =
     (if card (t_wslots t) < 32 then
        (''OK'', t\<lparr>t_wslots := insert (wp_norm k) (t_wslots t), t_watches := insert (wp_norm k) (t_watches t)\<rparr>)
      else (''E01'', t))"
| "serve (Clear_watch k) t =
     (if wp_norm k \<in> t_wslots t then ''OK'' else ''E01'', t\<lparr>t_watches := t_watches t - {wp_norm k}\<rparr>)"
| "serve (Negotiate b) t =
     (''PacketSize=4096;swbreak+;multiprocess+;vContSupported+;qXfer:features:read+;QStartNoAckMode+'', t\<lparr>t_multi := b\<rparr>)"
| "serve (Select n) t = (if n \<le> t_harts t then (''OK'', t\<lparr>t_focus := n - 1\<rparr>) else (''E01'', t))"
| "serve (Alive n) t = (if 1 \<le> n \<and> n \<le> t_harts t then ''OK'' else ''E01'', t)"
| "serve Threads t = (thread_list (t_multi t) (t_harts t), t)"
| "serve Reset t = (''OK'', t\<lparr>t_regs := \<lambda>h. if h < t_harts t then reset_reg h else t_regs t h,
     t_mem := store_bytes 0x80002000 (sync_block (t_harts t)) (t_mem t),
     t_slots := {}, t_breaks := {}, t_wslots := {}, t_watches := {}, t_focus := 0\<rparr>)"

fun type_code :: "watchpoint_type \<Rightarrow> nat" where
  "type_code WATCHPOINT_WRITE = 2"
| "type_code WATCHPOINT_READ = 3"
| "type_code WATCHPOINT_ACCESS = 4"

definition point_args :: "nat \<Rightarrow> 32 word \<Rightarrow> 32 word \<Rightarrow> string" where
  "point_args ty a n = fmt_x ty @ CHR '','' # fmt_x (unat a) @ CHR '','' # fmt_x (unat n)"

fun packet_of :: "request \<Rightarrow> string" where
  "packet_of Get_regs = ''g''"
| "packet_of (Set_regs v) = CHR ''G'' # view_image v"
| "packet_of (Get_reg n) = CHR ''p'' # fmt_x n"
| "packet_of (Set_reg n v) = CHR ''P'' # fmt_x n @ CHR ''='' # encode_hex v 4"
| "packet_of (Get_mem a n) = CHR ''m'' # addr_size a n"
| "packet_of (Set_mem a bs) = CHR ''M'' # addr_size a (length bs) @ CHR '':'' # hex_image bs"
| "packet_of (Set_bytes a bs) = CHR ''X'' # addr_size a (length bs) @ CHR '':'' # rsp_escape bs"
| "packet_of (Search a n pat) = ''qSearch:memory:'' @ search_args a (word_of_nat n) pat"
| "packet_of (Set_break a) = CHR ''Z'' # point_args 0 a 4"
| "packet_of (Clear_break a) = CHR ''z'' # point_args 0 a 4"
| "packet_of (Set_watch (a, n, ty)) = CHR ''Z'' # point_args (type_code ty) a n"
| "packet_of (Clear_watch (a, n, ty)) = CHR ''z'' # point_args (type_code ty) a n"
| "packet_of (Negotiate b) = ''qSupported:'' @ (if b then ''multiprocess+'' else ''swbreak+'')"
| "packet_of (Select n) = ''Hg'' @ fmt_x n"
| "packet_of (Alive n) = CHR ''T'' # fmt_x n"
| "packet_of Threads = ''qfThreadInfo''"
| "packet_of Reset = ''R00''"

fun valid :: "request \<Rightarrow> bool" where
  "valid (Get_reg n) = (n < 2 ^ 31)"
| "valid (Set_reg n v) = (n < 2 ^ 31)"
| "valid (Get_mem a n) = (n \<le> 2000 \<and> 0x80000000 \<le> a \<and> unat a + n \<le> 0x80010000)"
| "valid (Set_mem a bs) = (length bs \<le> 2000 \<and> 0x80000000 \<le> a \<and> unat a + length bs \<le> 0x80010000)"
| "valid (Set_bytes a bs) = (bs \<noteq> [] \<and> 0 \<notin> set bs \<and> length bs \<le> 2000 \<and> 0x80000000 \<le> a \<and> unat a + length bs \<le> 0x80010000)"
| "valid (Search a n pat) = (0 < length pat \<and> length pat \<le> n \<and> length pat \<le> 2000 \<and>
     0x80000000 \<le> a \<and> unat a + n \<le> 0x80010000)"
| "valid (Alive n) = (n < 2 ^ 31)"
| "valid (Select n) = (1 \<le> n \<and> n < 2 ^ 31)"
| "valid _ = True"

text \<open>The target a world of the emulator stands for.\<close>

definition hart_reg :: "rv32_system \<Rightarrow> nat \<Rightarrow> nat \<Rightarrow> 32 word" where
  "hart_reg s h i = (if i < 32 then rv32_cpu_read_reg (sys_harts s h) (int i) else if i = 32 then pc (sys_harts s h) else 0)"

definition ram_view :: "emu \<Rightarrow> 32 word \<Rightarrow> byte" where
  "ram_view w a = (if ram_addr a then mem_view w a else 0)"

definition target_of :: "emu \<Rightarrow> target" where
  "target_of w = \<lparr>t_regs = hart_reg (w_sim w), t_mem = ram_view w,
     t_slots = bp_slots (w_ctx w), t_breaks = bp_active (w_ctx w),
     t_wslots = wp_slots (w_ctx w), t_watches = wp_active (w_ctx w),
     t_focus = focus w, t_harts = nat (sys_num_harts (w_sim w)), t_multi = multiprocess_active (w_ctx w)\<rparr>"

lemma target_of_fields [simp]:
  "t_regs (target_of w) = hart_reg (w_sim w)" "t_mem (target_of w) = ram_view w" "t_slots (target_of w) = bp_slots (w_ctx w)"
  "t_breaks (target_of w) = bp_active (w_ctx w)" "t_wslots (target_of w) = wp_slots (w_ctx w)"
  "t_watches (target_of w) = wp_active (w_ctx w)" "t_focus (target_of w) = focus w"
  "t_harts (target_of w) = nat (sys_num_harts (w_sim w))" "t_multi (target_of w) = multiprocess_active (w_ctx w)"
  by (simp_all add: target_of_def)

lemma target_eqI:
  assumes "t_regs t = t_regs u" "t_mem t = t_mem u" "t_slots t = t_slots u" "t_breaks t = t_breaks u"
    "t_wslots t = t_wslots u" "t_watches t = t_watches u" "t_focus t = t_focus u" "t_harts t = t_harts u" "t_multi t = t_multi u"
  shows "t = (u :: target)"
  using assms by (cases t; cases u) simp

lemma reg_view_hart: "i \<le> 32 \<Longrightarrow> reg_view w i = hart_reg (w_sim w) (focus w) i"
  by (simp add: reg_view_def hart_reg_def)

lemma ram_view_cong: "memory (hart w' 0) = memory (hart w 0) \<Longrightarrow> ram_view w' = ram_view w"
  using mem_view_cong [of w' w] by (simp add: ram_view_def fun_eq_iff)

lemma table_frames [simp]:
  "bp_slots (stub_update f c) = bp_slots c" "bp_active (stub_update f c) = bp_active c"
  "wp_slots (stub_update f c) = wp_slots c" "wp_active (stub_update f c) = wp_active c"
  by (simp_all add: bp_slots_def bp_active_def wp_slots_def wp_active_def)

lemma target_of_frames [simp]:
  "target_of (reply d w) = target_of w" "target_of (received d rest w) = target_of w"
  "target_of (upd_buf f w) = target_of w" "target_of (w_link_update g w) = target_of w"
  using ram_view_cong [of "reply d w" w] ram_view_cong [of "received d rest w" w] ram_view_cong [of "upd_buf f w" w]
    ram_view_cong [of "w_link_update g w" w]
  by (simp_all add: target_of_def reply_frames received_def)

subsection \<open>What accesses to the memory leave alone\<close>

definition rest_of :: "emu \<Rightarrow> target" where
  "rest_of w = (target_of w)\<lparr>t_mem := \<lambda>_. 0\<rparr>"

lemma target_of_rest:
  assumes "rest_of w' = rest_of w" "t = ram_view w'"
  shows "target_of w' = (target_of w)\<lparr>t_mem := t\<rparr>"
  using assms by (simp add: rest_of_def target_of_def)

lemma but_watch_tables:
  assumes "but_watch c = but_watch c'"
  shows "bp_slots c = bp_slots c'" "wp_slots c = wp_slots c'" "wp_active c = wp_active c'"
  using assms by (cases c; cases c'; simp add: but_watch_def bp_slots_def wp_slots_def wp_active_def)+

lemma call_check_but_watch:
  assumes "f = Some gdb_watchpoint_read \<or> f = Some gdb_watchpoint_write"
  shows "but_watch (d_ctx (env (call_check f h a n m))) = but_watch (d_ctx (env m))"
  using assms hooks_but_watch
  by (auto simp: call_check_def upd_hart_def Let_def split: option.split prod.split) (metis snd_conv)+

lemma rest_of_machI:
  assumes "\<And>k. regs (harts m k) = regs (hart w k)" "\<And>k. pc (harts m k) = pc (hart w k)"
    and "but_watch (d_ctx (env m)) = but_watch (w_ctx w)"
  shows "rest_of (of_mach m w) = rest_of w"
  using but_watch_fields(2,9) [OF assms(3)] but_watch_tables [OF assms(3)] assms(1,2)
  by (simp add: rest_of_def target_of_def of_mach_def hart_reg_def rv32_cpu_read_reg_def fun_eq_iff)

lemma rest_of_set_ram: "rest_of (of_mach (set_ram h q m) w) = rest_of (of_mach m w)"
  by (simp add: rest_of_def target_of_def of_mach_def hart_reg_def set_ram_def upd_hart_def rv32_cpu_read_reg_def fun_eq_iff)

lemma call_check_regs [simp]:
  "regs (harts (call_check f h a n m) k) = regs (harts m k)" "pc (harts (call_check f h a n m) k) = pc (harts m k)"
  by (simp_all add: call_check_def upd_hart_def Let_def split: option.split prod.split)

lemma gdb_access_rest:
  assumes "wired w"
  shows "rest_of (snd (gdb_read_mem a n w)) = rest_of w"
    "ram_addr b \<Longrightarrow> rest_of (gdb_write_mem b v 1 w) = rest_of w"
proof -
  note hr = wired_hooks(1) [OF assms wired_focus(2) [OF assms]] and hw = wired_hooks(2) [OF assms wired_focus(1) [OF assms]]
  have r: "rest_of (of_mach (snd (rv32_cpu_read_mem 0 a n (to_mach w))) w) = rest_of w"
    by (rule rest_of_machI) (simp_all add: rv32_cpu_read_mem_def Let_def hr call_check_but_watch, simp_all add: to_mach_def)
  then show "rest_of (snd (gdb_read_mem a n w)) = rest_of w"
    by (simp add: gdb_read_mem_def sys_read_mem_def case_prod_beta)
  have c: "rest_of (of_mach (call_check (Some gdb_watchpoint_write) (focus w) b 1 (to_mach w)) w) = rest_of w"
    by (rule rest_of_machI) (simp_all add: call_check_but_watch, simp_all add: to_mach_def)
  have t: "rest_of (of_mach (to_mach w) w) = rest_of w" by (rule rest_of_machI) (simp_all add: to_mach_def)
  show "rest_of (gdb_write_mem b v 1 w) = rest_of w" if "ram_addr b"
    using that c t hw ram_bounds(1) [of b]
    by (auto simp: gdb_write_mem_def sys_write_mem_def smp_sync_handle_mmio_def smp_sync_write_ram_def
        rv32_cpu_write_mem_def Let_def rest_of_set_ram)
qed

lemma rest_of_frames [simp]:
  "rest_of (upd_buf f w) = rest_of w" "rest_of (w_link_update g w) = rest_of w" "rest_of (received d rest w) = rest_of w"
  by (simp_all add: rest_of_def)

interpretation emu_rest: target_memory emu_callbacks "\<lambda>w. wired w \<and> rest_of w = R" ram_addr mem_view for R
proof
  fix w :: emu and a
  assume "wired w \<and> rest_of w = R"
  then have w: "wired w" "rest_of w = R" by simp_all
  show "ucast (fst (cb_read_mem emu_callbacks a 1 w) AND 0xFF) = mem_view w a" by (rule emu_mem.read_value [OF w(1)])
  show "mem_view (snd (cb_read_mem emu_callbacks a 1 w)) = mem_view w" by (rule emu_mem.read_mem [OF w(1)])
  show "wired (snd (cb_read_mem emu_callbacks a 1 w)) \<and> rest_of (snd (cb_read_mem emu_callbacks a 1 w)) = R"
    using emu_mem.read_ok [OF w(1), of a] gdb_access_rest(1) [OF w(1)] w(2) by (simp add: emu_callbacks_def)
  show "w_stub (snd (cb_read_mem emu_callbacks a 1 w)) = w_stub w" by (rule emu_mem.read_stub [OF w(1)])
  show "w_link (snd (cb_read_mem emu_callbacks a 1 w)) = w_link w" by (rule emu_mem.read_link [OF w(1)])
  assume a: "ram_addr a"
  show "mem_view (cb_write_mem emu_callbacks a (ucast b) 1 w) c = (if c = a then b else mem_view w c)"
    if "ram_addr c" for b c using emu_mem.write_mem [OF w(1) a that] .
  show "wired (cb_write_mem emu_callbacks a v 1 w) \<and> rest_of (cb_write_mem emu_callbacks a v 1 w) = R" for v
    using emu_mem.write_ok [OF w(1) a, of v] gdb_access_rest(2) [OF w(1) a] w(2) by (simp add: emu_callbacks_def)
  show "w_stub (cb_write_mem emu_callbacks a v 1 w) = w_stub w" for v by (rule emu_mem.write_stub [OF w(1) a])
  show "w_link (cb_write_mem emu_callbacks a v 1 w) = w_link w" for v by (rule emu_mem.write_link [OF w(1) a])
qed (simp_all add: emu_mem.buf_mem emu_mem.link_mem)

end
