(* ===== verification/Debug_Session.thy ===== *)
theory Debug_Session
  imports Debug_Target
begin

text \<open>
  The refinement of the abstract target by packets sent to the emulator: request by request, then
  for a session of them.
\<close>

subsection \<open>One request\<close>

lemma hash_free_encode [simp]: "CHR ''#'' \<notin> set (encode_hex v n)"
  using hash_free(2) [of "map (byte_of v) [0..<n]"] by (simp add: encode_hex_def hex_image_def comp_def)

lemma hash_free_image [simp]: "CHR ''#'' \<notin> set (view_image v)" "CHR ''#'' \<notin> set (rsp_escape bs)"
proof -
  show "CHR ''#'' \<notin> set (view_image v)" by (auto simp: view_image_def)
  have "ch b \<in> set ''#$}*'' \<Longrightarrow> CHR ''#'' \<noteq> ch (b XOR 0x20)" for b
    by (auto simp: ch_eq_iff u8_def eq_commute [of "CHR ''#''"])
  then have "CHR ''#'' \<notin> set (if ch b \<in> set ''#$}*'' then [CHR ''}'', ch (b XOR 0x20)] else [ch b])" for b
    by (cases "ch b \<in> set ''#$}*''") (simp_all only: if_True if_False, simp, auto)
  then show "CHR ''#'' \<notin> set (rsp_escape bs)" by (simp only: rsp_escape_def set_concat set_map) blast
qed

lemma length_rsp_escape: "length (rsp_escape bs) \<le> 2 * length bs"
  by (induction bs) (simp_all add: rsp_escape_def)

lemma packet_of_facts:
  assumes "valid q"
  shows "packet_of q \<noteq> []" "CHR ''#'' \<notin> set (packet_of q)" "length (packet_of q) \<le> 4095"
proof -
  have n: "length (fmt_x n) \<le> 8" if "n < 2 ^ 31" for n using that by (intro length_fmt_x) auto
  have a: "length (fmt_x (unat a)) \<le> 8" for a :: "32 word" by (rule fmt_addr_length)
  have k: "length (fmt_x n) \<le> 3" if "n \<le> 2000" for n using that by (intro fmt_size_length) simp
  have p: "length (point_args ty b m) \<le> 26" "CHR ''#'' \<notin> set (point_args ty b m)" if "ty \<le> 4" for ty b m
    using n [of ty] that a [of b] a [of m] by (simp_all add: point_args_def)
  have c: "type_code ty \<le> 4" for ty by (cases ty) simp_all
  show "packet_of q \<noteq> []" by (cases q rule: packet_of.cases) simp_all
  show "CHR ''#'' \<notin> set (packet_of q)" using p c by (cases q rule: packet_of.cases) simp_all
  have s: "length (fmt_x (unat b)) + (length (fmt_x m) + x) \<le> 4092" if "m \<le> 2000" "x \<le> 2 * m" for b :: "32 word" and m x
    using a [of b] k [OF that(1)] that by linarith
  have n': "length (fmt_x n) \<le> 4000" if "n < 2 ^ 31" for n using n [OF that] by simp
  have p': "length (point_args ty b m) \<le> 4094" if "ty \<le> 4" for ty b m using p(1) [OF that, of b m] by simp
  show "length (packet_of q) \<le> 4095"
  proof (cases q rule: packet_of.cases)
    case (4 m v) with assms n [of m] show ?thesis by simp
  next
    case (5 b m) with assms s [of m 0 b] show ?thesis by simp
  next
    case (8 b m pat) with assms search_frame_facts(4) [OF refl, of pat b "word_of_nat m"] show ?thesis by simp
  qed (use assms s n' p' c in \<open>simp_all add: length_view_image length_rsp_escape le_Suc_eq order_trans [OF n']\<close>)
qed

text \<open>From the handler of a request to the call that serves it.\<close>

abbreviation handled :: "emu \<Rightarrow> request \<Rightarrow> string \<Rightarrow> emu \<Rightarrow> bool" where
  "handled w q rest w' \<equiv>
     dispatch emu_callbacks (hd (packet_of q)) (received (packet_of q) rest w) = Some (0, reply (fst (serve q (target_of w))) w') \<and>
     w_link w' = w_link (received (packet_of q) rest w) \<and> conn w' = conn (received (packet_of q) rest w) \<and>
     target_of w' = snd (serve q (target_of w))"

lemma thread_list_length:
  assumes "valid_hart_count (int n)"
  shows "length (thread_list mp n) < 4092"
proof -
  have n: "n \<le> 8" using assms by (auto simp: valid_hart_count_def)
  have i: "length (thread_item mp h) \<le> 31" for h using thread_item_facts(3) [of mp h] by linarith
  have "length (concat (map (\<lambda>h. '','' @ thread_item mp (int h)) hs)) \<le> 32 * length hs" for hs
  proof (induction hs)
    case (Cons h hs)
    with i [of "int h"] show ?case by simp
  qed simp
  from this [of "[2..<Suc n]"] i [of 1] n show ?thesis by (simp add: thread_list_def del: upt_Suc)
qed

lemma serve_length:
  assumes "valid q" "ready w"
  shows "length (fst (serve q (target_of w))) < 4092"
proof (cases q)
  case Threads
  have "valid_hart_count (int (nat (sys_num_harts (w_sim w))))"
    using assms(2) by (auto simp: ready_def good_def sys_ok_def valid_hart_count_def)
  with Threads show ?thesis by (simp add: thread_list_length)
qed (use assms(1) in \<open>auto simp: length_view_image fmt_addr_word_length split: list.split\<close>)

lemma handled_served:
  assumes "ready w" "valid q" "rx (w_link w) = frame (packet_of q) @ rest" "handled w q rest w'"
  shows "\<exists>w1. gdb_stub_process emu_callbacks w = Some (0, w1) \<and> ready w1 \<and> rx (w_link w1) = rest \<and> ack w1 = ack w \<and>
    tx (w_link w1) = tx (w_link w) @ ack w @ frame (fst (serve q (target_of w))) \<and> target_of w1 = snd (serve q (target_of w))"
proof -
  note h = assms(4)
  from command_reply [OF assms(1,3) packet_of_facts [OF assms(2)] conjunct1 [OF h] _ _ serve_length [OF assms(2,1)]] h
  show ?thesis by (intro exI [of _ "reply (fst (serve q (target_of w))) w'"]) (simp del: frame_def)
qed

lemma view_image_cong: "(\<And>i. i < 33 \<Longrightarrow> v i = v' i) \<Longrightarrow> view_image v = view_image v'"
  unfolding view_image_def by (intro arg_cong [where f = concat] map_cong) auto

lemma reg_view_received [simp]: "reg_view (received d rest w) = reg_view w"
  by (rule reg_view_cong(1)) simp

lemma debug_write_ctx:
  "w_ctx (debug_write n v w) = w_ctx w" "sys_num_harts (w_sim (debug_write n v w)) = sys_num_harts (w_sim w)"
  by (simp_all add: debug_write_def gdb_write_reg_def gdb_set_pc_def upd_cpu_def)

lemma debug_write_regs:
  assumes "n \<le> 32"
  shows "hart_reg (w_sim (debug_write n v w)) h i =
    (if h = focus w \<and> i = n \<and> n \<noteq> 0 then v else hart_reg (w_sim w) h i)"
  using debug_write_hart [OF assms, of v w h] assms
  by (cases "h = focus w"; cases "i = n") (auto simp: hart_reg_def rv32_cpu_read_reg_def)

lemma debug_write_target:
  assumes "n \<le> 32"
  shows "target_of (debug_write n v w) = snd (serve (Set_reg n v) (target_of w))"
proof -
  have "memory (hart (debug_write n v w) 0) = memory (hart w 0)" using debug_write_hart [OF assms, of v w 0] by simp
  note m = ram_view_cong [OF this]
  have r: "hart_reg (w_sim (debug_write n v w)) =
      (if n = 0 then hart_reg (w_sim w)
       else (hart_reg (w_sim w))(focus w := (hart_reg (w_sim w) (focus w))(n := v)))"
    using debug_write_regs [OF assms, of v w] by (intro ext) simp
  show ?thesis
    using m r by (cases "n = 0"; intro target_eqI) (simp_all add: debug_write_ctx assms)
qed

lemma handled_registers:
  assumes "ready w"
  shows "\<exists>w'. handled w Get_regs rest w'" "n < 2 ^ 31 \<Longrightarrow> \<exists>w'. handled w (Get_reg n) rest w'"
    "n < 2 ^ 31 \<Longrightarrow> \<exists>w'. handled w (Set_reg n v) rest w'"
proof -
  let ?w = "\<lambda>q. received (packet_of q) rest w"
  have "view_image (t_regs (target_of w) (t_focus (target_of w))) = view_image (reg_view w)"
    by (rule view_image_cong) (simp add: reg_view_hart)
  then show "\<exists>w'. handled w Get_regs rest w'"
    by (intro exI [of _ "?w Get_regs"]) (simp add: dispatch_def handle_read_registers_def registers_image_view)
  have x: "hexstr (fmt_x n)" by simp
  { assume n: "n < 2 ^ 31"
    have b: "w_buf (?w (Get_reg n)) = ''p'' @ fmt_x n @ NUL # drop (length (packet_of (Get_reg n)) + 1) (w_buf w)" by simp
    have "(if n < 32 then cb_read_reg emu_callbacks (?w (Get_reg n)) (int n) else cb_get_pc emu_callbacks (?w (Get_reg n))) =
        hart_reg (w_sim w) (focus w) n" if "n \<le> 32"
      using that by (simp add: hart_reg_def emu_callbacks_def gdb_read_reg_def gdb_get_pc_def)
    with handle_read_single_register_packet [OF emu_xlen x _ b, of emu_callbacks] n
    have "handle_read_single_register emu_callbacks (?w (Get_reg n)) =
        Some (reply (fst (serve (Get_reg n) (target_of w))) (?w (Get_reg n)))" by auto
    then show "\<exists>w'. handled w (Get_reg n) rest w'"
      by (intro exI [of _ "?w (Get_reg n)"]) (simp add: dispatch_def)
  next
    assume n: "n < 2 ^ 31"
    let ?q = "Set_reg n v"
    define u where "u = upd_buf (\<lambda>_. ''P'' @ fmt_x n @ NUL # encode_hex v 4 @ NUL # drop (length (packet_of ?q) + 1) (w_buf w)) (?w ?q)"
    have b: "w_buf (?w ?q) = ''P'' @ fmt_x n @ CHR ''='' # encode_hex v (LENGTH(32) div 8) @ NUL # drop (length (packet_of ?q) + 1) (w_buf w)"
      by simp
    have h: "handle_write_single_register emu_callbacks (?w ?q) =
        (if n \<le> 32 then reply_OK (debug_write n v u) else reply_E01 u)"
      using handle_write_single_register_packet [OF emu_xlen x _ b, of emu_callbacks] n
      by (simp add: u_def debug_write_def emu_callbacks_def)
    have u: "w_link u = w_link (?w ?q)" "conn u = conn (?w ?q)" "target_of u = target_of w" by (simp_all add: u_def)
    show "\<exists>w'. handled w ?q rest w'"
    proof (cases "n \<le> 32")
      case True
      with h debug_write_target [OF True, of v u] u show ?thesis
        by (intro exI [of _ "debug_write n v u"]) (simp add: dispatch_def)
    next
      case False
      with h u show ?thesis by (intro exI [of _ u]) (simp add: dispatch_def)
    qed }
qed

text \<open>All registers at once.\<close>

lemma serve_registers:
  "fold (\<lambda>j t. snd (serve (Set_reg j (v j)) t)) [0..<n] t =
     t\<lparr>t_regs := (t_regs t)(t_focus t := \<lambda>i. if 1 \<le> i \<and> i < n then v i else t_regs t (t_focus t) i)\<rparr>"
  if "n \<le> 33"
  using that
proof (induction n)
  case (Suc n)
  then show ?case by (auto simp: fun_eq_iff intro!: target_eqI)
qed (simp add: fun_upd_idem)

lemma debug_writes_target:
  assumes "\<forall>j \<in> set js. j \<le> 32"
  shows "target_of (fold (\<lambda>j. debug_write j (v j)) js w) = fold (\<lambda>j t. snd (serve (Set_reg j (v j)) t)) js (target_of w)"
    "w_link (fold (\<lambda>j. debug_write j (v j)) js w) = w_link w" "w_ctx (fold (\<lambda>j. debug_write j (v j)) js w) = w_ctx w"
  using assms by (induction js arbitrary: w) (simp_all add: debug_write_target debug_write_ctx)

lemma handled_all_registers:
  assumes "ready w"
  shows "\<exists>w'. handled w (Set_regs v) rest w'"
proof -
  let ?q = "Set_regs v" and ?js = "[0..<33] :: nat list"
  let ?w = "received (packet_of ?q) rest w" and ?u = "\<lambda>v. fold (\<lambda>j. debug_write j (v j)) [0..<33]"
  have b: "w_buf ?w = CHR ''G'' # all_registers v @ NUL # drop (length (packet_of ?q) + 1) (w_buf w)"
    by (simp add: all_registers_def view_image_def)
  have f: "fold (\<lambda>j. cb_write_reg emu_callbacks (int j) (v j)) [0..<32] w1 = fold (\<lambda>j. debug_write j (v j)) [0..<32] w1" for w1
    by (rule fold_cong) (simp_all add: debug_write_def emu_callbacks_def fun_eq_iff)
  have "[0..<33] = [0..<32] @ [32 :: nat]" by (simp add: upt_rec)
  then have h: "handle_write_registers emu_callbacks ?w = Some (reply ''OK'' (?u v ?w))"
    using handle_write_registers_image [OF emu_xlen _ b, of emu_callbacks] f [of ?w]
    by (simp add: emu_callbacks_def gdb_write_reg_def debug_write_def)
  have i: "(i < 33) = (i \<le> 32)" for i :: nat by auto
  have "\<forall>j \<in> set ?js. j \<le> 32" by auto
  note u = debug_writes_target [OF this, of v ?w]
  have "target_of (?u v ?w) = snd (serve ?q (target_of w))"
    unfolding u(1) target_of_frames using serve_registers [of 33 v "target_of w"] i by simp
  with h u show ?thesis by (intro exI [of _ "?u v ?w"]) (simp add: dispatch_def)
qed

text \<open>Memory: what a write of bytes makes of the target.\<close>

lemma stored_view:
  assumes "\<forall>c. ram_addr c \<longrightarrow> mem_view w' c = store_bytes a bs (mem_view w) c"
    and "\<forall>i < length bs. ram_addr (a + word_of_nat i)"
  shows "ram_view w' = store_bytes a bs (ram_view w)"
proof
  fix c
  show "ram_view w' c = store_bytes a bs (ram_view w) c"
  proof (cases "ram_addr c")
    case True
    then have "store_bytes a bs (ram_view w) c = store_bytes a bs (mem_view w) c"
      by (intro store_bytes_cong) (simp add: ram_view_def)
    with True assms(1) show ?thesis by (simp add: ram_view_def)
  next
    case False
    then have "\<forall>i < length bs. c \<noteq> a + word_of_nat i" using assms(2) by auto
    with False show ?thesis by (simp add: store_bytes_other ram_view_def)
  qed
qed

lemma stored_target:
  assumes "rest_of w' = rest_of w" "\<forall>c. ram_addr c \<longrightarrow> mem_view w' c = store_bytes a bs (mem_view w) c"
    and "\<forall>i < length bs. ram_addr (a + word_of_nat i)"
  shows "target_of w' = (target_of w)\<lparr>t_mem := store_bytes a bs (ram_view w)\<rparr>"
  using target_of_rest [OF assms(1) stored_view [OF assms(2,3), symmetric]] .

lemma handled_read:
  assumes w: "ready w" and v: "valid (Get_mem a n)"
  shows "\<exists>w'. handled w (Get_mem a n) rest w'"
proof -
  let ?w = "received (packet_of (Get_mem a n)) rest w"
  have ok: "wired ?w \<and> rest_of ?w = rest_of w" using ready_wired [OF w] by simp
  have b: "w_buf ?w = ''m'' @ fmt_x (unat a) @ CHR '','' # fmt_x n @ NUL # drop (length (packet_of (Get_mem a n)) + 1) (w_buf w)"
    by simp
  have "hexstr (fmt_x (unat a))" "hexstr (fmt_x n)" "hex_nat (fmt_x n) < 2048" using v by simp_all
  from emu_rest.read_packet [OF emu_xlen this ok b] obtain w' where
      w': "handle_read_memory emu_callbacks ?w = Some (reply (hex_image (load_bytes (mem_view w) a n)) w')"
      "rest_of w' = rest_of w" "mem_view w' = mem_view w" "w_link w' = w_link ?w" "conn w' = conn ?w"
    by auto
  have "load_bytes (ram_view w) a n = load_bytes (mem_view w) a n"
    using ram_range [of a n] v by (simp add: load_bytes_def ram_view_def)
  moreover have "ram_view w' = ram_view w" using w'(3) by (simp add: ram_view_def fun_eq_iff)
  then have "target_of w' = (target_of w)\<lparr>t_mem := ram_view w\<rparr>" using target_of_rest [OF w'(2)] by simp
  then have "target_of w' = target_of w" by (simp add: target_of_def)
  ultimately show ?thesis using w' by (intro exI [of _ w']) (simp add: dispatch_def)
qed

lemma handled_write:
  assumes w: "ready w"
  shows "valid (Set_mem a bs) \<Longrightarrow> \<exists>w'. handled w (Set_mem a bs) rest w'"
    "valid (Set_bytes a bs) \<Longrightarrow> \<exists>w'. handled w (Set_bytes a bs) rest w'"
proof -
  let ?w = "\<lambda>q. received (packet_of q) rest w"
  have ok: "wired (?w q) \<and> rest_of (?w q) = rest_of w" for q using ready_wired [OF w] by simp
  have h: "hexstr (fmt_x (unat a))" "hexstr (fmt_x (length bs))" "hex_nat (fmt_x (length bs)) = length bs"
    "a = word_of_nat (hex_nat (fmt_x (unat a)))" by simp_all
  show "\<exists>w'. handled w (Set_mem a bs) rest w'" if v: "valid (Set_mem a bs)"
  proof -
    let ?q = "Set_mem a bs"
    have b: "w_buf (?w ?q) = ''M'' @ fmt_x (unat a) @ CHR '','' # fmt_x (length bs) @ CHR '':'' # hex_image bs @ NUL #
        drop (length (packet_of ?q) + 1) (w_buf w)" by simp
    have r: "\<forall>i < length bs. ram_addr (a + word_of_nat i)" using ram_range [of a "length bs"] v by simp
    have "length bs < 2 ^ LENGTH(32)" using v by simp
    from emu_rest.write_packet [OF h(1-3) this ok b h(4) r] obtain w' where
        w': "handle_write_memory emu_callbacks (?w ?q) = Some (reply ''OK'' w')"
        "rest_of w' = rest_of w" "w_link w' = w_link (?w ?q)" "conn w' = conn (?w ?q)"
        "\<forall>c. ram_addr c \<longrightarrow> mem_view w' c = store_bytes a bs (mem_view w) c"
      by auto
    with stored_target [OF w'(2,5) r] show ?thesis by (intro exI [of _ w']) (simp add: dispatch_def)
  qed
  show "\<exists>w'. handled w (Set_bytes a bs) rest w'" if v: "valid (Set_bytes a bs)"
  proof -
    let ?q = "Set_bytes a bs"
    have b: "w_buf (?w ?q) = ''X'' @ fmt_x (unat a) @ CHR '','' # fmt_x (length bs) @ CHR '':'' # rsp_escape bs @ NUL #
        drop (length (packet_of ?q) + 1) (w_buf w)" by simp
    have r: "\<forall>i < length bs. ram_addr (a + word_of_nat i)" using ram_range [of a "length bs"] v by simp
    have "bs \<noteq> []" "length bs \<le> 4096" "0 \<notin> set bs" "32 \<le> LENGTH(32)" using v by simp_all
    from emu_rest.binary_packet [OF h(1-3) this ok b h(4) r] obtain w' where
        w': "handle_write_memory_binary emu_callbacks (?w ?q) = Some (reply ''OK'' w')"
        "rest_of w' = rest_of w" "w_link w' = w_link (?w ?q)" "conn w' = conn (?w ?q)"
        "\<forall>c. ram_addr c \<longrightarrow> mem_view w' c = store_bytes a bs (mem_view w) c"
      by auto
    with stored_target [OF w'(2,5) r] show ?thesis by (intro exI [of _ w']) (simp add: dispatch_def)
  qed
qed

text \<open>The search: the first of the places is the least.\<close>

lemma set_hits: "set (hits m a n pat) = {k. k + length pat \<le> n \<and> load_bytes m (a + word_of_nat k) (length pat) = pat}"
  by (auto simp: hits_def)

lemma Min_hits: "hits m a n pat = k # ks \<Longrightarrow> Min (insert k (set ks)) = k"
proof -
  assume h: "hits m a n pat = k # ks"
  have "sorted (hits m a n pat)" by (simp add: hits_def sorted_wrt_filter)
  with h show ?thesis by (intro Min_eqI) auto
qed

lemma handled_search:
  assumes w: "ready w" and v: "valid (Search a n pat)"
  shows "\<exists>w'. handled w (Search a n pat) rest w'"
proof -
  let ?q = "Search a n pat" and ?len = "word_of_nat n :: 32 word"
  let ?w = "received (packet_of ?q) rest w"
  have n: "unat ?len = n" using v by (intro unat_word_of_nat_id) simp
  define off where "off = length (fmt_x (unat a)) + length (fmt_x (unat ?len)) + 17"
  have p: "0 < length pat" "length pat \<le> 2000" "length pat \<le> unat ?len" "packet_of ?q = ''qSearch:memory:'' @ search_args a ?len pat"
    using v n by simp_all
  obtain f w1 where w1: "w1 = upd_buf f ?w" "wired w1" "mem_view w1 = mem_view w" "w_link w1 = w_link ?w" "conn w1 = conn ?w"
      "drop off (w_buf w1) = hex_image pat @ NUL # drop (length (packet_of ?q) + 1) (w_buf w)"
    and disp: "dispatch emu_callbacks CHR ''q'' ?w = done0
        (case search_loop emu_callbacks (a + ?len - word_of_nat (length pat)) off (length pat) a w1 of
           None \<Rightarrow> None
         | Some (Some b, w2) \<Rightarrow> Some (reply (''1,'' @ fmt_addr b) w2)
         | Some (None, w2) \<Rightarrow> Some (reply ''0'' w2))"
    using search_dispatch [OF w p(4,1-3), of rest] unfolding off_def by blast
  have ok: "wired w1 \<and> rest_of w1 = rest_of w" using w1(1,2) by simp
  have "load_bytes (ram_view w) (a + word_of_nat k) (length pat) = load_bytes (mem_view w) (a + word_of_nat k) (length pat)"
    if "k + length pat \<le> n" for k
    using ram_range [of a n] v that by (auto simp: load_bytes_def ram_view_def add.assoc simp flip: of_nat_add)
  then have h: "{k. k + length pat \<le> unat ?len \<and> load_bytes (mem_view w1) (a + word_of_nat k) (length pat) = pat} =
      set (hits (ram_view w) a n pat)"
    by (auto simp: set_hits n w1(3))
  have "unat a + unat ?len < 2 ^ LENGTH(32)" using v n by simp
  from emu_rest.search_hits [OF ok w1(6) p(1,3) this] obtain w2 where
      w2: "emu_rest.same_view (rest_of w) w1 w2" and
      "search_loop emu_callbacks (a + ?len - word_of_nat (length pat)) off (length pat) a w1 =
        Some (if set (hits (ram_view w) a n pat) = {} then None else Some (a + word_of_nat (Min (set (hits (ram_view w) a n pat)))), w2)"
    unfolding h by blast
  then have d: "dispatch emu_callbacks CHR ''q'' ?w = Some (0, reply (fst (serve ?q (target_of w))) w2)"
    unfolding disp by (cases "hits (ram_view w) a n pat") (simp_all add: Min_hits)
  have s: "rest_of w2 = rest_of w" "mem_view w2 = mem_view w" "w_link w2 = w_link ?w" "conn w2 = conn ?w"
    using w2 w1(3-5) by (simp_all add: emu_rest.same_view_def)
  then have "target_of w2 = (target_of w)\<lparr>t_mem := ram_view w\<rparr>"
    by (intro target_of_rest) (simp_all add: ram_view_def fun_eq_iff)
  then have "target_of w2 = target_of w" by (simp add: target_of_def)
  with d s show ?thesis by (intro exI [of _ w2]) simp
qed

text \<open>Breakpoints and watchpoints: the table of the context is the one of the target.\<close>

lemma received_inv:
  assumes "ready w" "valid q"
  shows "bp_inv (w_ctx (received (packet_of q) rest w))" "wp_inv (w_ctx (received (packet_of q) rest w))"
  using received_ready [OF assms(1), of "packet_of q" rest] packet_of_facts(3) [OF assms(2)]
  by (simp_all add: ready_def good_def stub_inv_def)

lemma same_simI:
  assumes "w_sim w' = w_sim w" "multiprocess_active (w_ctx w') = multiprocess_active (w_ctx w)"
    and "bp_slots (w_ctx w') = t_slots t" "bp_active (w_ctx w') = t_breaks t"
    and "wp_slots (w_ctx w') = t_wslots t" "wp_active (w_ctx w') = t_watches t"
    and "t_regs t = hart_reg (w_sim w)" "t_mem t = ram_view w" "t_focus t = focus w"
    "t_harts t = nat (sys_num_harts (w_sim w))" "t_multi t = multiprocess_active (w_ctx w)"
  shows "target_of w' = t"
  using assms ram_view_cong [of w' w] by (intro target_eqI) simp_all

lemma handled_breaks:
  assumes "ready w"
  shows "\<exists>w'. handled w (Set_break a) rest w'" "\<exists>w'. handled w (Clear_break a) rest w'"
proof -
  let ?q = "\<lambda>ins. if ins then Set_break a else Clear_break a"
  have "\<exists>w'. handled w (?q ins) rest w'" for ins
  proof -
    let ?w = "received (packet_of (?q ins)) rest w"
    have b: "w_buf ?w = (if ins then CHR ''Z'' else CHR ''z'') # fmt_x 0 @ CHR '','' # fmt_x (unat a) @ CHR '','' # fmt_x (unat (4 :: 32 word)) @ NUL #
        drop (length (packet_of (?q ins)) + 1) (w_buf w)" by (simp add: point_args_def)
    have "valid (?q ins)" by simp
    from handle_breakpoint_effect [OF emu_xlen received_inv(1) [OF assms this] b, of ins] obtain w' where
        w': "w_sim w' = w_sim w" "w_link w' = w_link ?w" "conn w' = conn ?w" "multiprocess_active (w_ctx w') = multiprocess_active (w_ctx w)"
        "handle_breakpoint ins ?w = Some (reply (fst (serve (?q ins) (target_of w))) w')"
        "bp_slots (w_ctx w') = t_slots (snd (serve (?q ins) (target_of w)))"
        "bp_active (w_ctx w') = t_breaks (snd (serve (?q ins) (target_of w)))"
        "wp_slots (w_ctx w') = wp_slots (w_ctx w)" "wp_active (w_ctx w') = wp_active (w_ctx w)"
      by (cases ins) (auto simp: received_def)
    then have "target_of w' = snd (serve (?q ins) (target_of w))" by (intro same_simI) simp_all
    with w' show ?thesis by (intro exI [of _ w']) (cases ins; simp add: dispatch_def)
  qed
  from this [of True] this [of False] show "\<exists>w'. handled w (Set_break a) rest w'" "\<exists>w'. handled w (Clear_break a) rest w'"
    by simp_all
qed

lemma type_of_code: "watchpoint_type_of (int (type_code ty)) = ty" "2 \<le> type_code ty" "type_code ty \<le> 4"
  by (cases ty; simp add: watchpoint_type_of_def)+

lemma handled_watches:
  assumes "ready w"
  shows "\<exists>w'. handled w (Set_watch k) rest w'" "\<exists>w'. handled w (Clear_watch k) rest w'"
proof -
  let ?q = "\<lambda>ins. if ins then Set_watch k else Clear_watch k"
  obtain a n ty where k: "k = (a, n, ty)" by (cases k) auto
  have "\<exists>w'. handled w (?q ins) rest w'" for ins
  proof -
    let ?w = "received (packet_of (?q ins)) rest w"
    have b: "w_buf ?w = (if ins then CHR ''Z'' else CHR ''z'') # fmt_x (type_code ty) @ CHR '','' # fmt_x (unat a) @ CHR '','' # fmt_x (unat n) @ NUL #
        drop (length (packet_of (?q ins)) + 1) (w_buf w)" by (simp add: point_args_def k)
    have "valid (?q ins)" by (simp add: k)
    from handle_watchpoint_effect [OF emu_xlen received_inv(2) [OF assms this] type_of_code(2,3) b, of ins] obtain w' where
        w': "w_sim w' = w_sim w" "w_link w' = w_link ?w" "conn w' = conn ?w" "multiprocess_active (w_ctx w') = multiprocess_active (w_ctx w)"
        "handle_breakpoint ins ?w = Some (reply (fst (serve (?q ins) (target_of w))) w')"
        "wp_slots (w_ctx w') = t_wslots (snd (serve (?q ins) (target_of w)))"
        "wp_active (w_ctx w') = t_watches (snd (serve (?q ins) (target_of w)))"
        "bp_slots (w_ctx w') = bp_slots (w_ctx w)" "bp_active (w_ctx w') = bp_active (w_ctx w)"
      by (cases ins) (auto simp: received_def type_of_code(1) k)
    then have "target_of w' = snd (serve (?q ins) (target_of w))" by (intro same_simI) simp_all
    with w' show ?thesis by (intro exI [of _ w']) (cases ins; simp add: dispatch_def k)
  qed
  from this [of True] this [of False] show "\<exists>w'. handled w (Set_watch k) rest w'" "\<exists>w'. handled w (Clear_watch k) rest w'"
    by simp_all
qed

lemma call_set_focus_emu: "call_set_focus emu_callbacks = gdb_set_focus_hart"
  by (simp add: fun_eq_iff call_set_focus_def emu_callbacks_def)

lemma handled_threads:
  assumes "ready w"
  shows "valid (Select n) \<Longrightarrow> \<exists>w'. handled w (Select n) rest w'" "\<exists>w'. handled w Threads rest w'"
proof -
  let ?w = "\<lambda>q. received (packet_of q) rest w" and ?n = "nat (sys_num_harts (w_sim w))"
  have harts: "num_harts emu_callbacks (received d rest w) = int ?n" "valid_hart_count (int ?n)" for d
    using assms by (auto simp: ready_def good_def sys_ok_def valid_hart_count_def num_harts_def emu_callbacks_def gdb_get_num_harts_def)
  show "\<exists>w'. handled w (Select n) rest w'" if v: "valid (Select n)"
  proof -
    let ?q = "Select n"
    let ?u = "gdb_set_focus_hart (int n - 1) (upd_ctx (\<lambda>c. c\<lparr>current_thread := int n\<rparr>) (?w ?q))"
    have b: "w_buf (?w ?q) = ''Hg'' @ thread_item False (int n) @ NUL # drop (length (packet_of ?q) + 1) (w_buf w)"
      using v by (simp add: thread_item_def fmt_int_x_nat)
    have h: "handle_set_thread emu_callbacks (?w ?q) = (if n \<le> ?n then reply_OK ?u else reply_E01 (?w ?q))"
      using handle_set_thread_select [OF b, of emu_callbacks] v
      by (simp add: harts(1) call_set_focus_emu)
    show ?thesis
    proof (cases "n \<le> ?n")
      case True
      then have h2: "int n - 1 < sys_num_harts (w_sim w)" using v by auto
      have f: "w_sim ?u = (w_sim w)\<lparr>sys_focus_hart := int n - 1\<rparr>" "w_ctx ?u = (w_ctx (?w ?q))\<lparr>current_thread := int n\<rparr>"
        "w_link ?u = w_link (?w ?q)"
        using True v h2 by (simp_all add: gdb_set_focus_hart_def)
      have "nat (int n - 1) = n - 1" by simp
      then have "target_of ?u = snd (serve ?q (target_of w))"
        using True f ram_view_cong [of ?u w]
        by (intro target_eqI) (simp_all add: hart_reg_def fun_eq_iff received_def bp_slots_def bp_active_def wp_slots_def wp_active_def)
      with h True f show ?thesis by (intro exI [of _ ?u]) (simp add: dispatch_def)
    next
      case False
      with h show ?thesis by (intro exI [of _ "?w ?q"]) (simp add: dispatch_def)
    qed
  qed
  have b: "w_buf (?w Threads) = ''qfThreadInfo'' @ NUL # drop (length (packet_of Threads) + 1) (w_buf w)" by simp
  have "multiprocess_active (w_ctx (?w Threads)) = multiprocess_active (w_ctx w)" by (simp add: received_def)
  with handle_query_threads [OF harts(1) thread_list_length [OF harts(2)] b]
  show "\<exists>w'. handled w Threads rest w'" by (intro exI [of _ "?w Threads"]) (simp add: dispatch_def)
qed

lemma handled_settings:
  assumes "ready w"
  shows "\<exists>w'. handled w (Negotiate m) rest w'" "valid (Alive n) \<Longrightarrow> \<exists>w'. handled w (Alive n) rest w'"
proof -
  let ?w = "\<lambda>q. received (packet_of q) rest w" and ?n = "nat (sys_num_harts (w_sim w))"
  let ?u = "upd_ctx (\<lambda>c. c\<lparr>multiprocess_active := m\<rparr>) (?w (Negotiate m))"
  have "cstr (w_buf (?w (Negotiate m))) = Some (packet_of (Negotiate m))" by simp
  then have "handle_query emu_callbacks (?w (Negotiate m)) = Some (reply (fst (serve (Negotiate m) (target_of w))) ?u)"
    by (cases m) (simp_all add: handle_query_def starts_with_def skip_char_def)
  moreover have "target_of ?u = snd (serve (Negotiate m) (target_of w))"
    using ram_view_cong [of ?u w]
    by (intro target_eqI) (simp_all add: received_def bp_slots_def bp_active_def wp_slots_def wp_active_def)
  ultimately show "\<exists>w'. handled w (Negotiate m) rest w'" by (intro exI [of _ ?u]) (simp add: dispatch_def)
  show "\<exists>w'. handled w (Alive n) rest w'" if v: "valid (Alive n)"
  proof -
    have harts: "num_harts emu_callbacks (received d rest w) = int ?n" for d
      using assms by (auto simp: ready_def good_def sys_ok_def valid_hart_count_def num_harts_def emu_callbacks_def gdb_get_num_harts_def)
    have "cstr (fmt_x n @ NUL # r) = Some (fmt_int_x (int n))" for r using v by (simp add: fmt_int_x_nat)
    then have "handle_thread_alive emu_callbacks (?w (Alive n)) = Some (reply (fst (serve (Alive n) (target_of w))) (?w (Alive n)))"
      using v parse_printed_thread [of "int n"]
      by (auto simp: handle_thread_alive_def thread_pid_valid_def harts nat_le_iff)
    then show ?thesis by (intro exI [of _ "?w (Alive n)"]) (simp add: dispatch_def)
  qed
qed

text \<open>Reset.\<close>

lemma sync_offset:
  assumes "ram_addr c"
  shows "unat (c - 0x80002000) < 52 \<longleftrightarrow> 0x2000 \<le> unat (c - 0x80000000) \<and> unat (c - 0x80000000) < 0x2034"
    "unat (c - 0x80002000) < 52 \<Longrightarrow> unat (c - 0x80002000) = unat (c - 0x80000000) - 0x2000"
  using assms by (auto simp: ram_addr_def word_le_nat_alt word_less_nat_alt unat_sub_if' split: if_splits)

lemma reset_memory:
  assumes "wired w" "ram_addr c"
  shows "mem_view (gdb_reset w) c = store_bytes 0x80002000 (sync_block (nat (sys_num_harts (w_sim w)))) (mem_view w) c"
proof -
  define n where "n = nat (sys_num_harts (w_sim w))"
  have n: "sys_num_harts (w_sim w) = int n" "n < 256" "0 < n" using assms(1) by (auto simp: n_def sys_ok_def valid_hart_count_def)
  have "store_bytes 0x80002000 (sync_block n) (mem_view w) c =
      (if unat (c - 0x80002000) < 52 then sync_block n ! unat (c - 0x80002000) else mem_view w c)"
    by (simp add: store_bytes_nth sync_block_def)
  moreover have "mem_view (gdb_reset w) c = sync_init (int n) (memory (hart w 0)) (unat (c - 0x80000000))"
    using reset_world(5) [OF assms(1)] assms(2) n by (simp add: mem_view_def reset_hart_regs)
  ultimately show ?thesis
    using sync_offset [OF assms(2)] assms(2) n
    by (auto simp: sync_init_block mem_view_def simp flip: n_def)
qed

lemma handled_reset:
  assumes "ready w"
  shows "\<exists>w'. handled w Reset rest w'"
proof -
  let ?w = "received (packet_of Reset) rest w"
  have ok: "wired ?w" using ready_wired [OF assms] by simp
  define v where "v = upd_ctx (\<lambda>c. (gdb_stub_clear_watchpoints (gdb_stub_clear_breakpoints c))
      \<lparr>should_stop := True, single_step := False, last_stop_signal := 5, breakpoint_hit := False,
       current_thread := 1, continue_thread := - 1, stop_thread := 0\<rparr>) (gdb_reset ?w)"
  note r = reset_world [OF ok] and clears = gdb_stub_clear_breakpoints_def gdb_stub_clear_watchpoints_def
  have h: "handle_reset emu_callbacks ?w = Some (reply ''OK'' v)"
    by (simp add: handle_reset_def emu_callbacks_def v_def)
  have "ram_view v = ram_view (gdb_reset ?w)" by (rule ram_view_cong) (simp add: v_def)
  also have "\<dots> = store_bytes 0x80002000 (sync_block (nat (sys_num_harts (w_sim w)))) (ram_view ?w)"
    using reset_memory [OF ok] ram_range [of "0x80002000" 52] by (intro stored_view) (simp_all add: sync_block_def)
  finally have m: "ram_view v = store_bytes 0x80002000 (sync_block (nat (sys_num_harts (w_sim w)))) (ram_view w)"
    using ram_view_cong [of ?w w] by simp
  have g: "hart_reg (w_sim v) = (\<lambda>h. if h < nat (sys_num_harts (w_sim w)) then reset_reg h else hart_reg (w_sim w) h)"
    using r(5) by (auto simp: v_def hart_reg_def rv32_cpu_read_reg_def reset_hart_regs reset_reg_none fun_eq_iff Let_def)
  have "target_of v = snd (serve Reset (target_of w))"
    using m g r(1-4)
    by (intro target_eqI) (simp_all add: v_def clears bp_slots_def bp_active_def wp_slots_def wp_active_def slot_keys_def active_keys_def fun_eq_iff)
  with h r(1,2) show ?thesis by (intro exI [of _ v]) (simp add: dispatch_def v_def clears)
qed

interpretation dbg: packet_server "gdb_stub_process emu_callbacks" ready "\<lambda>w. rx (w_link w)" "\<lambda>w. tx (w_link w)" ack
    target_of packet_of valid serve
proof
  fix w :: emu and q rest
  assume w: "ready w" "valid q" "rx (w_link w) = frame (packet_of q) @ rest"
  have "\<exists>w'. handled w q rest w'"
    using handled_registers [OF w(1)] handled_all_registers [OF w(1)] handled_read [OF w(1)] handled_write [OF w(1)]
      handled_search [OF w(1)] handled_reset [OF w(1)] handled_breaks [OF w(1)] handled_watches [OF w(1)] handled_threads [OF w(1)] handled_settings [OF w(1)] w(2)
    by (cases q) (simp_all only: valid.simps)
  with handled_served [OF w] show "\<exists>w'. gdb_stub_process emu_callbacks w = Some (0, w') \<and> ready w' \<and> rx (w_link w') = rest \<and>
      ack w' = ack w \<and> tx (w_link w') = tx (w_link w) @ ack w @ frame (fst (serve q (target_of w))) \<and>
      target_of w' = snd (serve q (target_of w))" by blast
qed

subsection \<open>The session\<close>

text \<open>
  C1: A debugger session refines the abstract target. Whatever valid requests the client sends
  one after the other (registers read and written, one by one or all at once, memory read and
  written, in hexadecimal or binary, breakpoints and watchpoints set and cleared, multiprocess
  identifiers negotiated, a hart selected, the threads listed and asked for, a pattern searched
  in memory, the system reset), the emulator answers every packet in its call of \<open>gdb_stub_process\<close>, with the
  replies the abstract target gives to the requests in that order, and stands for the abstract
  target after them; whatever watchpoints are set and wherever the program counters are.
\<close>

theorem session_refines:
  assumes "ready w" "\<forall>q \<in> set qs. valid q" "rx (w_link w) = concat (map (\<lambda>q. frame (packet_of q)) qs) @ rest"
  shows "\<exists>w'. process_times (gdb_stub_process emu_callbacks) (length qs) w = Some w' \<and> ready w' \<and> rx (w_link w') = rest \<and>
    tx (w_link w') = tx (w_link w) @ concat (map (\<lambda>ans. ack w @ frame ans) (fst (serve_all serve qs (target_of w)))) \<and>
    target_of w' = snd (serve_all serve qs (target_of w))"
  by (rule dbg.session [OF assms])

definition demo_requests :: "request list" where
  "demo_requests = [Reset, Set_mem 0x80001000 [1, 2], Set_break 0x80000014, Set_watch (0x80001000, 4, WATCHPOINT_WRITE),
     Negotiate True, Select 2, Set_regs (\<lambda>_. 9), Set_reg 5 7, Threads, Alive 3, Search 0x80000000 65536 [1, 2], Set_bytes 0x80001004 [35, 3], Get_mem 0x80001000 2, Get_reg 5]"

lemma session_refines_witness:
  "\<exists>w'. process_times (gdb_stub_process emu_callbacks) (length demo_requests)
       (client_sends (concat (map (\<lambda>q. frame (packet_of q)) demo_requests)) (demo_start 2)) = Some w' \<and>
     0x80000014 \<in> bp_active (w_ctx w') \<and> mem_view w' 0x80001001 = 2 \<and> focus w' = 1 \<and> reg_view w' 5 = 7"
proof -
  let ?w = "client_sends (concat (map (\<lambda>q. frame (packet_of q)) demo_requests)) (demo_start 2)"
  have v: "\<forall>q \<in> set demo_requests. valid q" by (simp add: demo_requests_def)
  have rx: "rx (w_link ?w) = concat (map (\<lambda>q. frame (packet_of q)) demo_requests) @ []" by (simp del: frame_def)
  have r: "ready ?w" by (rule demo_ready)
  obtain w' where w': "process_times (gdb_stub_process emu_callbacks) (length demo_requests) ?w = Some w'"
      "target_of w' = snd (serve_all serve demo_requests (target_of ?w))"
    using session_refines [OF r v rx] by blast
  have "bp_slots (w_ctx ?w) = {}" "wp_slots (w_ctx ?w) = {}" "sys_num_harts (w_sim ?w) = 2"
    using demo_ctx [of 2] demo_sim(2) [of 2]
    by (auto simp: zero_context_def bp_slots_def wp_slots_def valid_hart_count_def)
  then have t: "t_breaks (target_of w') = {0x80000014}" "t_focus (target_of w') = 1"
    "t_regs (target_of w') 1 5 = 7" "t_mem (target_of w') 0x80001001 = 2"
    unfolding w'(2) by (simp_all add: demo_requests_def Let_def)
  then have "0x80000014 \<in> bp_active (w_ctx w')" "focus w' = 1" "reg_view w' 5 = 7" "mem_view w' 0x80001001 = 2"
    by (simp_all add: reg_view_hart ram_view_def ram_addr_def)
  with w'(1) show ?thesis by blast
qed

end
