(* ===== verification/Command_Line.thy ===== *)
theory Command_Line
  imports Emulator
begin

text \<open>
  The command line of src/emu/main.c, read with \<open>getopt\<close> and \<open>atoi\<close> of the C library, and the
  usage text.
\<close>

subsection \<open>Decimal numbers: printf and atoi\<close>

definition isdigit :: "char \<Rightarrow> bool" where
  "isdigit c = (48 \<le> u8 c \<and> u8 c \<le> 57)"

definition dec_nat :: "string \<Rightarrow> nat" where
  "dec_nat s = foldl (\<lambda>v c. 10 * v + xdigit_val c) 0 s"

text \<open>
  \<open>atoi\<close>: white space, one sign, then the longest run of digits; no value where the number is
  no \<open>int\<close>, which C leaves undefined.
\<close>

definition atoi :: "string \<Rightarrow> int option" where
  "atoi s =
     (let s1 = dropWhile isspace s;
          mag = (\<lambda>t. int (dec_nat (takeWhile isdigit t)));
          v = (case s1 of [] \<Rightarrow> 0
            | c # t \<Rightarrow> if c = CHR ''-'' then - mag t else if c = CHR ''+'' then mag t else mag s1)
      in if - (2 ^ 31) \<le> v \<and> v < 2 ^ 31 then Some v else None)"

subsection \<open>Output\<close>

definition print_usage :: "string \<Rightarrow> string" where
  "print_usage prog_name = concat (map text_line
     [''Usage: '' @ prog_name @ '' [options]'',
      ''Options:'',
      ''  -p PORT     GDB server port (default: 1234)'',
      ''  -c HARTS    Number of harts: 1, 2, 4, or 8 (default: 1)'',
      ''  -d          Enable debug output'',
      ''  -i          Interactive mode (step through instructions)'',
      ''  -h          Show this help'',
      '''',
      ''To connect with GDB:'',
      ''  riscv-none-elf-gdb'',
      ''  (gdb) target remote localhost:1234'',
      ''  (gdb) continue''])"

subsection \<open>Options\<close>

text \<open>
  A call of \<open>getopt(argc, argv, "p:c:dih")\<close>: what is left of a group of options and the
  arguments after it, to the option found with its argument and what is left after it. An
  argument that is no option is passed over where the library permutes arguments (GNU) and
  ends the options where it does not (POSIX).
\<close>

fun getopt_next :: "bool \<Rightarrow> string \<times> string list \<Rightarrow> (char \<times> string \<times> (string \<times> string list)) option" where
  "getopt_next permute (c # cs, args) = Some
     (if c = CHR ''p'' \<or> c = CHR ''c'' then
        if cs \<noteq> [] then (c, cs, ([], args))
        else (case args of a # as \<Rightarrow> (c, a, ([], as)) | [] \<Rightarrow> (CHR ''?'', [], ([], [])))
      else if c = CHR ''d'' \<or> c = CHR ''i'' \<or> c = CHR ''h'' then (c, [], (cs, args))
      else (CHR ''?'', [], (cs, args)))"
| "getopt_next permute ([], []) = None"
| "getopt_next permute ([], a # as) =
     (if a = ''--'' then None
      else if 2 \<le> length a \<and> hd a = CHR ''-'' then getopt_next permute (tl a, as)
      else if permute then getopt_next permute ([], as)
      else None)"

record main_options =
  opt_gdb_port :: "16 word"
  opt_num_harts :: int
  opt_debug_mode :: bool
  opt_interactive_mode :: bool

definition default_options :: main_options where
  "default_options = \<lparr>opt_gdb_port = 1234, opt_num_harts = 1, opt_debug_mode = False, opt_interactive_mode = False\<rparr>"

text \<open>The program goes on with its options or ends with an exit code and a text on its output.\<close>

datatype start = Exit int string | Run main_options

definition args_left :: "string \<times> string list \<Rightarrow> nat" where
  "args_left st = length (fst st) + sum_list (map (\<lambda>a. length a + 1) (snd st))"

lemma getopt_next_left: "getopt_next permute st = Some (c, arg, st') \<Longrightarrow> args_left st' < args_left st"
proof (induction permute st rule: getopt_next.induct)
  case (1 permute c cs args)
  then show ?case by (auto simp: args_left_def split: if_splits list.splits)
next
  case (3 permute a as)
  then show ?case by (cases a) (auto simp: args_left_def split: if_splits)
qed simp

text \<open>The loop over the options; no value where \<open>atoi\<close> has none.\<close>

function parse_options :: "bool \<Rightarrow> string \<Rightarrow> string \<times> string list \<Rightarrow> main_options \<Rightarrow> start option" where
  "parse_options permute prog st opts =
     (case getopt_next permute st of
        None \<Rightarrow> Some (Run opts)
      | Some (opt, optarg, st') \<Rightarrow>
          if opt = CHR ''p'' then
            (case atoi optarg of
               None \<Rightarrow> None
             | Some v \<Rightarrow>
                 if (word_of_int v :: 16 word) = 0 then Some (Exit 1 [])
                 else parse_options permute prog st' (opts\<lparr>opt_gdb_port := word_of_int v\<rparr>))
          else if opt = CHR ''c'' then
            (case atoi optarg of
               None \<Rightarrow> None
             | Some v \<Rightarrow>
                 if \<not> valid_hart_count v then Some (Exit 1 [])
                 else parse_options permute prog st' (opts\<lparr>opt_num_harts := v\<rparr>))
          else if opt = CHR ''d'' then parse_options permute prog st' (opts\<lparr>opt_debug_mode := True\<rparr>)
          else if opt = CHR ''i'' then parse_options permute prog st' (opts\<lparr>opt_interactive_mode := True\<rparr>)
          else if opt = CHR ''h'' then Some (Exit 0 (print_usage prog))
          else Some (Exit 1 (print_usage prog)))"
  by pat_completeness auto

termination
  by (relation "measure (\<lambda>(permute, prog, st, opts). args_left st)") (auto dest: getopt_next_left)

declare parse_options.simps [simp del]

subsection \<open>Facts of numbers\<close>

lemma fmt_nat_digit: "n < 10 \<Longrightarrow> fmt_nat n = [hex_char n]"
  by (subst fmt_nat.simps) simp

lemma fmt_nat_more: "10 \<le> n \<Longrightarrow> fmt_nat n = fmt_nat (n div 10) @ [hex_char (n mod 10)]"
  by (subst fmt_nat.simps) simp

lemma digit_char:
  assumes "n < 10"
  shows "isdigit (hex_char n)" "xdigit_val (hex_char n) = n"
proof -
  have "n = 0 \<or> n = 1 \<or> n = 2 \<or> n = 3 \<or> n = 4 \<or> n = 5 \<or> n = 6 \<or> n = 7 \<or> n = 8 \<or> n = 9"
    using assms by presburger
  then show "isdigit (hex_char n)" "xdigit_val (hex_char n) = n"
    by (elim disjE; simp add: isdigit_def hex_char_def xdigit_val_def u8_def)+
qed

lemma fmt_nat_digits: "c \<in> set (fmt_nat n) \<Longrightarrow> isdigit c"
proof (induction n rule: fmt_nat.induct)
  case (1 n)
  then show ?case by (cases "n < 10") (auto simp: fmt_nat_digit fmt_nat_more digit_char)
qed

lemma fmt_nat_neq_Nil [simp]: "fmt_nat n \<noteq> []"
  by (subst fmt_nat.simps) simp

lemma dec_nat_fmt_nat: "dec_nat (fmt_nat n) = n"
proof (induction n rule: fmt_nat.induct)
  case (1 n)
  then show ?case by (cases "n < 10") (simp_all add: fmt_nat_digit fmt_nat_more dec_nat_def digit_char)
qed

lemma digit_no_sign: "isdigit c \<Longrightarrow> \<not> isspace c \<and> c \<noteq> CHR ''-'' \<and> c \<noteq> CHR ''+''"
  by (auto simp: isdigit_def isspace_def u8_def)

lemma atoi_fmt_nat:
  assumes "n < 2 ^ 31"
  shows "atoi (fmt_nat n) = Some (int n)"
proof -
  obtain c s where c: "fmt_nat n = c # s" by (cases "fmt_nat n") auto
  then have "isdigit c" using fmt_nat_digits [of c n] by simp
  moreover have t: "takeWhile isdigit (fmt_nat n) = fmt_nat n" unfolding takeWhile_eq_all_conv using fmt_nat_digits by blast
  have "int (dec_nat (takeWhile isdigit (c # s))) = int n" using t dec_nat_fmt_nat [of n] by (simp only: c)
  ultimately show ?thesis using assms digit_no_sign [of c] by (simp add: atoi_def c)
qed

subsection \<open>Properties of the command line\<close>

text \<open>Options as a user means them, their arguments (attached to the letter or apart) and their effect.\<close>

datatype cli_option = Port nat | Harts nat | Debug | Interactive

fun option_args :: "bool \<times> cli_option \<Rightarrow> string list" where
  "option_args (attached, Port n) = (if attached then [''-p'' @ fmt_nat n] else [''-p'', fmt_nat n])"
| "option_args (attached, Harts n) = (if attached then [''-c'' @ fmt_nat n] else [''-c'', fmt_nat n])"
| "option_args (attached, Debug) = [''-d'']"
| "option_args (attached, Interactive) = [''-i'']"

fun option_effect :: "cli_option \<Rightarrow> main_options \<Rightarrow> main_options option" where
  "option_effect (Port n) opts =
     (if n mod 65536 = 0 then None else Some (opts\<lparr>opt_gdb_port := word_of_nat (n mod 65536)\<rparr>))"
| "option_effect (Harts n) opts = (if n \<in> {1, 2, 4, 8} then Some (opts\<lparr>opt_num_harts := int n\<rparr>) else None)"
| "option_effect Debug opts = Some (opts\<lparr>opt_debug_mode := True\<rparr>)"
| "option_effect Interactive opts = Some (opts\<lparr>opt_interactive_mode := True\<rparr>)"

fun options_effect :: "(bool \<times> cli_option) list \<Rightarrow> main_options \<Rightarrow> main_options option" where
  "options_effect [] opts = Some opts"
| "options_effect (x # xs) opts = (case option_effect (snd x) opts of None \<Rightarrow> None | Some opts' \<Rightarrow> options_effect xs opts')"

fun option_number :: "cli_option \<Rightarrow> nat" where
  "option_number (Port n) = n"
| "option_number (Harts n) = n"
| "option_number _ = 0"

lemma port_word: "word_of_nat (n mod 65536) = (word_of_nat n :: 16 word)"
  by (simp add: word_unat_eq_iff unsigned_of_nat take_bit_eq_mod)

lemma port_zero: "(word_of_nat n :: 16 word) = 0 \<longleftrightarrow> n mod 65536 = 0"
  using word_of_nat_eq_0_iff [where n = n and 'a = 16] by (simp add: dvd_eq_mod_eq_0)

lemma parse_option:
  assumes "option_number (snd x) < 2 ^ 31"
  shows "parse_options permute prog ([], option_args x @ rest) opts =
    (case option_effect (snd x) opts of None \<Rightarrow> Some (Exit 1 []) | Some opts' \<Rightarrow> parse_options permute prog ([], rest) opts')"
proof -
  obtain att op where x: "x = (att, op)" by (cases x)
  have arg: "atoi (fmt_nat n) = Some (int n)" if "n < 2 ^ 31" for n using atoi_fmt_nat [OF that] .
  have next_p: "getopt_next permute ([], option_args (att, Port n) @ rest) = Some (CHR ''p'', fmt_nat n, ([], rest))"
    and next_c: "getopt_next permute ([], option_args (att, Harts n) @ rest) = Some (CHR ''c'', fmt_nat n, ([], rest))" for n
    by (cases att; cases "fmt_nat n"; simp)+
  show ?thesis
  proof (cases op)
    case (Port n)
    with assms x show ?thesis
      by (subst parse_options.simps) (simp add: next_p arg port_zero port_word del: option_args.simps)
  next
    case (Harts n)
    with assms x show ?thesis
      by (subst parse_options.simps) (simp add: next_c arg valid_hart_count_def del: option_args.simps)
  next
    case Debug
    with x show ?thesis by (subst parse_options.simps) simp
  next
    case Interactive
    with x show ?thesis by (subst parse_options.simps) simp
  qed
qed

text \<open>
  C21: The command line. Options given one after the other, each number attached to its letter
  or apart, have the effect of their meaning in turn: a hart count must be 1, 2, 4 or 8, and a port is
  taken modulo 65536 and must not be 0 after that, so 65616 means port 80; the first option
  that is refused ends the program with exit code 1. Options end at the end of the arguments or at
  two dashes.
\<close>

theorem command_line:
  assumes "\<forall>x \<in> set xs. option_number (snd x) < 2 ^ 31" "rest = [] \<or> hd rest = ''--''"
  shows "parse_options permute prog ([], concat (map option_args xs) @ rest) opts =
    (case options_effect xs opts of None \<Rightarrow> Some (Exit 1 []) | Some opts' \<Rightarrow> Some (Run opts'))"
  using assms(1)
proof (induction xs arbitrary: opts)
  case Nil
  have "getopt_next permute ([], rest) = None" using assms(2) by (cases rest) auto
  then show ?case by (subst parse_options.simps) simp
next
  case (Cons x xs)
  then show ?case using parse_option [of x permute prog "concat (map option_args xs) @ rest" opts]
    by (simp split: option.split)
qed

lemma command_line_witness:
  "parse_options False ''emu'' ([], [''-p65616'', ''-c'', ''4'']) default_options =
     Some (Run (default_options\<lparr>opt_gdb_port := 80, opt_num_harts := 4\<rparr>))"
proof -
  have d: "fmt_nat 65616 = ''65616''" "fmt_nat 4 = ''4''"
    by (simp_all add: fmt_nat.simps hex_char_def)
  show ?thesis
    using command_line [of "[(True, Port 65616), (False, Harts 4)]" "[]" False "''emu''" default_options] by (simp add: d)
qed

end
