(* ===== verification/Main_Program.thy ===== *)
theory Main_Program
  imports Command_Line Emu_Run
begin

text \<open>
  The whole of \<open>main\<close> in src/emu/main.c: the command line, the start, the main loop turn by
  turn until a turn ends it, and the end. What the environment does in a turn (SIGINT before it,
  the line typed at the prompt, the polls of the connection while harts run) is an argument.
\<close>

subsection \<open>The main loop\<close>

type_synonym turn_input = "bool \<times> string option \<times> poll list"

text \<open>
  The loop ended, or it has come to a world in which the next turn has no defined result, or
  the inputs are used up.
\<close>

datatype loop_result = Ended emu | Stuck emu | Going emu

fun main_loop :: "bool \<Rightarrow> bool \<Rightarrow> turn_input list \<Rightarrow> bool \<Rightarrow> emu \<Rightarrow> loop_result" where
  "main_loop debug_mode interactive_mode inputs cpu_was_running w =
     (if \<not> connected (w_stub w) then Ended w
      else (case inputs of
          [] \<Rightarrow> Going w
        | (sigint, line, polls) # inputs' \<Rightarrow>
            let w1 = (if sigint then sigint_handler w else w) in
            (case main_turn debug_mode interactive_mode line polls cpu_was_running w1 of
               None \<Rightarrow> Stuck w1
             | Some (go, cpu_was_running', w2) \<Rightarrow>
                 if go then main_loop debug_mode interactive_mode inputs' cpu_was_running' w2 else Ended w2)))"

declare main_loop.simps [simp del]

text \<open>
  The program: its exit code, what it has printed on standard output and the world it leaves.
  \<open>sock\<close>, \<open>bind_result\<close>, \<open>listen_result\<close> and \<open>fd\<close> are the results of the socket calls,
  \<open>client\<close> the address of the client and \<open>l\<close> the connection; no value where the execution is not defined or the inputs do not
  last.
\<close>

definition main_program ::
    "bool \<Rightarrow> string \<Rightarrow> string list \<Rightarrow> int \<Rightarrow> int \<Rightarrow> int \<Rightarrow> int \<Rightarrow> string \<times> 16 word \<Rightarrow> link \<Rightarrow> turn_input list \<Rightarrow>
     (int \<times> string \<times> emu option) option" where
  "main_program permute prog args sock bind_result listen_result fd client l inputs =
     (case parse_options permute prog ([], args) default_options of
        None \<Rightarrow> None
      | Some (Exit code out) \<Rightarrow> Some (code, out, None)
      | Some (Run opts) \<Rightarrow>
          (case main_start (opt_gdb_port opts) (opt_num_harts opts) sock bind_result listen_result fd client of
             Inl out \<Rightarrow> Some (1, out, None)
           | Inr w \<Rightarrow>
               (case main_loop (opt_debug_mode opts) (opt_interactive_mode opts) inputs False (w\<lparr>w_link := l\<rparr>) of
                  Ended w' \<Rightarrow>
                    let w2 = w_ctx_update (\<lambda>c. snd (gdb_stub_close c)) (print_out shutdown_text w')
                    in Some (0, sys_stdout (w_sim w2), Some w2)
                | _ \<Rightarrow> None)))"

subsection \<open>Bytes received\<close>

text \<open>A packet takes at least a byte, and leaves a terminator in the buffer unless it is an interrupt.\<close>

lemma os_write_rx: "os_write p l = (n, l') \<Longrightarrow> rx l' = rx l"
  by (auto simp: os_write_def split: list.splits if_splits)

lemma receive_loop_takes:
  "receive_loop cs st i e r gs l = (0, gs', l') \<Longrightarrow> length (rx l') < length cs"
proof (induction cs st i e r gs l rule: receive_loop.induct)
  case (4 c cs index expected received gs l)
  then show ?case by (auto simp: Let_def dest!: os_write_rx split: if_splits prod.splits) (blast intro: less_SucI)
qed (auto simp: Let_def split: if_splits)

lemma receive_loop_terminated:
  assumes "receive_loop cs st i e r gs l = (0, gs', l')" "st = Read_data \<Longrightarrow> i \<le> 4095"
    "st = Read_checksum \<Longrightarrow> NUL \<in> set (packet_buffer gs)" "length (packet_buffer gs) = 4096"
  shows "NUL \<in> set (packet_buffer gs') \<or> (\<exists>p. packet_buffer gs' = CHR 0x03 # p)"
  using assms
proof (induction cs st i e r gs l rule: receive_loop.induct)
  case (2 c cs index expected received gs l)
  then show ?case by (cases "packet_buffer gs") (auto split: if_splits)
next
  case (3 c cs index expected received gs l)
  then show ?case by (auto simp: Let_def set_update_memI split: if_splits)
next
  case (4 c cs index expected received gs l)
  then show ?case by (auto simp: Let_def split: if_splits prod.splits)
qed auto

lemma received_packet:
  assumes "receive_packet gs l = (0, gs', l')"
  shows "length (rx l') < length (rx l)"
    "length (packet_buffer gs) = 4096 \<Longrightarrow> NUL \<in> set (packet_buffer gs') \<or> (\<exists>p. packet_buffer gs' = CHR 0x03 # p)"
  using assms receive_loop_takes receive_loop_terminated [where st = Wait_dollar] unfolding receive_packet_def by blast+

lemma receive_packet_result: "receive_packet gs l = (r, gs', l') \<Longrightarrow> r = 0 \<or> r = - 1"
  using receive_loop_result [of "rx l" Wait_dollar 0 0 0 gs l] by (auto simp: receive_packet_def)

subsection \<open>What a turn does to the connection and prints\<close>

text \<open>
  It says something well-formed on the connection, where only the packet it begins with is taken
  from what the client sent, and adds to what was printed.
\<close>

abbreviation printed :: "emu \<Rightarrow> string" where
  "printed w \<equiv> sys_stdout (w_sim w)"

abbreviation talks :: "emu \<Rightarrow> emu \<Rightarrow> bool" where
  "talks w w' \<equiv> speaks (w_link w) (w_link w') \<and> prefix (printed w) (printed w')"

lemma talks_trans: "talks w v \<Longrightarrow> talks v w' \<Longrightarrow> talks w w'"
  using speaks_trans prefix_order.trans by blast

lemma of_mach_prints: "confined dbg_ok (to_mach w) m \<Longrightarrow> prefix (printed w) (printed (of_mach m w))"
  by (simp add: confined_def of_mach_def to_mach_def)

lemma on_mach_prints: "(\<And>m. confined dbg_ok m (f m)) \<Longrightarrow> prefix (printed w) (printed (on_mach f w))"
  by (simp add: on_mach_def of_mach_prints)

lemma access_prints:
  assumes "emu_ok w"
  shows "prefix (printed w) (printed (snd (sys_read_mem a n w)))" "prefix (printed w) (printed (sys_write_mem src a v n w))"
proof -
  show "prefix (printed w) (printed (snd (sys_read_mem a n w)))"
    using of_mach_prints [OF confined_read_mem] by (simp add: sys_read_mem_def case_prod_beta)
  obtain b m where m: "smp_sync_handle_mmio (sys_num_harts (w_sim w)) a v n (to_mach w) = (b, m)" by fastforce
  then have "confined dbg_ok (to_mach w) m"
    using confined_mmio(1) [of "sys_num_harts (w_sim w)" dbg_ok "to_mach w" a v n] sys_num_bound assms
    by (simp add: good_def)
  then show "prefix (printed w) (printed (sys_write_mem src a v n w))"
    by (auto simp: sys_write_mem_def m intro!: of_mach_prints elim: confined_trans [OF _ confined_mmio(2)]
        confined_trans [OF _ confined_write_mem])
qed

lemma sys_step_prints: "emu_ok w \<Longrightarrow> prefix (printed w) (printed (sys_cpu_step h w))"
proof -
  assume "emu_ok w"
  then have "emu_ok (on_mach (rv32_cpu_step h) w)" by (rule on_mach_ok [OF _ confined_step])
  then have "sys_num_harts (w_sim (on_mach (rv32_cpu_step h) w)) \<le> 8" unfolding good_def by (blast intro: sys_num_bound)
  moreover have "prefix (printed w) (printed (on_mach (rv32_cpu_step h) w))"
    by (rule on_mach_prints [OF confined_step])
  ultimately show ?thesis
    unfolding sys_cpu_step_def sys_post_step_def
    by (auto simp: Let_def intro: prefix_order.trans [OF _ on_mach_prints] confined_mmio(3))
qed

lemma continue_step_prints: "emu_ok w \<Longrightarrow> prefix (printed w) (printed (continue_step d h w))"
proof -
  assume w: "emu_ok w"
  obtain s where "show_progress d h w = print_out s w" using show_progress_out by blast
  then have "prefix (printed w) (printed (show_progress d h w))" by simp
  then show ?thesis
    unfolding continue_step_def using sys_step_prints [of "show_progress d h w"] w
    by (auto intro: prefix_order.trans)
qed

lemma silent [simp]:
  "printed (snd (gdb_stub_send_stop_reason s a v)) = printed v" "printed (notify_stop s a v) = printed v"
  "printed (handle_hart_stop h s v) = printed v" "printed (upd_cpu h f v) = printed v"
  "printed (sys_halt_all v) = printed v" "printed (sys_resume_runnable v) = printed v"
  "printed (sigint_handler v) = printed v" for v :: emu
proof -
  show u: "printed (upd_cpu h f v) = printed v" for h f and v :: emu by (simp add: upd_cpu_def)
  show a: "printed (sys_halt_all v) = printed v" "printed (sys_resume_runnable v) = printed v" for v
    by (simp_all add: sys_halt_all_def sys_resume_runnable_def u fold_frame [where g = printed])
  show s: "printed (snd (gdb_stub_send_stop_reason s a v)) = printed v" for s a and v :: emu
    by (simp add: send_stop_reason_frames)
  show n: "printed (notify_stop s a v) = printed v" for s a and v :: emu by (simp add: notify_stop_def Let_def s)
  show "printed (handle_hart_stop h s v) = printed v" by (simp add: handle_hart_stop_def Let_def n)
  show "printed (sigint_handler v) = printed v" by (simp add: sigint_handler_def Let_def a)
qed

lemma reset_prints: "prefix (printed w) (printed (gdb_reset w))"
proof -
  have f: "printed (fold (\<lambda>h. upd_cpu h (f h)) hs v) = printed v" for f hs and v :: emu
    by (rule fold_frame) simp
  show ?thesis
    unfolding gdb_reset_def Let_def
    by (simp, rule prefix_order.trans [rotated], rule on_mach_prints, rule confined_ram_init) (simp add: f)
qed

lemma gdb_reset_link [simp]: "w_link (gdb_reset w) = w_link w"
  by (simp add: gdb_reset_def Let_def fold_frame [where g = w_link])

interpretation emu_talk: stub_callbacks emu_callbacks "\<lambda>s l. sys_ok s \<and> speaks L l \<and> prefix P (sys_stdout s)" for L P
proof
  show "sys_ok s \<and> speaks L l \<and> prefix P (sys_stdout s) \<Longrightarrow> speaks l l' \<Longrightarrow>
      sys_ok s \<and> speaks L l' \<and> prefix P (sys_stdout s)" for s l l'
    using speaks_trans by blast
next
  fix w :: emu
  let ?ok = "\<lambda>s l. sys_ok s \<and> speaks L l \<and> prefix P (sys_stdout s)"
  have g: "good ?ok v = (emu_ok v \<and> speaks L (w_link v) \<and> prefix P (printed v))" for v by (auto simp: good_def)
  assume "good ?ok w"
  then have w: "emu_ok w" "speaks L (w_link w)" "prefix P (printed w)" by (simp_all add: g)
  note p = prefix_order.trans [OF w(3) access_prints(1) [OF w(1)]] prefix_order.trans [OF w(3) access_prints(2) [OF w(1)]]
  show "good ?ok (cb_write_reg emu_callbacks i v w)" for i v
    using w emu.write_reg_inv [OF w(1)] by (simp add: g) (simp add: emu_callbacks_def gdb_write_reg_def)
  show "good ?ok (snd (cb_read_mem emu_callbacks a n w))" for a n
    using w emu.read_mem_inv [OF w(1)] p(1) by (simp add: g) (simp add: emu_callbacks_def gdb_read_mem_def sys_read_mem_def case_prod_beta of_mach_def)
  show "good ?ok (cb_write_mem emu_callbacks a v n w)" for a v n
    using w emu.write_mem_inv [OF w(1)] p(2) by (simp add: g) (simp add: emu_callbacks_def gdb_write_mem_def sys_write_mem_def case_prod_beta of_mach_def)
  show "good ?ok (cb_set_pc emu_callbacks v w)" for v
    using w emu.set_pc_inv [OF w(1)] by (simp add: g) (simp add: emu_callbacks_def gdb_set_pc_def)
  show "good ?ok (f w)" if "cb_reset emu_callbacks = Some f" for f
    using w emu.reset_inv [OF that w(1)] that prefix_order.trans [OF w(3) reset_prints] by (auto simp: g emu_callbacks_def)
  show "good ?ok (f w)" if "cb_resume emu_callbacks = Some f" for f
    using w emu.resume_inv [OF that w(1)] that by (auto simp: g emu_callbacks_def gdb_resume_def)
  show "good ?ok (k h w)" if "cb_set_focus_hart emu_callbacks = Some k" for k h
    using w emu.focus_inv [OF that w(1)] that by (auto simp: g emu_callbacks_def gdb_set_focus_hart_def)
  show "good ?ok (f w)" if "cb_halt_cpus emu_callbacks = Some f" for f
    using w emu.halt_inv [OF that w(1)] that by (auto simp: g emu_callbacks_def gdb_halt_cpus_def)
qed

lemma process_link:
  assumes "gdb_stub_process emu_callbacks w = Some (r, w')" "emu_ok w"
  shows "says (w_link w) (w_link w')" "0 \<le> r \<Longrightarrow> length (rx (w_link w')) < length (rx (w_link w))"
    "prefix (printed w) (printed w')"
proof -
  obtain r1 gs l where rp: "receive_packet (w_stub w) (w_link w) = (r1, gs, l)"
    by (cases "receive_packet (w_stub w) (w_link w)") auto
  define w1 where "w1 = upd_ctx (stub_update (\<lambda>_. gs)) (w\<lparr>w_link := l\<rparr>)"
  note r1 = receive_packet_result [OF rp] and l = says_receive [OF rp]
  have "length (packet_buffer gs) = 4096"
    using receive_packet_length [of "w_stub w" "w_link w"] rp good_stub_inv [OF assms(2)] by (simp add: stub_inv_def)
  then have w1: "good (\<lambda>s l'. sys_ok s \<and> speaks l l' \<and> prefix (printed w) (sys_stdout s)) w1"
    using assms(2) by (simp add: w1_def good_def stub_inv_def bp_abs_defs wp_abs_defs)
  have d: "speaks l (w_link w')" "prefix (printed w) (printed w')" if "dispatch emu_callbacks cmd w1 = Some (r, w')" for cmd
    using emu_talk.dispatch_keeps [OF w1, of cmd] by (simp_all add: that keeps_def good_def)
  consider "w' = w" "r < 0" | "w' = w1" "r < 0" | cmd where "dispatch emu_callbacks cmd w1 = Some (r, w')" "r1 = 0"
    using assms(1) r1 by (auto simp: gdb_stub_process_def rp Let_def w1_def split: if_splits list.splits)
  then have "says (w_link w) (w_link w') \<and> (0 \<le> r \<longrightarrow> length (rx (w_link w')) < length (rx (w_link w))) \<and>
    prefix (printed w) (printed w')"
  proof cases
    case (3 cmd)
    from d [OF 3(1)] l received_packet(1) [of "w_stub w" "w_link w" gs l] rp 3(2) show ?thesis
      by (auto simp: speaks_def intro: says_trans)
  qed (use l in \<open>simp_all add: w1_def\<close>)
  then show "says (w_link w) (w_link w')" "0 \<le> r \<Longrightarrow> length (rx (w_link w')) < length (rx (w_link w))"
    "prefix (printed w) (printed w')" by simp_all
qed

lemma process_stuck:
  assumes "gdb_stub_process emu_callbacks w = None" "emu_ok w"
  shows "\<exists>gs l. receive_packet (w_stub w) (w_link w) = (0, gs, l) \<and> hd (packet_buffer gs) \<in> set ''mMPq''"
proof -
  obtain r1 gs l where rp: "receive_packet (w_stub w) (w_link w) = (r1, gs, l)"
    by (cases "receive_packet (w_stub w) (w_link w)") auto
  define w1 where "w1 = upd_ctx (stub_update (\<lambda>_. gs)) (w\<lparr>w_link := l\<rparr>)"
  have "r1 = 0 \<or> r1 = - 1" by (rule receive_packet_result [OF rp])
  with assms(1) have r1: "r1 = 0"
    and d: "\<And>cmd p. packet_buffer gs = cmd # p \<Longrightarrow> dispatch emu_callbacks cmd w1 = None"
    by (auto simp: gdb_stub_process_def rp Let_def w1_def split: if_splits list.splits)
  have len: "length (packet_buffer (w_stub w)) = 4096" "length (packet_buffer gs) = 4096"
    using receive_packet_length [of "w_stub w" "w_link w"] rp good_stub_inv [OF assms(2)] by (simp_all add: stub_inv_def)
  then obtain cmd p where buf: "packet_buffer gs = cmd # p" by (cases "packet_buffer gs") auto
  then have w1: "w_buf w1 = cmd # p" by (simp add: w1_def)
  have "cmd \<in> set ''mMPq''"
  proof (rule ccontr)
    assume no: "cmd \<notin> set ''mMPq''"
    have "cmd \<noteq> CHR 0x03" using d [OF buf] by (auto simp: dispatch_def)
    then have "NUL \<in> set (w_buf w1)"
      using received_packet(2) [of "w_stub w" "w_link w" gs l] rp r1 len(1) buf w1 by auto
    from dispatch_defined [OF emu_xlen _ w1 this _ no, of emu_callbacks] have "defined (dispatch emu_callbacks cmd w1)"
      using len(2) buf w1 by (simp add: emu_callbacks_def gdb_write_reg_def)
    with d [OF buf] show False by simp
  qed
  with rp r1 buf show ?thesis by simp
qed

text \<open>A continue comes back when the connection has something to be read at some poll.\<close>

lemma continue_loop_returns:
  "Client_data \<in> set polls \<Longrightarrow> continue_loop d polls w \<noteq> None"
proof (induction polls arbitrary: w)
  case (Cons p ps)
  obtain sent w1 where r: "run_harts d (hart_list w) w = (sent, w1)" by (cases "run_harts d (hart_list w) w")
  show ?case
    by (subst continue_loop.simps) (use Cons r in \<open>auto split: poll.split simp del: continue_loop.simps\<close>)
qed simp

lemma continue_all_harts_returns: "Client_data \<in> set polls \<Longrightarrow> continue_all_harts d polls w \<noteq> None"
  using continue_loop_returns [of polls d w] by (auto simp: continue_all_harts_def simp del: continue_loop.simps)

lemma stop_talks [simp]:
  "w_link v = l \<Longrightarrow> speaks l (w_link (snd (gdb_stub_send_stop_reason s a v)))"
  "w_link v = l \<Longrightarrow> speaks l (w_link (notify_stop s a v))"
  "w_link v = l \<Longrightarrow> speaks l (w_link (handle_hart_stop h s v))" for v :: emu
proof -
  show r: "w_link v = l \<Longrightarrow> speaks l (w_link (snd (gdb_stub_send_stop_reason s a v)))" for s a and v :: emu
    using speaks_reply [OF plain_stop_reason, of "v\<lparr>w_ctx := snd (stop_reason s a (w_ctx v))\<rparr>"]
    by (simp add: send_stop_reason_eq)
  show n: "w_link v = l \<Longrightarrow> speaks l (w_link (notify_stop s a v))" for s a and v :: emu
    unfolding notify_stop_def Let_def by (rule r) simp
  show "w_link v = l \<Longrightarrow> speaks l (w_link (handle_hart_stop h s v))"
    unfolding handle_hart_stop_def Let_def by (rule n) simp
qed

lemma run_harts_talks: "emu_ok w \<Longrightarrow> talks w (snd (run_harts d hs w))"
proof (induction d hs w rule: run_harts.induct)
  case (2 d h hs w)
  obtain hit ctx where c: "gdb_stub_check_breakpoint (pc (hart w h)) (w_ctx w) = (hit, ctx)" by fastforce
  let ?v = "w\<lparr>w_ctx := ctx\<rparr>"
  have v: "emu_ok ?v" by (rule check_breakpoint_ok [OF "2.prems" c])
  have s: "emu_ok (continue_step d h ?v)" "prefix (printed w) (printed (continue_step d h ?v))"
    using continue_step_ok [OF v] continue_step_prints [OF v] by simp_all
  show ?case
    using "2.IH" "2.prems" s by (auto simp: c Let_def intro: prefix_order.trans split: if_splits)
qed simp

lemma continue_loop_talks: "continue_loop d polls w = Some (sent, w') \<Longrightarrow> emu_ok w \<Longrightarrow> talks w w'"
proof (induction polls arbitrary: w)
  case Nil
  then show ?case using run_harts_talks [where w = w and d = d and hs = "hart_list w"]
    by (auto simp: continue_loop.simps split: if_splits prod.splits)
next
  case (Cons p ps)
  obtain stop w1 where r: "run_harts d (hart_list w) w = (stop, w1)" by fastforce
  have w1: "talks w w1" using run_harts_talks [OF Cons.prems(2), of d "hart_list w"] by (simp add: r)
  have ok: "emu_ok w1" by (rule run_harts_ok [OF r Cons.prems(2)]) simp
  have "continue_loop d ps v = Some (sent, w') \<Longrightarrow> emu_ok v \<Longrightarrow> w_link v = w_link w1 \<Longrightarrow> printed v = printed w1 \<Longrightarrow>
      talks w w'" for v
    using Cons.IH [of v] talks_trans [OF w1] by simp
  from this [of w1] this [of "sigint_handler w1"] Cons.prems(1) w1 ok sigint_handler_ok [OF ok] show ?case
    by (subst (asm) (3) continue_loop.simps) (auto simp: r split: if_splits poll.splits simp del: continue_loop.simps)
qed

lemma continue_all_harts_talks: "continue_all_harts d polls w = Some (sent, w') \<Longrightarrow> emu_ok w \<Longrightarrow> talks w w'"
  by (auto simp: continue_all_harts_def bind_eq_Some_conv Let_def dest!: continue_loop_talks split: if_splits
      intro: speaks_trans prefix_order.trans simp del: continue_loop.simps)

lemma step_focus_hart_talks:
  assumes "emu_ok w"
  shows "talks w (step_focus_hart d w)"
proof -
  define w1 where "w1 = (if d then show_instruction (focus w) w else w)"
  have w1: "emu_ok w1" "prefix (printed w) (printed w1)" "w_link w1 = w_link w"
    using assms of_mach_ok [OF assms confined_read_mem] of_mach_prints [OF confined_read_mem, of w "focus w" "pc (hart w (focus w))" 4]
    by (simp_all add: w1_def show_instruction_def Let_def case_prod_beta of_mach_def)
  obtain hit ctx where c: "gdb_stub_check_breakpoint (pc (hart w1 (focus w))) (w_ctx w1) = (hit, ctx)" by fastforce
  let ?v = "w1\<lparr>w_ctx := ctx\<rparr>"
  have "emu_ok ?v" by (rule check_breakpoint_ok [OF w1(1) c])
  then have "prefix (printed w) (printed (sys_cpu_step (focus w) ?v))"
    using sys_step_prints [of ?v] w1(2) by (auto intro: prefix_order.trans)
  then show ?thesis
    unfolding step_focus_hart_def Let_def w1_def [symmetric] c prod.case
    using w1(2,3) by simp
qed

lemma main_turn_cases:
  assumes "main_turn d im line polls r w = Some (go, r', w')"
  obtains res w1 where "gdb_stub_process emu_callbacks w = Some (res, w1)" "go \<Longrightarrow> 0 \<le> res" "res < 0 \<Longrightarrow> w' = w1"
    "w' = w1 \<or> (\<exists>s v. w' = print_out s v \<and> (v = w1 \<or> v = step_focus_hart d (sys_resume_runnable w1) \<or>
      (\<exists>sent. continue_all_harts d polls (sys_resume_runnable w1) = Some (sent, v))))"
proof -
  obtain res w1 where p: "gdb_stub_process emu_callbacks w = Some (res, w1)"
    using assms by (auto simp: main_turn_def bind_eq_Some_conv)
  show ?thesis
  proof (rule that [OF p])
    show "0 \<le> res" if "go" using assms p that by (auto simp: main_turn_def split: if_splits)
    show "w' = w1" if "res < 0" using assms p that by (auto simp: main_turn_def split: if_splits)
    show "w' = w1 \<or> (\<exists>s v. w' = print_out s v \<and> (v = w1 \<or> v = step_focus_hart d (sys_resume_runnable w1) \<or>
        (\<exists>sent. continue_all_harts d polls (sys_resume_runnable w1) = Some (sent, v))))"
    proof (cases "res < 0")
      case False
      define ran where "ran = (if res = 1 then let w2 = sys_resume_runnable w1 in
            if single_step (w_ctx w2) then Some (True, step_focus_hart d w2)
            else map_option (\<lambda>(_, w3). (True, w3)) (continue_all_harts d polls w2)
          else Some (r, w1))"
      have b: "Option.bind ran (\<lambda>(rr, v).
          let (go_on, w4) = (if im \<and> rr \<and> should_stop (w_ctx v) then console_prompt line v else (True, v))
          in Some (go_on, rr, w4)) = Some (go, r', w')"
        using assms False unfolding main_turn_def p bind.bind_lunit prod.case ran_def by simp
      then obtain rr v where "ran = Some (rr, v)" by (cases ran) auto
      with b have rr: "ran = Some (rr, v)"
          "(if im \<and> rr \<and> should_stop (w_ctx v) then console_prompt line v else (True, v)) = (go, w')"
        by (simp_all only: bind.bind_lunit prod.case Let_def) (auto split: prod.splits)
      then have v: "v = w1 \<or> v = step_focus_hart d (sys_resume_runnable w1) \<or>
          (\<exists>sent. continue_all_harts d polls (sys_resume_runnable w1) = Some (sent, v))"
        by (auto simp: ran_def Let_def simp del: continue_loop.simps split: if_splits)
      with rr(2) turn_end [of "im \<and> rr \<and> should_stop (w_ctx v)" line v] show ?thesis by auto
    qed (use assms p in \<open>simp add: main_turn_def\<close>)
  qed
qed

lemma main_turn_link:
  assumes "main_turn d im line polls r w = Some (go, r', w')" "emu_ok w"
  shows "says (w_link w) (w_link w')" "go \<Longrightarrow> length (rx (w_link w')) < length (rx (w_link w))"
    "prefix (printed w) (printed w')"
proof -
  have "says (w_link w) (w_link w') \<and> (go \<longrightarrow> length (rx (w_link w')) < length (rx (w_link w))) \<and>
      prefix (printed w) (printed w')"
    using assms(1)
  proof (rule main_turn_cases)
    fix res w1
    assume p: "gdb_stub_process emu_callbacks w = Some (res, w1)" "go \<Longrightarrow> 0 \<le> res"
      and c: "w' = w1 \<or> (\<exists>s v. w' = print_out s v \<and> (v = w1 \<or> v = step_focus_hart d (sys_resume_runnable w1) \<or>
        (\<exists>sent. continue_all_harts d polls (sys_resume_runnable w1) = Some (sent, v))))"
    have u: "emu_ok (sys_resume_runnable w1)" using halt_resume_ok(2) [OF emu.process_inv [OF p(1) assms(2)]] .
    have "talks w1 v" if "v = w1 \<or> v = step_focus_hart d (sys_resume_runnable w1) \<or>
        (\<exists>sent. continue_all_harts d polls (sys_resume_runnable w1) = Some (sent, v))" for v
      using that continue_all_harts_talks [OF _ u] step_focus_hart_talks [OF u, of d] by fastforce
    with c have "talks w1 w'" by (auto intro: prefix_order.trans)
    with process_link [OF p(1) assms(2)] p(2) show ?thesis
      by (auto simp: speaks_def intro: says_trans prefix_order.trans)
  qed
  then show "says (w_link w) (w_link w')" "go \<Longrightarrow> length (rx (w_link w')) < length (rx (w_link w))"
    "prefix (printed w) (printed w')" by simp_all
qed

lemma main_turn_stuck:
  assumes "main_turn d im line polls r w = None" "Client_data \<in> set polls"
  shows "gdb_stub_process emu_callbacks w = None"
proof (rule ccontr)
  assume "gdb_stub_process emu_callbacks w \<noteq> None"
  then obtain res w1 where p: "gdb_stub_process emu_callbacks w = Some (res, w1)" by auto
  obtain sent w2 where "continue_all_harts d polls (sys_resume_runnable w1) = Some (sent, w2)"
    using continue_all_harts_returns [OF assms(2)] by fastforce
  with assms(1) p show False by (simp add: main_turn_def Let_def split: if_splits prod.splits)
qed

lemma main_loop_ends:
  assumes "emu_ok w" "length (rx (w_link w)) < length inputs"
    and "\<forall>(sigint, line, polls) \<in> set inputs. Client_data \<in> set polls"
  shows "(\<exists>w'. main_loop d im inputs r w = Ended w' \<and> emu_ok w') \<or>
    (\<exists>w'. main_loop d im inputs r w = Stuck w' \<and> emu_ok w' \<and> gdb_stub_process emu_callbacks w' = None)"
  using assms
proof (induction inputs arbitrary: r w)
  case (Cons i inputs)
  obtain sigint line polls where i: "i = (sigint, line, polls)" by (cases i)
  define w1 where "w1 = (if sigint then sigint_handler w else w)"
  have w1: "emu_ok w1" "rx (w_link w1) = rx (w_link w)" using Cons.prems(1) by (simp_all add: w1_def sigint_handler_ok)
  show ?case
  proof (cases "connected (w_stub w)")
    case False
    with Cons.prems(1) show ?thesis by (subst (1 2) main_loop.simps) simp
  next
    case conn: True
    show ?thesis
    proof (cases "main_turn d im line polls r w1")
      case None
      moreover from this have "gdb_stub_process emu_callbacks w1 = None"
        using Cons.prems(3) i by (intro main_turn_stuck) auto
      ultimately show ?thesis using conn i w1(1) by (subst (1 2) main_loop.simps) (simp add: w1_def)
    next
      case (Some res)
      then obtain go r' w2 where t: "main_turn d im line polls r w1 = Some (go, r', w2)" by (cases res) auto
      have w2: "emu_ok w2" by (rule main_turn_ok [OF t w1(1)])
      show ?thesis
      proof (cases go)
        case True
        with main_turn_link(2) [OF t w1(1)] w1(2) Cons.prems(2)
        have "length (rx (w_link w2)) < length inputs" by simp
        with Cons.IH [OF w2, of r'] Cons.prems(3) show ?thesis
          using conn i t True by (subst (1 2) main_loop.simps) (simp add: w1_def)
      next
        case False
        with t conn i w2 show ?thesis by (subst (1 2) main_loop.simps) (simp add: w1_def)
      qed
    qed
  qed
qed simp

text \<open>The world a loop has come to.\<close>

fun loop_world :: "loop_result \<Rightarrow> emu" where
  "loop_world (Ended w) = w"
| "loop_world (Stuck w) = w"
| "loop_world (Going w) = w"

lemma main_loop_says:
  "emu_ok w \<Longrightarrow> says (w_link w) (w_link (loop_world (main_loop d im inputs r w))) \<and>
    prefix (printed w) (printed (loop_world (main_loop d im inputs r w)))"
proof (induction inputs arbitrary: r w)
  case Nil
  then show ?case by (simp add: main_loop.simps)
next
  case (Cons i inputs)
  obtain sigint line polls where i: "i = (sigint, line, polls)" by (cases i)
  define w1 where "w1 = (if sigint then sigint_handler w else w)"
  have w1: "emu_ok w1" "w_link w1 = w_link w" "printed w1 = printed w" using Cons.prems by (simp_all add: w1_def sigint_handler_ok)
  have "says (w_link w) (w_link (loop_world (if go then main_loop d im inputs r' w2 else Ended w2))) \<and>
      prefix (printed w) (printed (loop_world (if go then main_loop d im inputs r' w2 else Ended w2)))"
    if t: "main_turn d im line polls r w1 = Some (go, r', w2)" for go r' w2
    using main_turn_link(1,3) [OF t w1(1)] Cons.IH [OF main_turn_ok [OF t w1(1)], of r'] w1(2,3)
    by (auto intro: says_trans prefix_order.trans)
  with w1(2,3) show ?case
    by (subst (1 2) main_loop.simps) (simp add: i Let_def flip: w1_def split: option.split)
qed

subsection \<open>Properties of the program\<close>

text \<open>
  C19: The program ends. Whatever the client sends and whenever SIGINT arrives, if the
  connection has something to be read at some poll of every continue, a started program takes at
  least one byte of its input in every turn and so, after no more turns than there are bytes and
  one, returns 0 with both sockets closed, having printed its greeting first and its farewell last;
  or else it comes to a packet with no defined execution, whose command is one of \<open>m\<close>,
  \<open>M\<close>, \<open>P\<close> and \<open>q\<close>.
\<close>

theorem program_ends:
  assumes "parse_options permute prog ([], args) default_options = Some (Run opts)"
    and "main_start (opt_gdb_port opts) (opt_num_harts opts) sock b li fd client = Inr start"
    and "length (rx l) < length inputs" "\<forall>(sigint, line, polls) \<in> set inputs. Client_data \<in> set polls"
  shows "(\<exists>w' out. main_program permute prog args sock b li fd client l inputs =
        Some (0, start_text (opt_gdb_port opts) (sys_num_harts (w_sim start)) client @ out @ shutdown_text, Some w') \<and>
      \<not> connected (w_stub w') \<and> client_fd (w_stub w') < 0 \<and> socket_fd (w_stub w') < 0) \<or>
    (\<exists>w' gs l'. main_loop (opt_debug_mode opts) (opt_interactive_mode opts) inputs False (start\<lparr>w_link := l\<rparr>) = Stuck w' \<and>
      gdb_stub_process emu_callbacks w' = None \<and>
      receive_packet (w_stub w') (w_link w') = (0, gs, l') \<and> hd (packet_buffer gs) \<in> set ''mMPq'')"
proof -
  have ok: "emu_ok (start\<lparr>w_link := l\<rparr>)" using main_start_ok(1) [OF assms(2)] by simp
  from main_loop_ends [OF ok _ assms(4), of "opt_debug_mode opts" "opt_interactive_mode opts" False] assms(3)
  consider w' where "main_loop (opt_debug_mode opts) (opt_interactive_mode opts) inputs False (start\<lparr>w_link := l\<rparr>) = Ended w'"
    | w' where "main_loop (opt_debug_mode opts) (opt_interactive_mode opts) inputs False (start\<lparr>w_link := l\<rparr>) = Stuck w'"
        "emu_ok w'" "gdb_stub_process emu_callbacks w' = None"
    by auto
  then show ?thesis
  proof cases
    case 1
    then have "prefix (printed start) (printed w')"
      using main_loop_says [OF ok, of "opt_debug_mode opts" "opt_interactive_mode opts" inputs False] by simp
    then obtain out where "printed w' = start_text (opt_gdb_port opts) (sys_num_harts (w_sim start)) client @ out"
      using main_start_ok(3) [OF assms(2)] by (auto simp: prefix_def)
    with 1 show ?thesis using assms(1,2) by (simp add: main_program_def gdb_stub_close_def Let_def)
  next
    case 2
    with process_stuck [OF 2(3,2)] show ?thesis by blast
  qed
qed

lemma program_ends_witness:
  "(\<exists>w' out. main_program False ''emu'' [''-c'', ''2''] 3 0 0 4 (''127.0.0.1'', 50000) \<lparr>rx = frame ''k'', tx = [], wsched = []\<rparr>
        (replicate 6 (True, None, [Client_data])) =
          Some (0, start_text 1234 (sys_num_harts (w_sim (demo_start 2))) (''127.0.0.1'', 50000) @ out @ shutdown_text, Some w') \<and>
      \<not> connected (w_stub w') \<and> client_fd (w_stub w') < 0 \<and> socket_fd (w_stub w') < 0) \<or>
    (\<exists>w' gs l'. main_loop False False (replicate 6 (True, None, [Client_data])) False
          ((demo_start 2)\<lparr>w_link := \<lparr>rx = frame ''k'', tx = [], wsched = []\<rparr>\<rparr>) = Stuck w' \<and>
      gdb_stub_process emu_callbacks w' = None \<and>
      receive_packet (w_stub w') (w_link w') = (0, gs, l') \<and> hd (packet_buffer gs) \<in> set ''mMPq'')"
proof -
  let ?o = "default_options\<lparr>opt_num_harts := 2\<rparr>"
  have o: "parse_options False ''emu'' ([], [''-c'', ''2'']) default_options = Some (Run ?o)"
    using parse_option [of "(False, Harts 2)" False "''emu''" "[]" default_options]
    by (simp add: fmt_nat.simps hex_char_def) (simp add: parse_options.simps [of _ _ "([], [])"])
  have m: "main_start (opt_gdb_port ?o) (opt_num_harts ?o) 3 0 0 4 (''127.0.0.1'', 50000) = Inr (demo_start 2)"
    using demo_start [of 2] by (simp add: default_options_def)
  show ?thesis
    using program_ends [OF o m, of "\<lparr>rx = frame ''k'', tx = [], wsched = []\<rparr>" "replicate 6 (True, None, [Client_data])"]
    by (simp add: length_frame default_options_def)
qed

text \<open>
  C9: The output is well-formed. Whatever the client sends and whenever SIGINT arrives, after
  any number of turns of the main loop everything the program has sent, if every write was taken
  whole, is a sequence of acknowledgements \<open>+\<close> and \<open>-\<close> and of frames with the right checksum,
  each around fewer than 4092 printable characters none of which the protocol reserves.
\<close>

theorem output_well_formed:
  assumes "main_start p n sock b li fd client = Inr start" "wsched l = []"
  shows "\<exists>ts. list_all token_ok ts \<and>
    tx (w_link (loop_world (main_loop d im inputs False (start\<lparr>w_link := l\<rparr>)))) = tx l @ concat (map token_text ts)"
proof -
  have "emu_ok (start\<lparr>w_link := l\<rparr>)" using main_start_ok(1) [OF assms(1)] by simp
  from main_loop_says [OF this, of d im inputs False] assms(2) show ?thesis by (simp add: says_def)
qed

lemma output_well_formed_witness:
  "\<exists>ts. list_all token_ok ts \<and>
    tx (w_link (loop_world (main_loop False False [(False, None, []), (True, None, [])] False
      ((demo_start 2)\<lparr>w_link := \<lparr>rx = frame ''?'' @ frame ''zoo'', tx = [], wsched = []\<rparr>\<rparr>)))) = concat (map token_text ts)"
  using output_well_formed [OF demo_start, of "\<lparr>rx = frame ''?'' @ frame ''zoo'', tx = [], wsched = []\<rparr>" False False
      "[(False, None, []), (True, None, [])]" 2]
  by simp

text \<open>
  C37: The first packet that cannot be read ends the session, not the fiftieth: whatever
  inputs would follow, the main loop ends in that turn with one failure counted and the target as
  it was.
\<close>

theorem first_failure_ends_session:
  assumes "connected (w_stub w)" "consecutive_failures (w_stub w) < 50"
    and "fst (receive_packet (w_stub w) (w_link w)) \<noteq> 0"
  shows "\<exists>w'. main_loop d im ((False, line, polls) # inputs) r w = Ended w' \<and> w_sim w' = w_sim w \<and>
    consecutive_failures (w_stub w') = consecutive_failures (w_stub w) + 1"
proof -
  obtain w' where "gdb_stub_process emu_callbacks w = Some (- 1, w')" "w_sim w' = w_sim w"
    "consecutive_failures (w_stub w') = consecutive_failures (w_stub w) + 1"
    using process_failure [of w emu_callbacks] assms by blast
  then show ?thesis using assms(1) by (subst main_loop.simps) (simp add: main_turn_def)
qed

lemma first_failure_ends_session_witness:
  "\<exists>w'. main_loop False False [(False, None, [])] False (client_sends ''$g'' (demo_start 1)) = Ended w' \<and>
     consecutive_failures (w_stub w') = 1"
proof -
  have "fst (receive_packet (w_stub (demo_start 1)) (w_link (client_sends ''$g'' (demo_start 1)))) \<noteq> 0"
    by (simp add: receive_packet_def)
  with first_failure_ends_session [of "client_sends ''$g'' (demo_start 1)" False False None "[]" "[]" False]
    main_start_ok(2) [OF demo_start, of 1] demo_facts(1) [of 1] show ?thesis by simp blast
qed

end
